(* ===== verification/Proxy_Prelude.thy ===== *)
theory Proxy_Prelude
  imports Main "HOL-Library.Word"
begin

text \<open>
  Shared vocabulary of the development.

  Machine integers of the source are words of their width (\<open>uint8_t\<close>, \<open>uint16_t\<close>,
  \<open>uint32_t\<close>, \<open>uint64_t\<close> become \<open>u8\<close>, \<open>u16\<close>, \<open>u32\<close>, \<open>u64\<close>), so their arithmetic
  wraps exactly as in C++. The signed types \<open>int\<close>, \<open>int32_t\<close> and \<open>int64_t\<close>, whose overflow
  C++ leaves undefined, are \<open>int\<close>; a conversion between the two is written out with
  \<open>word_of_int\<close> and \<open>sint\<close>.

  A buffer is a \<open>bytes\<close> list and a pointer into it is the list with an offset. The theory
  holds the big-endian accessors every wire format shares and the laws by which a written
  field is read back, the model of \<open>std::map\<close> as an association list in key order, and the
  interface \<open>codec\<close> that every packet format of the program meets.
\<close>

type_synonym u8 = "8 word"
type_synonym u16 = "16 word"
type_synonym u32 = "32 word"
type_synonym u64 = "64 word"
type_synonym bytes = "8 word list"

unbundle bit_operations_syntax

named_theorems wire_simps "reading back the fields of a packet buffer"
named_theorems frame_simps "fields an operation leaves alone"

subsection \<open>Buffers\<close>

definition ascii :: "string \<Rightarrow> bytes" where
  "ascii s = map of_char s"

text \<open>\<open>memcpy(p + k, src, n)\<close> for a source that fits.\<close>

definition blit :: "bytes \<Rightarrow> nat \<Rightarrow> bytes \<Rightarrow> bytes" where
  "blit p k src = take k p @ src @ drop (k + length src) p"

lemma length_blit [simp]: "k + length src \<le> length p \<Longrightarrow> length (blit p k src) = length p"
  by (simp add: blit_def)

lemma nth_blit: "k + length src \<le> length p \<Longrightarrow> i < length p \<Longrightarrow>
  blit p k src ! i = (if k \<le> i \<and> i < k + length src then src ! (i - k) else p ! i)"
  by (auto simp: blit_def nth_append)

text \<open>\<open>memcmp(p, s, 4) == 0\<close> on a packet that holds at least four bytes.\<close>

definition has_magic :: "bytes \<Rightarrow> string \<Rightarrow> bool" where
  "has_magic p s \<longleftrightarrow> take (length s) p = ascii s"

subsection \<open>Big-endian fields\<close>

definition get16 :: "bytes \<Rightarrow> nat \<Rightarrow> u16" where
  "get16 p k = push_bit 8 (ucast (p ! k)) OR ucast (p ! (k + 1))"

definition get32 :: "bytes \<Rightarrow> nat \<Rightarrow> u32" where
  "get32 p k = push_bit 24 (ucast (p ! k)) OR push_bit 16 (ucast (p ! (k + 1)))
     OR push_bit 8 (ucast (p ! (k + 2))) OR ucast (p ! (k + 3))"

definition get64 :: "bytes \<Rightarrow> nat \<Rightarrow> u64" where
  "get64 p k = push_bit 32 (ucast (get32 p k)) OR ucast (get32 p (k + 4))"

definition put16 :: "bytes \<Rightarrow> nat \<Rightarrow> u16 \<Rightarrow> bytes" where
  "put16 p k v = p[k := ucast (drop_bit 8 v), k + 1 := ucast v]"

text \<open>The loop of \<open>put32\<close> runs from the last byte of the field to the first.\<close>

fun put32_loop :: "bytes \<Rightarrow> nat \<Rightarrow> nat \<Rightarrow> u32 \<Rightarrow> bytes" where
  "put32_loop p k 0 v = p"
| "put32_loop p k (Suc i) v = put32_loop (p[k + i := ucast v]) k i (drop_bit 8 v)"

definition put32 :: "bytes \<Rightarrow> nat \<Rightarrow> u32 \<Rightarrow> bytes" where
  "put32 p k v = put32_loop p k 4 v"

definition put64 :: "bytes \<Rightarrow> nat \<Rightarrow> u64 \<Rightarrow> bytes" where
  "put64 p k v = put32 (put32 p k (ucast (drop_bit 32 v))) (k + 4) (ucast v)"

lemma put32_eq: "put32 p k v =
  p[k + 3 := ucast v, k + 2 := ucast (drop_bit 8 v),
    k + 1 := ucast (drop_bit 16 v), k := ucast (drop_bit 24 v)]"
  by (simp add: put32_def eval_nat_numeral)

lemma length_put16 [simp]: "length (put16 p k v) = length p"
  by (simp add: put16_def)

lemma length_put32 [simp]: "length (put32 p k v) = length p"
  by (simp add: put32_eq)

lemma length_put64 [simp]: "length (put64 p k v) = length p"
  by (simp add: put64_def)

lemma nth_put16 [wire_simps]: "i < k \<or> k + 2 \<le> i \<Longrightarrow> put16 p k v ! i = p ! i"
  by (auto simp: put16_def)

lemma nth_put32 [wire_simps]: "i < k \<or> k + 4 \<le> i \<Longrightarrow> put32 p k v ! i = p ! i"
  by (auto simp: put32_eq)

lemma nth_put64 [wire_simps]: "i < k \<or> k + 8 \<le> i \<Longrightarrow> put64 p k v ! i = p ! i"
  by (auto simp: put64_def nth_put32)

lemma get16_put16 [wire_simps]: "k + 2 \<le> length p \<Longrightarrow> get16 (put16 p k v) k = v"
  by (simp add: get16_def put16_def nth_list_update)
    (rule bit_word_eqI, auto simp: bit_simps)

lemma get32_put32 [wire_simps]: "k + 4 \<le> length p \<Longrightarrow> get32 (put32 p k v) k = v"
proof (rule bit_word_eqI)
  fix n
  assume "k + 4 \<le> length p" "n < LENGTH(32)"
  then show "bit (get32 (put32 p k v) k) n = bit v n"
    by (cases "n < 8"; cases "n < 16"; cases "n < 24")
      (auto simp: get32_def put32_eq nth_list_update bit_simps)
qed

text \<open>A field is not touched by a write outside it.\<close>

lemma get32_cong: "(\<And>i. k \<le> i \<Longrightarrow> i < k + 4 \<Longrightarrow> p ! i = q ! i) \<Longrightarrow> get32 p k = get32 q k"
  by (simp add: get32_def)

lemma get64_cong: "(\<And>i. k \<le> i \<Longrightarrow> i < k + 8 \<Longrightarrow> p ! i = q ! i) \<Longrightarrow> get64 p k = get64 q k"
  by (simp add: get64_def cong: get32_cong)

lemma get16_cong: "(\<And>i. k \<le> i \<Longrightarrow> i < k + 2 \<Longrightarrow> p ! i = q ! i) \<Longrightarrow> get16 p k = get16 q k"
  by (simp add: get16_def)

lemma get32_update [wire_simps]: "i < k \<or> k + 4 \<le> i \<Longrightarrow> get32 (p[i := b]) k = get32 p k"
  by (rule get32_cong) auto

lemma get64_update [wire_simps]: "i < k \<or> k + 8 \<le> i \<Longrightarrow> get64 (p[i := b]) k = get64 p k"
  by (rule get64_cong) auto

lemma get16_update [wire_simps]: "i < k \<or> k + 2 \<le> i \<Longrightarrow> get16 (p[i := b]) k = get16 p k"
  by (rule get16_cong) auto

lemma get32_put32_other [wire_simps]:
  "j + 4 \<le> k \<or> k + 4 \<le> j \<Longrightarrow> get32 (put32 p j v) k = get32 p k"
  by (rule get32_cong) (auto simp: nth_put32)

lemma get32_put64_other [wire_simps]:
  "j + 8 \<le> k \<or> k + 4 \<le> j \<Longrightarrow> get32 (put64 p j v) k = get32 p k"
  by (rule get32_cong) (auto simp: nth_put64)

lemma get64_put32_other [wire_simps]:
  "j + 4 \<le> k \<or> k + 8 \<le> j \<Longrightarrow> get64 (put32 p j v) k = get64 p k"
  by (rule get64_cong) (auto simp: nth_put32)

lemma get64_put64_other [wire_simps]:
  "j + 8 \<le> k \<or> k + 8 \<le> j \<Longrightarrow> get64 (put64 p j v) k = get64 p k"
  by (rule get64_cong) (auto simp: nth_put64)

lemma get32_put16_other [wire_simps]:
  "j + 2 \<le> k \<or> k + 4 \<le> j \<Longrightarrow> get32 (put16 p j v) k = get32 p k"
  by (rule get32_cong) (auto simp: nth_put16)

lemma get64_put16_other [wire_simps]:
  "j + 2 \<le> k \<or> k + 8 \<le> j \<Longrightarrow> get64 (put16 p j v) k = get64 p k"
  by (rule get64_cong) (auto simp: nth_put16)

lemma get16_put16_other [wire_simps]:
  "j + 2 \<le> k \<or> k + 2 \<le> j \<Longrightarrow> get16 (put16 p j v) k = get16 p k"
  by (rule get16_cong) (auto simp: nth_put16)

lemma get16_put32_other [wire_simps]:
  "j + 4 \<le> k \<or> k + 2 \<le> j \<Longrightarrow> get16 (put32 p j v) k = get16 p k"
  by (rule get16_cong) (auto simp: nth_put32)

lemma get16_put64_other [wire_simps]:
  "j + 8 \<le> k \<or> k + 2 \<le> j \<Longrightarrow> get16 (put64 p j v) k = get16 p k"
  by (rule get16_cong) (auto simp: nth_put64)

lemma get64_put64 [wire_simps]: "k + 8 \<le> length p \<Longrightarrow> get64 (put64 p k v) k = v"
  by (simp add: get64_def put64_def get32_put32 get32_put32_other)
    (rule bit_word_eqI, auto simp: bit_simps)

lemma has_magic_update [wire_simps]: "length s \<le> i \<Longrightarrow> has_magic (p[i := b]) s = has_magic p s"
  by (simp add: has_magic_def)

lemma has_magic_put [wire_simps]:
  "length s \<le> k \<Longrightarrow> has_magic (put16 p k a) s = has_magic p s"
  "length s \<le> k \<Longrightarrow> has_magic (put32 p k b) s = has_magic p s"
  "length s \<le> k \<Longrightarrow> has_magic (put64 p k c) s = has_magic p s"
  by (simp_all add: has_magic_def put16_def put32_eq put64_def)

lemma length_ascii [simp]: "length (ascii s) = length s"
  by (simp add: ascii_def)

lemma has_magic_blit [wire_simps]: "has_magic (blit p 0 (ascii s)) s"
  by (simp add: has_magic_def blit_def)

text \<open>A field behind the four magic bytes of a zeroed packet reads as zero.\<close>

lemma nth_blit_zero [wire_simps]:
  "length s \<le> i \<Longrightarrow> i < n \<Longrightarrow> blit (replicate n 0) 0 (ascii s) ! i = 0"
  by (simp add: blit_def nth_append)

lemma get_blit_zero [wire_simps]:
  "length s \<le> k \<Longrightarrow> k + 2 \<le> n \<Longrightarrow> get16 (blit (replicate n 0) 0 (ascii s)) k = 0"
  "length s \<le> k \<Longrightarrow> k + 4 \<le> n \<Longrightarrow> get32 (blit (replicate n 0) 0 (ascii s)) k = 0"
  by (simp_all add: get16_def get32_def nth_blit_zero)

lemma sint_word_of_int32 [simp]:
  "- 2147483648 \<le> n \<Longrightarrow> n < 2147483648 \<Longrightarrow> sint (word_of_int n :: u32) = n"
  by (simp add: int_word_sint)

lemma word_of_int_sint32 [simp]: "(word_of_int (sint (w :: u32)) :: u32) = w"
  by simp

subsection \<open>Zero runs and reading a packet against its encoding\<close>

definition zero_run :: "bytes \<Rightarrow> nat \<Rightarrow> nat \<Rightarrow> bool" where
  "zero_run p k n \<longleftrightarrow> (\<forall>i<n. p ! (k + i) = 0)"

lemma zero_runD: "zero_run p k n \<Longrightarrow> k \<le> i \<Longrightarrow> i < k + n \<Longrightarrow> p ! i = 0"
  unfolding zero_run_def by (metis add_diff_inverse_nat add_less_cancel_left not_le)

lemma has_magicD: "has_magic p s \<Longrightarrow> i < length s \<Longrightarrow> i < length p \<Longrightarrow> p ! i = ascii s ! i"
  by (metis has_magic_def nth_take)

lemma bit_u8_high: "8 \<le> n \<Longrightarrow> \<not> bit (b :: u8) n"
  and bit_u32_high: "32 \<le> n \<Longrightarrow> \<not> bit (c :: u32) n"
  by (auto dest: bit_imp_le_length)

text \<open>Writing back what was read copies the field's bytes.\<close>

lemma get16_bytes: "ucast (get16 q k) = q ! (k + 1)" "ucast (drop_bit 8 (get16 q k)) = q ! k"
  by (auto simp: get16_def bit_simps bit_u8_high intro!: bit_word_eqI)

lemma get32_bytes:
  "ucast (get32 q k) = q ! (k + 3)"
  "ucast (drop_bit 8 (get32 q k)) = q ! (k + 2)"
  "ucast (drop_bit 16 (get32 q k)) = q ! (k + 1)"
  "ucast (drop_bit 24 (get32 q k)) = q ! k"
  by (auto simp: get32_def bit_simps bit_u8_high intro!: bit_word_eqI)

lemma get64_halves:
  "ucast (get64 q k) = get32 q (k + 4)"
  "ucast (drop_bit 32 (get64 q k)) = get32 q k"
  by (auto simp: get64_def bit_simps bit_u32_high intro!: bit_word_eqI)

lemma nth_put16_get16: "k + 2 \<le> length p \<Longrightarrow>
  put16 p k (get16 q k) ! i = (if k \<le> i \<and> i < k + 2 then q ! i else p ! i)"
  by (cases "i = k"; cases "i = k + 1") (auto simp: put16_def get16_bytes)

lemma nth_put32_get32: "k + 4 \<le> length p \<Longrightarrow>
  put32 p k (get32 q k) ! i = (if k \<le> i \<and> i < k + 4 then q ! i else p ! i)"
  by (cases "i = k"; cases "i = k + 1"; cases "i = k + 2"; cases "i = k + 3")
    (auto simp: put32_eq get32_bytes)

lemma nth_put64_get64: "k + 8 \<le> length p \<Longrightarrow>
  put64 p k (get64 q k) ! i = (if k \<le> i \<and> i < k + 8 then q ! i else p ! i)"
  by (auto simp: put64_def get64_halves nth_put32_get32)

lemma get32_zeroD: "get32 p k = 0 \<Longrightarrow> k \<le> i \<Longrightarrow> i < k + 4 \<Longrightarrow> p ! i = 0"
  using get32_bytes [of p k]
  by (cases "i = k"; cases "i = k + 1"; cases "i = k + 2"; cases "i = k + 3") auto

lemma get16_zeroD: "get16 p k = 0 \<Longrightarrow> k \<le> i \<Longrightarrow> i < k + 2 \<Longrightarrow> p ! i = 0"
  using get16_bytes [of p k] by (cases "i = k"; cases "i = k + 1") auto

lemmas nth_copy = nth_put16_get16 nth_put32_get32 nth_put64_get64 nth_list_update nth_blit

subsection \<open>\<open>std::map\<close>\<close>

text \<open>An association list in key order; \<open>smap_put\<close> is \<open>m[k] = v\<close>, \<open>map_of\<close> is \<open>find\<close>.\<close>

fun smap_put :: "'k::linorder \<Rightarrow> 'v \<Rightarrow> ('k \<times> 'v) list \<Rightarrow> ('k \<times> 'v) list" where
  "smap_put k v [] = [(k, v)]"
| "smap_put k v ((k', v') # m) =
     (if k < k' then (k, v) # (k', v') # m
      else if k = k' then (k, v) # m else (k', v') # smap_put k v m)"

definition smap_erase :: "'k \<Rightarrow> ('k \<times> 'v) list \<Rightarrow> ('k \<times> 'v) list" where
  "smap_erase k m = filter (\<lambda>e. fst e \<noteq> k) m"

text \<open>\<open>m[k]\<close> with the default the value-initialised element has.\<close>

definition smap_at :: "'v \<Rightarrow> ('k \<times> 'v) list \<Rightarrow> 'k \<Rightarrow> 'v" where
  "smap_at d m k = (case map_of m k of Some v \<Rightarrow> v | None \<Rightarrow> d)"

lemma map_of_smap_put [simp]: "map_of (smap_put k v m) = (map_of m)(k \<mapsto> v)"
  by (induction m) (auto simp: fun_eq_iff)

lemma map_of_smap_erase [simp]: "map_of (smap_erase k m) = (map_of m)(k := None)"
  by (induction m) (auto simp: fun_eq_iff smap_erase_def)

lemma keys_smap_put: "fst ` set (smap_put k v m) = insert k (fst ` set m)"
proof (induction m)
  case (Cons e m)
  show ?case by (cases e) (auto simp: Cons)
qed simp

lemma vals_smap_put: "e \<in> set (smap_put k v m) \<Longrightarrow> e = (k, v) \<or> e \<in> set m"
  by (induction m) (auto split: if_splits)

definition smap_ok :: "('k::linorder \<times> 'v) list \<Rightarrow> bool" where
  "smap_ok m \<longleftrightarrow> sorted_wrt (<) (map fst m)"

lemma smap_ok_Nil [simp]: "smap_ok []"
  by (simp add: smap_ok_def)

lemma smap_ok_put [simp]: "smap_ok m \<Longrightarrow> smap_ok (smap_put k v m)"
proof (induction m)
  case (Cons e m)
  then show ?case
  proof (cases e)
    case (Pair k' v')
    have "x \<in> set (smap_put k v m) \<Longrightarrow> fst x = k \<or> x \<in> set m" for x
      using vals_smap_put [of x k v m] by auto
    with Cons Pair show ?thesis by (fastforce simp: smap_ok_def not_less)
  qed
qed (simp add: smap_ok_def)

lemma smap_ok_erase [simp]: "smap_ok m \<Longrightarrow> smap_ok (smap_erase k m)"
  by (induction m) (auto simp: smap_ok_def smap_erase_def)

lemma smap_ok_distinct: "smap_ok m \<Longrightarrow> distinct (map fst m)"
  by (simp add: smap_ok_def strict_sorted_iff)

lemma smap_mem_iff: "smap_ok m \<Longrightarrow> (k, v) \<in> set m \<longleftrightarrow> map_of m k = Some v"
  by (simp add: smap_ok_distinct)

subsection \<open>The interface of a packet format\<close>

text \<open>
  \<open>enc\<close> builds the packet of a value, \<open>dec\<close> checks and reads one, \<open>wf\<close> are the values the
  format admits. A format that meets the interface is a bijection between the admitted
  values and the accepted packets: nothing is lost, and no two packets mean the same.
\<close>

locale codec =
  fixes enc :: "'a \<Rightarrow> bytes"
    and dec :: "bytes \<Rightarrow> 'a option"
    and wf :: "'a \<Rightarrow> bool"
    and size :: nat
  assumes enc_size: "length (enc a) = size"
    and dec_enc: "wf a \<Longrightarrow> dec (enc a) = Some a"
    and dec_wf: "dec p = Some a \<Longrightarrow> wf a"
    and enc_dec: "dec p = Some a \<Longrightarrow> enc a = p"
begin

lemma dec_iff: "dec p = Some a \<longleftrightarrow> wf a \<and> p = enc a"
  using dec_enc dec_wf enc_dec by blast

lemma dec_size: "dec p = Some a \<Longrightarrow> length p = size"
  using enc_dec enc_size by blast

lemma enc_inject: "wf a \<Longrightarrow> wf b \<Longrightarrow> enc a = enc b \<longleftrightarrow> a = b"
  by (metis dec_enc option.inject)

lemma dec_inject: "dec p = Some a \<Longrightarrow> dec q = Some a \<Longrightarrow> p = q"
  using enc_dec by blast

lemma reject_iff: "dec p = None \<longleftrightarrow> (\<forall>a. wf a \<longrightarrow> p \<noteq> enc a)"
  by (metis dec_iff not_None_eq)

end

subsection \<open>Replay guards\<close>

text \<open>
  The interface of the two replay trackers: a mark (the highest number accepted) per key, a test
  that a number is stale, and the recording of an accepted number. \<open>fresh t t'\<close> says that what
  was recorded at \<open>t\<close> is still kept at \<open>t'\<close>.
\<close>

locale replay_guard =
  fixes ok :: "'s \<Rightarrow> bool"
    and mark :: "'s \<Rightarrow> 't \<Rightarrow> 'k \<Rightarrow> 'v option"
    and newer :: "'v \<Rightarrow> 'v \<Rightarrow> bool"
    and fresh :: "'t \<Rightarrow> 't \<Rightarrow> bool"
    and stale :: "'s \<Rightarrow> 'k \<Rightarrow> 'v \<Rightarrow> 't \<Rightarrow> bool \<times> 's"
    and keep :: "'s \<Rightarrow> 'k \<Rightarrow> 'v \<Rightarrow> 't \<Rightarrow> 's"
  assumes newer_asym: "newer a b \<Longrightarrow> \<not> newer b a"
    and stale_iff: "ok s \<Longrightarrow> fst (stale s k v t) \<longleftrightarrow> (\<exists>h. mark s t k = Some h \<and> \<not> newer v h)"
    and stale_mark: "ok s \<Longrightarrow> mark (snd (stale s k v t)) t k' = mark s t k'"
    and stale_ok: "ok s \<Longrightarrow> ok (snd (stale s k v t))"
    and keep_ok: "ok s \<Longrightarrow> ok (keep s k v t)"
    and keep_mark: "ok s \<Longrightarrow> (\<And>h. mark s t k = Some h \<Longrightarrow> newer v h) \<Longrightarrow> fresh t t'
      \<Longrightarrow> mark (keep s k v t) t' k = Some v"
begin

text \<open>The use the server makes of a guard: test, then keep what passed.\<close>

definition guard :: "'s \<Rightarrow> 'k \<Rightarrow> 'v \<Rightarrow> 't \<Rightarrow> bool \<times> 's" where
  "guard s k v t = (let (old, s) = stale s k v t in if old then (False, s) else (True, keep s k v t))"

lemma guard_ok: "ok s \<Longrightarrow> ok (snd (guard s k v t))"
  using stale_ok [of s k v t] keep_ok [of "snd (stale s k v t)" k v t]
  by (cases "stale s k v t") (auto simp: guard_def)

lemma guard_mark:
  assumes "ok s" and "fst (guard s k v t)" and "fresh t t'"
  shows "mark (snd (guard s k v t)) t' k = Some v"
proof -
  obtain s' where s': "stale s k v t = (False, s')"
    using assms(2) by (cases "stale s k v t") (auto simp: guard_def split: if_splits)
  have "ok s'" "mark s' t k = mark s t k"
    using stale_ok [OF assms(1), of k v t] stale_mark [OF assms(1), of k v t k] s' by simp_all
  then show ?thesis
    using stale_iff [OF assms(1), of k v t] keep_mark [of s' t k v t'] assms(3) s' by (simp add: guard_def)
qed

text \<open>What was accepted is not accepted again while it is fresh, nor is anything older.\<close>

lemma replay_rejected:
  assumes "ok s" and "fst (guard s k v t)" and "fresh t t'" and "\<not> newer w v"
  shows "\<not> fst (guard (snd (guard s k v t)) k w t')"
  using stale_iff [OF guard_ok [OF assms(1)], of k v t k w t'] guard_mark [OF assms(1-3)] assms(4)
  by (auto simp: guard_def split: prod.splits)

lemma guard_accepts:
  assumes "ok s" and "fst (guard s k v t)" and "fresh t t'" and "newer w v"
  shows "fst (guard (snd (guard s k v t)) k w t')"
  using stale_iff [OF guard_ok [OF assms(1)], of k v t k w t'] guard_mark [OF assms(1-3)] assms(4)
  by (auto simp: guard_def split: prod.splits)

lemma newer_irrefl: "\<not> newer v v"
  using newer_asym by blast

end

end
