(* ===== verification/Move_Protocol.thy ===== *)
theory Move_Protocol
  imports Proxy_Prelude
begin

text \<open>
  \<open>move_protocol.h\<close>: the 80-byte \<open>UPM1\<close> transaction request, the 96-byte \<open>UPR1\<close> reply, the
  24-byte \<open>UPQ1\<close> capability query and the 80-byte \<open>UPI1\<close> answer. The signed fields are \<open>int\<close>
  and travel as two's complement words.
\<close>

datatype move_operation = MO_Execute | MO_Continue | MO_Cancel | MO_Query

datatype move_status = MS_Accepted | MS_Active | MS_Completed | MS_Busy | MS_QueueFull | MS_Invalid
  | MS_NotReady | MS_Stale | MS_ButtonActive | MS_Interrupted | MS_Cancelled
  | MS_Timeout | MS_WriterFailed | MS_EndpointChanged | MS_Range

datatype stage = St_Idle | St_Out | St_Settle | St_Waiting | St_Press | St_Hold | St_Release
  | St_Delay | St_Return | St_Done

definition request_size :: nat where
  "request_size = 80"

definition ack_size :: nat where
  "ack_size = 96"

definition query_size :: nat where
  "query_size = 24"

definition capability_size :: nat where
  "capability_size = 80"

lemmas move_sizes = request_size_def ack_size_def query_size_def capability_size_def

fun mop_code :: "move_operation \<Rightarrow> u8" where
  "mop_code MO_Execute = 1"
| "mop_code MO_Continue = 2"
| "mop_code MO_Cancel = 3"
| "mop_code MO_Query = 4"

definition mop_of :: "u8 \<Rightarrow> move_operation option" where
  "mop_of b =
    (if b = 1 then Some MO_Execute
     else if b = 2 then Some MO_Continue
     else if b = 3 then Some MO_Cancel
     else if b = 4 then Some MO_Query
     else None)"

fun mstatus_code :: "move_status \<Rightarrow> u8" where
  "mstatus_code MS_Accepted = 1"
| "mstatus_code MS_Active = 2"
| "mstatus_code MS_Completed = 3"
| "mstatus_code MS_Busy = 4"
| "mstatus_code MS_QueueFull = 5"
| "mstatus_code MS_Invalid = 6"
| "mstatus_code MS_NotReady = 7"
| "mstatus_code MS_Stale = 8"
| "mstatus_code MS_ButtonActive = 9"
| "mstatus_code MS_Interrupted = 10"
| "mstatus_code MS_Cancelled = 11"
| "mstatus_code MS_Timeout = 12"
| "mstatus_code MS_WriterFailed = 13"
| "mstatus_code MS_EndpointChanged = 14"
| "mstatus_code MS_Range = 15"

definition mstatus_of :: "u8 \<Rightarrow> move_status option" where
  "mstatus_of b =
    (if b = 1 then Some MS_Accepted
     else if b = 2 then Some MS_Active
     else if b = 3 then Some MS_Completed
     else if b = 4 then Some MS_Busy
     else if b = 5 then Some MS_QueueFull
     else if b = 6 then Some MS_Invalid
     else if b = 7 then Some MS_NotReady
     else if b = 8 then Some MS_Stale
     else if b = 9 then Some MS_ButtonActive
     else if b = 10 then Some MS_Interrupted
     else if b = 11 then Some MS_Cancelled
     else if b = 12 then Some MS_Timeout
     else if b = 13 then Some MS_WriterFailed
     else if b = 14 then Some MS_EndpointChanged
     else if b = 15 then Some MS_Range
     else None)"

fun stage_code :: "stage \<Rightarrow> u8" where
  "stage_code St_Idle = 0"
| "stage_code St_Out = 1"
| "stage_code St_Settle = 2"
| "stage_code St_Waiting = 3"
| "stage_code St_Press = 4"
| "stage_code St_Hold = 5"
| "stage_code St_Release = 6"
| "stage_code St_Delay = 7"
| "stage_code St_Return = 8"
| "stage_code St_Done = 9"

definition stage_of :: "u8 \<Rightarrow> stage option" where
  "stage_of b =
    (if b = 0 then Some St_Idle
     else if b = 1 then Some St_Out
     else if b = 2 then Some St_Settle
     else if b = 3 then Some St_Waiting
     else if b = 4 then Some St_Press
     else if b = 5 then Some St_Hold
     else if b = 6 then Some St_Release
     else if b = 7 then Some St_Delay
     else if b = 8 then Some St_Return
     else if b = 9 then Some St_Done
     else None)"

definition terminal :: "move_status \<Rightarrow> bool" where
  "terminal s \<longleftrightarrow> s \<noteq> MS_Accepted \<and> s \<noteq> MS_Active"

definition u32_at :: "bytes \<Rightarrow> nat \<Rightarrow> u32" where
  "u32_at p k = push_bit 24 (ucast (p ! k)) OR push_bit 16 (ucast (p ! (k + 1)))
     OR push_bit 8 (ucast (p ! (k + 2))) OR ucast (p ! (k + 3))"

definition u64_at :: "bytes \<Rightarrow> nat \<Rightarrow> u64" where
  "u64_at p k = push_bit 32 (ucast (u32_at p k)) OR ucast (u32_at p (k + 4))"

definition i32_at :: "bytes \<Rightarrow> nat \<Rightarrow> int" where
  "i32_at p k = (let n = u32_at p k
     in if n \<le> 0x7fffffff then uint n else uint n - 0x100000000)"

fun zero :: "bytes \<Rightarrow> nat \<Rightarrow> nat \<Rightarrow> bool" where
  "zero p k 0 = True"
| "zero p k (Suc n) = (p ! k = 0 \<and> zero p (Suc k) n)"

record move_request =
  mr_operation :: move_operation
  mr_flags :: u8
  mr_button :: u8
  mr_session :: u64
  mr_command :: u64
  mr_epoch :: u64
  mr_generation :: u64
  mr_dx :: int
  mr_dy :: int
  mr_settle_us :: u32
  mr_press_us :: u32
  mr_return_us :: u32
  mr_budget_us :: u32
  mr_wait_us :: u32

record move_ack =
  ma_status :: move_status
  ma_stage :: stage
  ma_flags :: u8
  ma_session :: u64
  ma_command :: u64
  ma_epoch :: u64
  ma_generation :: u64
  ma_written_ns :: u64
  ma_out_x :: int
  ma_out_y :: int
  ma_return_x :: int
  ma_return_y :: int
  ma_residual_x :: int
  ma_residual_y :: int

record capabilities =
  mc_ready :: bool
  mc_buttons :: u8
  mc_session :: u64
  mc_token :: u64
  mc_epoch :: u64
  mc_generation :: u64
  mc_layout :: u64
  mc_poll_us :: u32
  mc_max_segments :: u32
  mc_xmin :: int
  mc_xmax :: int
  mc_ymin :: int
  mc_ymax :: int

definition move_request_packet :: "move_request \<Rightarrow> bytes" where
  "move_request_packet r =
    (let p = blit (replicate request_size 0) 0 (ascii ''UPM1'');
         p = p[4 := 1, 5 := mop_code (mr_operation r), 6 := mr_flags r, 7 := mr_button r];
         p = put64 p 8 (mr_session r);
         p = put64 p 16 (mr_command r);
         p = put64 p 24 (mr_epoch r);
         p = put64 p 32 (mr_generation r);
         p = put32 p 40 (word_of_int (mr_dx r));
         p = put32 p 44 (word_of_int (mr_dy r));
         p = put32 p 48 (mr_settle_us r);
         p = put32 p 52 (mr_press_us r);
         p = put32 p 56 (mr_return_us r);
         p = put32 p 60 (mr_budget_us r)
     in put32 p 64 (mr_wait_us r))"

definition move_parse :: "bytes \<Rightarrow> move_request option" where
  "move_parse p =
    (if length p \<noteq> request_size \<or> \<not> has_magic p ''UPM1'' \<or> p ! 4 \<noteq> 1
        \<or> (p ! 6 AND NOT 1) \<noteq> 0 \<or> p ! 7 > 8 \<or> \<not> zero p 68 12 then None
     else case mop_of (p ! 5) of
       None \<Rightarrow> None
     | Some op \<Rightarrow>
         (let r = \<lparr>mr_operation = op, mr_flags = p ! 6, mr_button = p ! 7,
                   mr_session = u64_at p 8, mr_command = u64_at p 16, mr_epoch = u64_at p 24,
                   mr_generation = u64_at p 32, mr_dx = i32_at p 40, mr_dy = i32_at p 44,
                   mr_settle_us = u32_at p 48, mr_press_us = u32_at p 52,
                   mr_return_us = u32_at p 56, mr_budget_us = u32_at p 60,
                   mr_wait_us = u32_at p 64\<rparr>
          in if mr_session r \<noteq> 0 \<and> mr_command r \<noteq> 0 \<and> mr_epoch r \<noteq> 0 \<and> mr_generation r \<noteq> 0
                \<and> mr_dx r \<ge> -32767 \<and> mr_dx r \<le> 32767 \<and> mr_dy r \<ge> -32767 \<and> mr_dy r \<le> 32767
                \<and> mr_settle_us r \<le> 1000000 \<and> mr_press_us r \<le> 1000000
                \<and> mr_return_us r \<le> 1000000 \<and> mr_budget_us r \<ge> 1000
                \<and> mr_budget_us r \<le> 5000000 \<and> mr_wait_us r \<le> 2000000
                \<and> ((mr_flags r AND 1) = 0 \<or> mr_wait_us r > 0)
             then Some r else None))"

definition same_move :: "move_request \<Rightarrow> move_request \<Rightarrow> bool" where
  "same_move a b \<longleftrightarrow> move_request_packet (a\<lparr>mr_operation := MO_Execute\<rparr>)
     = move_request_packet (b\<lparr>mr_operation := MO_Execute\<rparr>)"

definition move_ack_packet :: "move_ack \<Rightarrow> bytes" where
  "move_ack_packet a =
    (let p = blit (replicate ack_size 0) 0 (ascii ''UPR1'');
         p = p[4 := 1, 5 := mstatus_code (ma_status a), 6 := stage_code (ma_stage a),
               7 := ma_flags a];
         p = put64 p 8 (ma_session a);
         p = put64 p 16 (ma_command a);
         p = put64 p 24 (ma_epoch a);
         p = put64 p 32 (ma_generation a);
         p = put32 p 40 (word_of_int (ma_out_x a));
         p = put32 p 44 (word_of_int (ma_out_y a));
         p = put32 p 48 (word_of_int (ma_return_x a));
         p = put32 p 52 (word_of_int (ma_return_y a));
         p = put32 p 56 (word_of_int (ma_residual_x a));
         p = put32 p 60 (word_of_int (ma_residual_y a))
     in put64 p 64 (ma_written_ns a))"

definition move_parse_ack :: "bytes \<Rightarrow> move_ack option" where
  "move_parse_ack p =
    (if length p \<noteq> ack_size \<or> \<not> has_magic p ''UPR1'' \<or> p ! 4 \<noteq> 1
        \<or> (p ! 7 AND NOT 7) \<noteq> 0 \<or> \<not> zero p 72 24 then None
     else case (mstatus_of (p ! 5), stage_of (p ! 6)) of
       (Some st, Some sg) \<Rightarrow>
         (let a = \<lparr>ma_status = st, ma_stage = sg, ma_flags = p ! 7, ma_session = u64_at p 8,
                   ma_command = u64_at p 16, ma_epoch = u64_at p 24,
                   ma_generation = u64_at p 32, ma_written_ns = u64_at p 64,
                   ma_out_x = i32_at p 40, ma_out_y = i32_at p 44, ma_return_x = i32_at p 48,
                   ma_return_y = i32_at p 52, ma_residual_x = i32_at p 56,
                   ma_residual_y = i32_at p 60\<rparr>
          in if ma_session a \<noteq> 0 \<and> ma_command a \<noteq> 0 \<and> ma_epoch a \<noteq> 0 then Some a else None)
     | _ \<Rightarrow> None)"

definition query_packet :: "u64 \<times> u64 \<Rightarrow> bytes" where
  "query_packet = (\<lambda>(session, token).
    (let p = blit (replicate query_size 0) 0 (ascii ''UPQ1'');
         p = p[4 := 1];
         p = put64 p 8 session
     in put64 p 16 token))"

definition parse_query :: "bytes \<Rightarrow> (u64 \<times> u64) option" where
  "parse_query p =
    (if length p \<noteq> query_size \<or> \<not> has_magic p ''UPQ1'' \<or> p ! 4 \<noteq> 1 \<or> \<not> zero p 5 3 then None
     else let session = u64_at p 8; token = u64_at p 16
          in if session \<noteq> 0 \<and> token \<noteq> 0 then Some (session, token) else None)"

definition capabilities_packet :: "capabilities \<Rightarrow> bytes" where
  "capabilities_packet c =
    (let p = blit (replicate capability_size 0) 0 (ascii ''UPI1'');
         p = p[4 := 1, 5 := of_bool (mc_ready c), 6 := mc_buttons c];
         p = put64 p 8 (mc_session c);
         p = put64 p 16 (mc_token c);
         p = put64 p 24 (mc_epoch c);
         p = put64 p 32 (mc_generation c);
         p = put32 p 40 (mc_poll_us c);
         p = put32 p 44 (word_of_int (mc_xmin c));
         p = put32 p 48 (word_of_int (mc_xmax c));
         p = put32 p 52 (word_of_int (mc_ymin c));
         p = put32 p 56 (word_of_int (mc_ymax c));
         p = put64 p 64 (mc_layout c)
     in put32 p 72 (mc_max_segments c))"

definition parse_capabilities :: "bytes \<Rightarrow> capabilities option" where
  "parse_capabilities p =
    (if length p \<noteq> capability_size \<or> \<not> has_magic p ''UPI1'' \<or> p ! 4 \<noteq> 1 \<or> p ! 5 > 1
        \<or> p ! 7 \<noteq> 0 \<or> \<not> zero p 60 4 \<or> \<not> zero p 76 4 then None
     else let c = \<lparr>mc_ready = (p ! 5 \<noteq> 0), mc_buttons = p ! 6, mc_session = u64_at p 8,
                    mc_token = u64_at p 16, mc_epoch = u64_at p 24,
                    mc_generation = u64_at p 32, mc_layout = u64_at p 64,
                    mc_poll_us = u32_at p 40, mc_max_segments = u32_at p 72,
                    mc_xmin = i32_at p 44, mc_xmax = i32_at p 48, mc_ymin = i32_at p 52,
                    mc_ymax = i32_at p 56\<rparr>
          in if mc_session c \<noteq> 0 \<and> mc_token c \<noteq> 0 \<and> mc_epoch c \<noteq> 0
                \<and> (\<not> mc_ready c \<or> (mc_generation c \<noteq> 0 \<and> mc_layout c \<noteq> 0 \<and> mc_poll_us c \<noteq> 0
                      \<and> mc_xmin c < 0 \<and> mc_xmax c > 0 \<and> mc_ymin c < 0 \<and> mc_ymax c > 0
                      \<and> mc_xmin c \<ge> -32768 \<and> mc_xmax c \<le> 32767 \<and> mc_ymin c \<ge> -32768
                      \<and> mc_ymax c \<le> 32767 \<and> mc_max_segments c = 32))
             then Some c else None)"

fun status_name :: "move_status \<Rightarrow> string" where
  "status_name MS_Accepted = ''accepted''"
| "status_name MS_Active = ''active''"
| "status_name MS_Completed = ''completed''"
| "status_name MS_Busy = ''busy''"
| "status_name MS_QueueFull = ''queue_full''"
| "status_name MS_Invalid = ''invalid''"
| "status_name MS_NotReady = ''not_ready''"
| "status_name MS_Stale = ''stale''"
| "status_name MS_ButtonActive = ''button_active''"
| "status_name MS_Interrupted = ''interrupted''"
| "status_name MS_Cancelled = ''cancelled''"
| "status_name MS_Timeout = ''timeout''"
| "status_name MS_WriterFailed = ''writer_failed''"
| "status_name MS_EndpointChanged = ''endpoint_changed''"
| "status_name MS_Range = ''range''"

subsection \<open>The accessors are the shared ones\<close>

lemma u32_at_eq [simp]: "u32_at = get32"
  by (intro ext) (simp add: u32_at_def get32_def)

lemma u64_at_eq [simp]: "u64_at = get64"
  by (intro ext) (simp add: u64_at_def get64_def)

lemma signed_halves:
  fixes u :: int
  assumes "0 \<le> u" and "u < 4294967296"
  shows "(u + 2147483648) mod 4294967296 - 2147483648
    = (if u \<le> 2147483647 then u else u - 4294967296)"
proof (cases "u \<le> 2147483647")
  case True
  with assms show ?thesis by simp
next
  case False
  have "(u + 2147483648) mod 4294967296 = (u - 2147483648 + 4294967296) mod 4294967296"
    by (simp add: add.commute)
  also have "\<dots> = u - 2147483648"
    unfolding mod_add_self2 using assms False by simp
  finally show ?thesis using False by simp
qed

lemma i32_at_eq [simp]: "i32_at p k = sint (get32 p k)"
proof -
  have "0 \<le> uint (get32 p k)" "uint (get32 p k) < 4294967296"
    using uint_lt2p [of "get32 p k"] by simp_all
  moreover have "sint (get32 p k) = (uint (get32 p k) + 2147483648) mod 4294967296 - 2147483648"
    using int_word_sint [of "uint (get32 p k)", where 'a = 32] by simp
  ultimately show ?thesis
    by (simp add: i32_at_def Let_def word_le_def signed_halves)
qed

lemma zero_eq [simp]: "zero p k n = zero_run p k n"
  by (induction p k n rule: zero.induct) (auto simp: zero_run_def less_Suc_eq_0_disj)

lemma zero_runI: "(\<And>i. k \<le> i \<Longrightarrow> i < k + n \<Longrightarrow> p ! i = 0) \<Longrightarrow> zero_run p k n"
  by (simp add: zero_run_def)

lemma mop_of_code [simp]: "mop_of (mop_code x) = Some x"
  by (cases x) (simp_all add: mop_of_def)

lemma mop_of_Some: "mop_of b = Some x \<longleftrightarrow> b = mop_code x"
  by (cases x) (auto simp: mop_of_def)

lemma mstatus_of_code [simp]: "mstatus_of (mstatus_code x) = Some x"
  by (cases x) (simp_all add: mstatus_of_def)

lemma mstatus_of_Some: "mstatus_of b = Some x \<Longrightarrow> b = mstatus_code x"
  by (auto simp: mstatus_of_def split: if_splits)

lemma stage_of_code [simp]: "stage_of (stage_code x) = Some x"
  by (cases x) (simp_all add: stage_of_def)

lemma stage_of_Some: "stage_of b = Some x \<Longrightarrow> b = stage_code x"
  by (auto simp: stage_of_def split: if_splits)

subsection \<open>What the formats admit\<close>

definition int32 :: "int \<Rightarrow> bool" where
  "int32 n \<longleftrightarrow> -2147483648 \<le> n \<and> n < 2147483648"

lemma int32_roundtrip [simp]: "int32 n \<Longrightarrow> sint (word_of_int n :: u32) = n"
  by (simp add: int32_def)

lemma int32_sint [simp]: "int32 (sint (w :: u32))"
  using sint_ge [of w] sint_lt [of w] by (simp add: int32_def)

definition move_request_wf :: "move_request \<Rightarrow> bool" where
  "move_request_wf r \<longleftrightarrow> mr_session r \<noteq> 0 \<and> mr_command r \<noteq> 0 \<and> mr_epoch r \<noteq> 0
     \<and> mr_generation r \<noteq> 0 \<and> (mr_flags r AND NOT 1) = 0 \<and> mr_button r \<le> 8
     \<and> \<bar>mr_dx r\<bar> \<le> 32767 \<and> \<bar>mr_dy r\<bar> \<le> 32767
     \<and> mr_settle_us r \<le> 1000000 \<and> mr_press_us r \<le> 1000000 \<and> mr_return_us r \<le> 1000000
     \<and> 1000 \<le> mr_budget_us r \<and> mr_budget_us r \<le> 5000000 \<and> mr_wait_us r \<le> 2000000
     \<and> ((mr_flags r AND 1) \<noteq> 0 \<longrightarrow> 0 < mr_wait_us r)"

definition move_ack_wf :: "move_ack \<Rightarrow> bool" where
  "move_ack_wf a \<longleftrightarrow> ma_session a \<noteq> 0 \<and> ma_command a \<noteq> 0 \<and> ma_epoch a \<noteq> 0
     \<and> (ma_flags a AND NOT 7) = 0 \<and> int32 (ma_out_x a) \<and> int32 (ma_out_y a)
     \<and> int32 (ma_return_x a) \<and> int32 (ma_return_y a) \<and> int32 (ma_residual_x a)
     \<and> int32 (ma_residual_y a)"

definition capabilities_wf :: "capabilities \<Rightarrow> bool" where
  "capabilities_wf c \<longleftrightarrow> mc_session c \<noteq> 0 \<and> mc_token c \<noteq> 0 \<and> mc_epoch c \<noteq> 0
     \<and> int32 (mc_xmin c) \<and> int32 (mc_xmax c) \<and> int32 (mc_ymin c) \<and> int32 (mc_ymax c)
     \<and> (mc_ready c \<longrightarrow> mc_generation c \<noteq> 0 \<and> mc_layout c \<noteq> 0 \<and> mc_poll_us c \<noteq> 0
          \<and> -32768 \<le> mc_xmin c \<and> mc_xmin c < 0 \<and> 0 < mc_xmax c \<and> mc_xmax c \<le> 32767
          \<and> -32768 \<le> mc_ymin c \<and> mc_ymin c < 0 \<and> 0 < mc_ymax c \<and> mc_ymax c \<le> 32767
          \<and> mc_max_segments c = 32)"

definition query_wf :: "u64 \<times> u64 \<Rightarrow> bool" where
  "query_wf = (\<lambda>(session, token). session \<noteq> 0 \<and> token \<noteq> 0)"

lemmas move_wfs = move_request_wf_def move_ack_wf_def capabilities_wf_def query_wf_def

subsection \<open>Round trips\<close>

lemma length_move_packets [simp]:
  "length (move_request_packet r) = request_size"
  "length (move_ack_packet a) = ack_size"
  "length (query_packet q) = query_size"
  "length (capabilities_packet c) = capability_size"
  by (simp_all add: move_request_packet_def move_ack_packet_def query_packet_def
      capabilities_packet_def move_sizes split: prod.splits)

lemma abs_bounds: "\<bar>n\<bar> \<le> 32767 \<longleftrightarrow> - 32767 \<le> n \<and> n \<le> (32767 :: int)"
  by auto

lemma move_request_roundtrip:
  "move_request_wf r \<Longrightarrow> move_parse (move_request_packet r) = Some r"
  by (auto simp: move_parse_def move_request_packet_def move_request_wf_def move_sizes
      wire_simps int32_def abs_bounds not_less word_gt_0 intro!: zero_runI)

lemma move_ack_roundtrip: "move_ack_wf a \<Longrightarrow> move_parse_ack (move_ack_packet a) = Some a"
  by (auto simp: move_parse_ack_def move_ack_packet_def move_ack_wf_def move_sizes wire_simps
      intro!: zero_runI)

lemma query_roundtrip: "query_wf q \<Longrightarrow> parse_query (query_packet q) = Some q"
  by (auto simp: parse_query_def query_packet_def query_wf_def move_sizes wire_simps
      intro!: zero_runI split: prod.splits)

lemma capabilities_roundtrip:
  "capabilities_wf c \<Longrightarrow> parse_capabilities (capabilities_packet c) = Some c"
  by (auto simp: parse_capabilities_def capabilities_packet_def capabilities_wf_def move_sizes
      wire_simps not_less intro!: zero_runI)

subsection \<open>Accepted packets are admitted and canonical\<close>

lemma move_parse_wf: "move_parse p = Some r \<Longrightarrow> move_request_wf r"
  by (auto simp: move_parse_def move_request_wf_def Let_def not_less word_gt_0
      split: if_splits option.splits)

lemma move_parse_ack_wf: "move_parse_ack p = Some a \<Longrightarrow> move_ack_wf a"
  by (auto simp: move_parse_ack_def move_ack_wf_def Let_def split: if_splits option.splits)

lemma parse_query_wf: "parse_query p = Some q \<Longrightarrow> query_wf q"
  by (auto simp: parse_query_def query_wf_def Let_def split: if_splits)

lemma parse_capabilities_wf: "parse_capabilities p = Some c \<Longrightarrow> capabilities_wf c"
  by (auto simp: parse_capabilities_def capabilities_wf_def Let_def split: if_splits)

lemma u8_le_1: "b \<le> (1 :: u8) \<Longrightarrow> b \<noteq> 0 \<Longrightarrow> b = 1"
  by unat_arith

lemma move_parse_canonical: "move_parse p = Some r \<Longrightarrow> move_request_packet r = p"
proof -
  assume parse: "move_parse p = Some r"
  then have len: "length p = 80" and magic: "has_magic p ''UPM1''" and v: "p ! 4 = 1"
    and z: "zero_run p 68 12" and op: "mop_code (mr_operation r) = p ! 5"
    and r: "mr_flags r = p ! 6" "mr_button r = p ! 7" "mr_session r = get64 p 8"
      "mr_command r = get64 p 16" "mr_epoch r = get64 p 24" "mr_generation r = get64 p 32"
      "mr_dx r = sint (get32 p 40)" "mr_dy r = sint (get32 p 44)" "mr_settle_us r = get32 p 48"
      "mr_press_us r = get32 p 52" "mr_return_us r = get32 p 56" "mr_budget_us r = get32 p 60"
      "mr_wait_us r = get32 p 64"
    by (auto simp: move_parse_def Let_def move_sizes mop_of_Some split: if_splits option.splits)
  show ?thesis
  proof (rule nth_equalityI)
    fix i assume "i < length (move_request_packet r)"
    then have i: "i < 80" by (simp add: move_sizes)
    then show "move_request_packet r ! i = p ! i"
      using zero_runD [OF z, of i] has_magicD [OF magic, of i] v
      by (auto simp: move_request_packet_def move_sizes op r len nth_copy)
  qed (simp add: move_sizes len)
qed

lemma move_parse_ack_canonical: "move_parse_ack p = Some a \<Longrightarrow> move_ack_packet a = p"
proof -
  assume parse: "move_parse_ack p = Some a"
  then have len: "length p = 96" and magic: "has_magic p ''UPR1''" and v: "p ! 4 = 1"
    and z: "zero_run p 72 24"
    and st: "mstatus_code (ma_status a) = p ! 5" "stage_code (ma_stage a) = p ! 6"
    and a: "ma_flags a = p ! 7" "ma_session a = get64 p 8" "ma_command a = get64 p 16"
      "ma_epoch a = get64 p 24" "ma_generation a = get64 p 32" "ma_written_ns a = get64 p 64"
      "ma_out_x a = sint (get32 p 40)" "ma_out_y a = sint (get32 p 44)"
      "ma_return_x a = sint (get32 p 48)" "ma_return_y a = sint (get32 p 52)"
      "ma_residual_x a = sint (get32 p 56)" "ma_residual_y a = sint (get32 p 60)"
    by (auto simp: move_parse_ack_def Let_def move_sizes dest: mstatus_of_Some stage_of_Some
        split: if_splits option.splits)
  show ?thesis
  proof (rule nth_equalityI)
    fix i assume "i < length (move_ack_packet a)"
    then have i: "i < 96" by (simp add: move_sizes)
    then show "move_ack_packet a ! i = p ! i"
      using zero_runD [OF z, of i] has_magicD [OF magic, of i] v
      by (auto simp: move_ack_packet_def move_sizes st a len nth_copy)
  qed (simp add: move_sizes len)
qed

lemma parse_query_canonical: "parse_query p = Some q \<Longrightarrow> query_packet q = p"
proof -
  assume parse: "parse_query p = Some q"
  then have len: "length p = 24" and magic: "has_magic p ''UPQ1''" and v: "p ! 4 = 1"
    and z: "zero_run p 5 3" and q: "q = (get64 p 8, get64 p 16)"
    by (auto simp: parse_query_def Let_def move_sizes split: if_splits)
  show ?thesis
  proof (rule nth_equalityI)
    fix i assume "i < length (query_packet q)"
    then have i: "i < 24" by (simp add: move_sizes)
    then show "query_packet q ! i = p ! i"
      using zero_runD [OF z, of i] has_magicD [OF magic, of i] v
      by (auto simp: query_packet_def move_sizes q len nth_copy)
  qed (simp add: move_sizes len)
qed

lemma parse_capabilities_canonical: "parse_capabilities p = Some c \<Longrightarrow> capabilities_packet c = p"
proof -
  assume parse: "parse_capabilities p = Some c"
  then have len: "length p = 80" and magic: "has_magic p ''UPI1''" and v: "p ! 4 = 1"
    and z: "zero_run p 60 4" "zero_run p 76 4" "p ! 7 = 0"
    and b: "of_bool (mc_ready c) = p ! 5"
    and c: "mc_buttons c = p ! 6" "mc_session c = get64 p 8" "mc_token c = get64 p 16"
      "mc_epoch c = get64 p 24" "mc_generation c = get64 p 32" "mc_layout c = get64 p 64"
      "mc_poll_us c = get32 p 40" "mc_max_segments c = get32 p 72"
      "mc_xmin c = sint (get32 p 44)" "mc_xmax c = sint (get32 p 48)"
      "mc_ymin c = sint (get32 p 52)" "mc_ymax c = sint (get32 p 56)"
    by (auto simp: parse_capabilities_def Let_def move_sizes not_less dest!: u8_le_1
        split: if_splits)
  show ?thesis
  proof (rule nth_equalityI)
    fix i assume "i < length (capabilities_packet c)"
    then have i: "i < 80" by (simp add: move_sizes)
    have "6 < i \<Longrightarrow> i < 8 \<Longrightarrow> p ! i = 0" using z(3) by (cases "i = 7") auto
    with i show "capabilities_packet c ! i = p ! i"
      using zero_runD [OF z(1), of i] zero_runD [OF z(2), of i] has_magicD [OF magic, of i] v
      by (cases "i < 64"; cases "i < 60"; cases "i < 76";
          simp add: capabilities_packet_def move_sizes b c len nth_copy)
  qed (simp add: move_sizes len)
qed

subsection \<open>All four formats meet the codec interface\<close>

interpretation upm1: codec move_request_packet move_parse move_request_wf request_size
  by unfold_locales (auto simp: move_request_roundtrip move_parse_canonical move_parse_wf)

interpretation upr1: codec move_ack_packet move_parse_ack move_ack_wf ack_size
  by unfold_locales (auto simp: move_ack_roundtrip move_parse_ack_canonical move_parse_ack_wf)

interpretation upq1: codec query_packet parse_query query_wf query_size
  by unfold_locales (auto simp: query_roundtrip parse_query_canonical parse_query_wf)

interpretation upi1: codec capabilities_packet parse_capabilities capabilities_wf capability_size
  by unfold_locales
    (auto simp: capabilities_roundtrip parse_capabilities_canonical parse_capabilities_wf)

text \<open>Two requests are the same transaction iff they agree on every field but the operation.\<close>

lemma same_move_iff:
  assumes "move_request_wf a" and "move_request_wf b"
  shows "same_move a b \<longleftrightarrow> a\<lparr>mr_operation := MO_Execute\<rparr> = b\<lparr>mr_operation := MO_Execute\<rparr>"
  using assms unfolding same_move_def
  by (intro upm1.enc_inject) (simp_all add: move_request_wf_def)

end
