(* ===== verification/Mouse_Protocol.thy ===== *)
theory Mouse_Protocol
  imports Proxy_Prelude
begin

text \<open>
  \<open>mouse_protocol.h\<close>: bit fields of a HID report, the report-descriptor parser that finds
  them, the profile of one mouse report, and the splitting of a relative command into
  reports. Offsets and widths are \<open>nat\<close> (the parser only ever builds non-negative ones);
  the values and limits of a field are \<open>int\<close>.
\<close>

record mouse_command =
  cmd_x :: int
  cmd_y :: int
  cmd_wheel :: int
  cmd_pan :: int
  cmd_buttons :: u8

definition no_command :: mouse_command where
  "no_command = \<lparr>cmd_x = 0, cmd_y = 0, cmd_wheel = 0, cmd_pan = 0, cmd_buttons = 0\<rparr>"

subsection \<open>Fields\<close>

record hid_field =
  hf_offset :: nat
  hf_bits :: nat
  hf_min :: int
  hf_max :: int

definition no_field :: hid_field where
  "no_field = \<lparr>hf_offset = 0, hf_bits = 0, hf_min = 0, hf_max = 0\<rparr>"

text \<open>One step of the reading loop: \<open>v |= uint32_t((p[k/8] >> (k%8)) & 1) << i\<close>.\<close>

definition read_bit :: "bytes \<Rightarrow> nat \<Rightarrow> nat \<Rightarrow> u32 \<Rightarrow> u32" where
  "read_bit p off i v =
     v OR push_bit i (ucast (drop_bit ((off + i) mod 8) (p ! ((off + i) div 8)) AND 1))"

definition hid_get :: "hid_field \<Rightarrow> bytes \<Rightarrow> int" where
  "hid_get f p =
    (if hf_bits f = 0 then 0
     else let v = fold (read_bit p (hf_offset f)) [0..<hf_bits f] 0
          in if hf_min f < 0 \<and> (v AND push_bit (hf_bits f - 1) 1) \<noteq> 0
             then sint v - sint (push_bit (hf_bits f) 1 :: u32)
             else sint v)"

definition write_bit :: "nat \<Rightarrow> int \<Rightarrow> nat \<Rightarrow> bytes \<Rightarrow> bytes" where
  "write_bit off value i p =
    (let k = (off + i) div 8; msk = push_bit ((off + i) mod 8) 1 :: u8
     in p[k := (p ! k AND NOT msk)
            OR (if (drop_bit i (word_of_int value :: u32) AND 1) \<noteq> 0 then msk else 0)])"

definition hid_put :: "hid_field \<Rightarrow> bytes \<Rightarrow> int \<Rightarrow> bool \<times> bytes" where
  "hid_put f p value =
    (if hf_bits f = 0 then (value = 0, p)
     else if value < hf_min f \<or> value > hf_max f then (False, p)
     else (True, fold (write_bit (hf_offset f) value) [0..<hf_bits f] p))"

subsection \<open>Profiles\<close>

record mouse_profile =
  mp_id :: nat
  mp_size :: nat
  mp_x :: hid_field
  mp_y :: hid_field
  mp_wheel :: hid_field
  mp_pan :: hid_field
  mp_buttons :: "(nat \<times> hid_field) list"
  mp_relative :: "hid_field list"

definition no_profile :: mouse_profile where
  "no_profile = \<lparr>mp_id = 0, mp_size = 0, mp_x = no_field, mp_y = no_field,
     mp_wheel = no_field, mp_pan = no_field, mp_buttons = [], mp_relative = []\<rparr>"

definition matches :: "mouse_profile \<Rightarrow> bytes \<Rightarrow> nat \<Rightarrow> bool" where
  "matches m p n \<longleftrightarrow> n = mp_size m \<and> (mp_id m = 0 \<or> unat (p ! 0) = mp_id m)"

fun mask_step :: "bytes \<Rightarrow> nat \<times> hid_field \<Rightarrow> u8 \<Rightarrow> u8" where
  "mask_step p (b, f) v = (if hid_get f p \<noteq> 0 then v OR push_bit (b - 1) 1 else v)"

definition button_mask :: "mouse_profile \<Rightarrow> bytes \<Rightarrow> u8" where
  "button_mask m p = fold (mask_step p) (mp_buttons m) 0"

fun put_button :: "u8 \<Rightarrow> nat \<times> hid_field \<Rightarrow> bytes \<Rightarrow> bytes" where
  "put_button msk (b, f) q = snd (hid_put f q (uint (drop_bit (b - 1) msk AND 1)))"

definition put_buttons :: "mouse_profile \<Rightarrow> bytes \<Rightarrow> u8 \<Rightarrow> bytes" where
  "put_buttons m p msk = fold (put_button msk) (mp_buttons m) p"

definition clear_relative :: "mouse_profile \<Rightarrow> bytes \<Rightarrow> bytes" where
  "clear_relative m p = fold (\<lambda>f q. snd (hid_put f q 0)) (mp_relative m) p"

definition encode :: "mouse_profile \<Rightarrow> mouse_command \<Rightarrow> bytes \<Rightarrow> bool \<times> bytes" where
  "encode m c p =
    (let p = put_buttons m (clear_relative m p) (cmd_buttons c);
         (ok, p) = hid_put (mp_x m) p (cmd_x c)
     in if \<not> ok then (False, p) else let (ok, p) = hid_put (mp_y m) p (cmd_y c)
     in if \<not> ok then (False, p) else let (ok, p) = hid_put (mp_wheel m) p (cmd_wheel c)
     in if \<not> ok then (False, p) else hid_put (mp_pan m) p (cmd_pan c))"

subsection \<open>The report-descriptor parser\<close>

record hid_global =
  g_page :: int
  g_size :: int
  g_count :: int
  g_id :: nat
  g_min :: int
  g_max :: int

text \<open>The locals of the parsing loop; the two stacks have their top at the head.\<close>

record parser =
  ps_global :: hid_global
  ps_stack :: "hid_global list"
  ps_collections :: "bool list"
  ps_profiles :: "(nat \<times> mouse_profile) list"
  ps_offsets :: "(nat \<times> nat) list"
  ps_shared :: "(nat \<times> bool) list"
  ps_usages :: "u32 list"
  ps_umin :: u32
  ps_umax :: u32
  ps_range :: bool

definition parser_init :: parser where
  "parser_init = \<lparr>ps_global = \<lparr>g_page = 0, g_size = 0, g_count = 0, g_id = 0, g_min = 0, g_max = 0\<rparr>,
     ps_stack = [], ps_collections = [], ps_profiles = [], ps_offsets = [], ps_shared = [],
     ps_usages = [], ps_umin = 0, ps_umax = 0, ps_range = False\<rparr>"

text \<open>The little-endian item data and its sign extension.\<close>

definition item_data :: "bytes \<Rightarrow> u32" where
  "item_data bs = fold (\<lambda>i v. v OR push_bit (8 * i) (ucast (bs ! i))) [0..<length bs] 0"

definition item_signed :: "nat \<Rightarrow> u32 \<Rightarrow> int" where
  "item_signed len v =
    (if len \<noteq> 0 \<and> len < 4 \<and> (v AND push_bit (len * 8 - 1) 1) \<noteq> 0
     then sint v - sint (push_bit (len * 8) 1 :: u32) else sint v)"

definition parse_global :: "parser \<Rightarrow> nat \<Rightarrow> u32 \<Rightarrow> int \<Rightarrow> parser option" where
  "parse_global st tag v sv =
    (let g = ps_global st in
     if tag = 0 then Some (st\<lparr>ps_global := g\<lparr>g_page := sint v\<rparr>\<rparr>)
     else if tag = 1 then Some (st\<lparr>ps_global := g\<lparr>g_min := sv\<rparr>\<rparr>)
     else if tag = 2 then Some (st\<lparr>ps_global := g\<lparr>g_max := (if g_min g < 0 then sv else sint v)\<rparr>\<rparr>)
     else if tag = 7 then Some (st\<lparr>ps_global := g\<lparr>g_size := sint v\<rparr>\<rparr>)
     else if tag = 8 then (if v = 0 \<or> v > 255 then None
                           else Some (st\<lparr>ps_global := g\<lparr>g_id := unat v\<rparr>\<rparr>))
     else if tag = 9 then Some (st\<lparr>ps_global := g\<lparr>g_count := sint v\<rparr>\<rparr>)
     else if tag = 10 then Some (st\<lparr>ps_stack := g # ps_stack st\<rparr>)
     else if tag = 11 then (case ps_stack st of [] \<Rightarrow> None
                            | g' # gs \<Rightarrow> Some (st\<lparr>ps_global := g', ps_stack := gs\<rparr>))
     else Some st)"

definition parse_local :: "parser \<Rightarrow> nat \<Rightarrow> nat \<Rightarrow> u32 \<Rightarrow> parser" where
  "parse_local st tag len v =
    (let u = (if len = 4 then v else push_bit 16 (word_of_int (g_page (ps_global st))) OR v)
     in if tag = 0 then st\<lparr>ps_usages := ps_usages st @ [u]\<rparr>
        else if tag = 1 then st\<lparr>ps_umin := u, ps_range := True\<rparr>
        else if tag = 2 then st\<lparr>ps_umax := u\<rparr>
        else st)"

definition field_usage :: "parser \<Rightarrow> nat \<Rightarrow> u32" where
  "field_usage st i =
    (if i < length (ps_usages st) then ps_usages st ! i
     else if ps_range st \<and> ps_umin st + of_nat i \<le> ps_umax st then ps_umin st + of_nat i else 0)"

text \<open>The body of the per-field loop of an Input item inside a mouse collection.\<close>

definition injectable :: "hid_global \<Rightarrow> u32 \<Rightarrow> bool \<Rightarrow> bool" where
  "injectable g v mouse \<longleftrightarrow> mouse \<and> (v AND 1) = 0 \<and> (v AND 2) \<noteq> 0 \<and> g_size g > 0 \<and> g_size g \<le> 16
     \<and> g_min g \<le> 0 \<and> g_max g \<ge> 0 \<and> g_min g < g_max g"

text \<open>
  The assignments by usage. The conditions of the source's six \<open>if\<close>s exclude each other
  (five usages and a page), so they are one chain.
\<close>

definition assign_usage :: "u32 \<Rightarrow> bool \<Rightarrow> bool \<Rightarrow> hid_field \<Rightarrow> mouse_profile \<Rightarrow> mouse_profile option" where
  "assign_usage u rel single f r =
    (if u = 0x10030 \<and> rel then (if hf_bits (mp_x r) \<noteq> 0 then None else Some (r\<lparr>mp_x := f\<rparr>))
     else if u = 0x10031 \<and> rel then (if hf_bits (mp_y r) \<noteq> 0 then None else Some (r\<lparr>mp_y := f\<rparr>))
     else if u = 0x10038 \<and> rel then Some (r\<lparr>mp_wheel := f\<rparr>)
     else if u = 0xc0238 \<and> rel then Some (r\<lparr>mp_pan := f\<rparr>)
     else if drop_bit 16 u = 9 \<and> (u AND 65535) \<ge> 1 \<and> (u AND 65535) \<le> 8 \<and> single
       then Some (r\<lparr>mp_buttons := smap_put (unat (u AND 65535)) f (mp_buttons r)\<rparr>)
     else Some r)"

definition input_field :: "parser \<Rightarrow> u32 \<Rightarrow> bool \<Rightarrow> nat \<Rightarrow> nat \<Rightarrow> mouse_profile \<Rightarrow> mouse_profile option" where
  "input_field st v mouse off i r =
    (let g = ps_global st; n = nat (g_size g); u = field_usage st i;
         f = \<lparr>hf_offset = off + i * n, hf_bits = n, hf_min = g_min g, hf_max = g_max g\<rparr>
     in if \<not> injectable g v mouse then Some r
        else let lower = (if g_min g < 0 then - (2 ^ (n - 1)) else 0);
                 upper = (if g_min g < 0 then 2 ^ (n - 1) - 1 else 2 ^ n - 1);
                 rel = (v AND 4) \<noteq> 0
        in if g_min g < lower \<or> g_max g > upper then None
           else assign_usage u rel (g_size g = 1) f
                  (if rel then r\<lparr>mp_relative := mp_relative r @ [f]\<rparr> else r))"

fun input_fields :: "parser \<Rightarrow> u32 \<Rightarrow> bool \<Rightarrow> nat \<Rightarrow> nat list \<Rightarrow> mouse_profile \<Rightarrow> mouse_profile option" where
  "input_fields st v mouse off [] r = Some r"
| "input_fields st v mouse off (i # is) r =
     (case input_field st v mouse off i r of None \<Rightarrow> None
      | Some r' \<Rightarrow> input_fields st v mouse off is r')"

definition parse_input :: "parser \<Rightarrow> u32 \<Rightarrow> parser option" where
  "parse_input st v =
    (let g = ps_global st in
     if g_size g < 0 \<or> g_size g > 32 \<or> g_count g < 0 \<or> g_count g > 4096 then None
     else let off = smap_at 0 (ps_offsets st) (g_id g);
              off = (if off = 0 \<and> g_id g \<noteq> 0 then 8 else off);
              total = nat (g_size g) * nat (g_count g)
     in if off + total > 32768 then None
     else let r = (smap_at no_profile (ps_profiles st) (g_id g))\<lparr>mp_id := g_id g\<rparr>;
              mouse = (case ps_collections st of [] \<Rightarrow> False | m # _ \<Rightarrow> m);
              shared = (if \<not> mouse \<and> (v AND 1) = 0 then smap_put (g_id g) True (ps_shared st)
                        else ps_shared st)
     in if mouse \<and> (v AND 1) = 0 \<and> (v AND 4) \<noteq> 0
           \<and> ((v AND 2) = 0 \<or> g_size g < 1 \<or> g_size g > 16 \<or> g_min g > 0 \<or> g_max g < 0
              \<or> g_min g \<ge> g_max g) then None
     else case input_fields st v mouse off [0..<nat (g_count g)] r of
       None \<Rightarrow> None
     | Some r \<Rightarrow>
         Some (st\<lparr>ps_shared := shared,
                  ps_offsets := smap_put (g_id g) (off + total) (ps_offsets st),
                  ps_profiles := smap_put (g_id g) (r\<lparr>mp_size := (off + total + 7) div 8\<rparr>)
                                   (ps_profiles st)\<rparr>))"

definition parse_main :: "parser \<Rightarrow> nat \<Rightarrow> u32 \<Rightarrow> parser option" where
  "parse_main st tag v =
    map_option (\<lambda>st. st\<lparr>ps_usages := [], ps_range := False, ps_umin := 0, ps_umax := 0\<rparr>)
     (if tag = 10 then
        (let mouse = (if v = 1 then ps_usages st \<noteq> [] \<and> hd (ps_usages st) = 0x10002
                      else case ps_collections st of [] \<Rightarrow> False | m # _ \<Rightarrow> m)
         in Some (st\<lparr>ps_collections := mouse # ps_collections st\<rparr>))
      else if tag = 12 then
        (case ps_collections st of [] \<Rightarrow> None | _ # cs \<Rightarrow> Some (st\<lparr>ps_collections := cs\<rparr>))
      else if tag = 8 then parse_input st v
      else Some st)"

definition parse_item :: "parser \<Rightarrow> u8 \<Rightarrow> bytes \<Rightarrow> parser option" where
  "parse_item st prefix data =
    (let len = length data; v = item_data data; sv = item_signed len v;
         ty = unat (drop_bit 2 prefix AND 3); tag = unat (drop_bit 4 prefix)
     in if ty = 1 then parse_global st tag v sv
        else if ty = 2 then Some (parse_local st tag len v)
        else if ty \<noteq> 0 then Some st
        else parse_main st tag v)"

fun parse_items :: "parser \<Rightarrow> bytes \<Rightarrow> parser option" where
  "parse_items st [] = Some st"
| "parse_items st (prefix # rest) =
    (if prefix = 0xfe then None
     else let len = (if prefix AND 3 = 3 then 4 else unat (prefix AND 3))
     in if length rest < len then None
     else case parse_item st prefix (take len rest) of
       None \<Rightarrow> None
     | Some st' \<Rightarrow> parse_items st' (drop len rest))"

definition parse_mouse_descriptor :: "bytes \<Rightarrow> mouse_profile list" where
  "parse_mouse_descriptor bs =
    (case parse_items parser_init bs of
       None \<Rightarrow> []
     | Some st \<Rightarrow>
         (if ps_collections st \<noteq> [] \<or> ps_stack st \<noteq> [] then []
          else map snd (filter (\<lambda>(id, m). \<not> smap_at False (ps_shared st) id
                 \<and> hf_bits (mp_x m) \<noteq> 0 \<and> hf_bits (mp_y m) \<noteq> 0 \<and> mp_buttons m \<noteq> [])
                 (ps_profiles st))))"

subsection \<open>Splitting a command into reports\<close>

fun support_step :: "nat \<times> hid_field \<Rightarrow> u8 \<Rightarrow> u8" where
  "support_step (b, f) v = v OR push_bit (b - 1) 1"

definition supported_mask :: "mouse_profile \<Rightarrow> u8" where
  "supported_mask m = fold support_step (mp_buttons m) 0"

text \<open>The lambda \<open>take\<close>: \<open>Some (value, remaining)\<close>, or \<open>None\<close> where it returns false.\<close>

definition take_axis :: "hid_field \<Rightarrow> int \<Rightarrow> (int \<times> int) option" where
  "take_axis f remaining =
    (if hf_bits f = 0 then (if remaining = 0 then Some (0, remaining) else None)
     else let value = max (hf_min f) (min (hf_max f) remaining)
          in if remaining \<noteq> 0 \<and> value = 0 then None else Some (value, remaining - value))"

definition no_motion :: "mouse_command \<Rightarrow> bool" where
  "no_motion c \<longleftrightarrow> cmd_x c = 0 \<and> cmd_y c = 0 \<and> cmd_wheel c = 0 \<and> cmd_pan c = 0"

definition take_report :: "mouse_profile \<Rightarrow> mouse_command \<Rightarrow> (mouse_command \<times> mouse_command) option" where
  "take_report m c =
    (case (take_axis (mp_x m) (cmd_x c), take_axis (mp_y m) (cmd_y c),
           take_axis (mp_wheel m) (cmd_wheel c), take_axis (mp_pan m) (cmd_pan c)) of
       (Some (x, rx), Some (y, ry), Some (w, rw), Some (q, rq)) \<Rightarrow>
         Some (\<lparr>cmd_x = x, cmd_y = y, cmd_wheel = w, cmd_pan = q, cmd_buttons = cmd_buttons c\<rparr>,
               c\<lparr>cmd_x := rx, cmd_y := ry, cmd_wheel := rw, cmd_pan := rq\<rparr>)
     | _ \<Rightarrow> None)"

text \<open>The loop; the last argument is how many reports may still be pushed.\<close>

fun split_loop :: "mouse_profile \<Rightarrow> mouse_command \<Rightarrow> nat \<Rightarrow> mouse_command list option" where
  "split_loop m c 0 = None"
| "split_loop m c (Suc k) =
    (case take_report m c of None \<Rightarrow> None
     | Some (part, c') \<Rightarrow>
         if no_motion c' then Some [part]
         else if k = 0 then None
         else map_option (Cons part) (split_loop m c' k))"

definition split_mouse_command :: "mouse_profile \<Rightarrow> mouse_command \<Rightarrow> mouse_command list" where
  "split_mouse_command m c =
    (if (cmd_buttons c AND NOT (supported_mask m)) \<noteq> 0 then []
     else case split_loop m c 32 of None \<Rightarrow> [] | Some parts \<Rightarrow> parts)"

subsection \<open>Numbers on the wire\<close>

definition read_be32 :: "bytes \<Rightarrow> nat \<Rightarrow> u32" where
  "read_be32 p k = push_bit 24 (ucast (p ! k)) OR push_bit 16 (ucast (p ! (k + 1)))
     OR push_bit 8 (ucast (p ! (k + 2))) OR ucast (p ! (k + 3))"

definition read_i16 :: "bytes \<Rightarrow> nat \<Rightarrow> int" where
  "read_i16 p k = (let n = uint (p ! k) * 256 + uint (p ! (k + 1))
     in if n < 32768 then n else n - 65536)"

definition sequence_newer :: "u32 \<Rightarrow> u32 \<Rightarrow> bool" where
  "sequence_newer a b \<longleftrightarrow> (let d = a - b in d \<noteq> 0 \<and> d < 0x80000000)"

subsection \<open>Field semantics, bit by bit\<close>

definition bit_at :: "bytes \<Rightarrow> nat \<Rightarrow> bool" where
  "bit_at p k = bit (p ! (k div 8)) (k mod 8)"

lemma drop_bit_and_1: "(drop_bit i w AND 1) \<noteq> 0 \<longleftrightarrow> bit (w :: 'a::len word) i"
  by (simp add: and_one_eq bit_iff_odd_drop_bit odd_iff_mod_2_eq_one)

lemma length_write_bit [simp]: "length (write_bit off v i p) = length p"
  by (simp add: write_bit_def Let_def)

lemma bit_at_write_bit:
  assumes "off + i < 8 * length p"
  shows "bit_at (write_bit off v i p) k
    = (if k = off + i then bit (word_of_int v :: u32) i else bit_at p k)"
proof -
  have len: "(off + i) div 8 < length p" using assms by auto
  have "k mod 8 = (off + i) mod 8 \<Longrightarrow> k div 8 = (off + i) div 8 \<Longrightarrow> k = off + i"
    by (metis div_mult_mod_eq)
  with len show ?thesis
    by (cases "k div 8 = (off + i) div 8")
      (auto simp: bit_at_def write_bit_def Let_def drop_bit_and_1 bit_simps)
qed

lemma length_write_bits [simp]: "length (fold (write_bit off v) is p) = length p"
  by (induction "is" arbitrary: p) simp_all

lemma bit_at_write_bits:
  assumes "off + n \<le> 8 * length p"
  shows "bit_at (fold (write_bit off v) [0..<n] p) k
    = (if off \<le> k \<and> k < off + n then bit (word_of_int v :: u32) (k - off) else bit_at p k)"
  using assms
  by (induction n) (auto simp: bit_at_write_bit)

lemma bit_read_bits:
  "bit (fold (read_bit p off) [0..<n] 0) j \<longleftrightarrow> j < n \<and> j < 32 \<and> bit_at p (off + j)"
proof (induction n)
  case (Suc n)
  then show ?case
    by (auto simp: read_bit_def bit_at_def bit_simps less_Suc_eq)
qed simp


definition field_ok :: "hid_field \<Rightarrow> bool" where
  "field_ok f \<longleftrightarrow> 1 \<le> hf_bits f \<and> hf_bits f \<le> 16 \<and> hf_min f \<le> 0 \<and> 0 \<le> hf_max f \<and> hf_min f < hf_max f
     \<and> (if hf_min f < 0 then - (2 ^ (hf_bits f - 1)) \<le> hf_min f \<and> hf_max f < 2 ^ (hf_bits f - 1)
         else hf_max f < 2 ^ hf_bits f)"

definition inside :: "hid_field \<Rightarrow> bytes \<Rightarrow> bool" where
  "inside f p \<longleftrightarrow> hf_offset f + hf_bits f \<le> 8 * length p"

definition in_range :: "hid_field \<Rightarrow> int \<Rightarrow> bool" where
  "in_range f v \<longleftrightarrow> hf_min f \<le> v \<and> v \<le> hf_max f"

lemma take_bit_word_of_int: "n \<le> 32 \<Longrightarrow> take_bit n (word_of_int v :: u32) = word_of_int (take_bit n v)"
  by (rule bit_word_eqI) (auto simp: bit_simps)

lemma pow_le_16: "n \<le> 16 \<Longrightarrow> (2 :: int) ^ n \<le> 65536"
  using power_increasing [of n 16 "2 :: int"] by simp

lemma sint_take_bit: "n \<le> 16 \<Longrightarrow> sint (take_bit n (word_of_int v :: u32)) = take_bit n v"
proof -
  assume n: "n \<le> 16"
  have "0 \<le> take_bit n v" "take_bit n v < 2 ^ n" by simp_all
  then have "- 2147483648 \<le> take_bit n v" "take_bit n v < 2147483648"
    using pow_le_16 [OF n] by linarith+
  with n show ?thesis by (simp add: take_bit_word_of_int)
qed

lemma sint_exp_16: "n \<le> 16 \<Longrightarrow> sint (2 ^ n :: u32) = 2 ^ n"
proof -
  assume n: "n \<le> 16"
  have "- 2147483648 \<le> (2 ^ n :: int)" "(2 ^ n :: int) < 2147483648"
    using pow_le_16 [OF n] zero_le_power [of "2 :: int" n] by linarith+
  then have "sint (word_of_int (2 ^ n) :: u32) = 2 ^ n" by (rule sint_word_of_int32)
  then show ?thesis by simp
qed

text \<open>The value of a field whose bits are those of the word \<open>v\<close>.\<close>

lemma hid_get_bits:
  assumes "field_ok f" and "\<And>j. j < hf_bits f \<Longrightarrow> bit_at p (hf_offset f + j) = bit (word_of_int v :: u32) j"
  shows "hid_get f p = (if hf_min f < 0 then signed_take_bit (hf_bits f - 1) v else take_bit (hf_bits f) v)"
proof -
  let ?n = "hf_bits f" and ?w = "fold (read_bit p (hf_offset f)) [0..<hf_bits f] 0"
  have n: "1 \<le> ?n" "?n \<le> 16" using assms(1) by (auto simp: field_ok_def)
  have w: "?w = take_bit ?n (word_of_int v)"
    using assms(2) n by (auto simp: bit_eq_iff bit_read_bits bit_take_bit_iff)
  have "bit ?w (?n - 1) \<longleftrightarrow> bit v (?n - 1)"
  proof -
    have "?n - 1 < 32" using n by linarith
    with n show ?thesis by (simp add: w bit_take_bit_iff bit_simps)
  qed
  moreover have "sint ?w = take_bit ?n v" using n by (simp only: w sint_take_bit)
  ultimately show ?thesis
    using n signed_take_bit_eq_take_bit_minus [of "?n - 1" v]
    by (simp add: hid_get_def Let_def and_exp_eq_0_iff_not_bit sint_exp_16)
qed

lemma hid_put_get:
  assumes "field_ok f" and "inside f p" and "in_range f v"
  shows "fst (hid_put f p v)" and "hid_get f (snd (hid_put f p v)) = v"
proof -
  have n: "1 \<le> hf_bits f" using assms(1) by (simp add: field_ok_def)
  with assms(3) show "fst (hid_put f p v)"
    by (simp add: hid_put_def in_range_def)
  have "hid_get f (snd (hid_put f p v))
      = (if hf_min f < 0 then signed_take_bit (hf_bits f - 1) v else take_bit (hf_bits f) v)"
    using assms n by (intro hid_get_bits) (auto simp: hid_put_def in_range_def bit_at_write_bits inside_def)
  also have "\<dots> = v"
    using assms(1,3)
    by (auto simp: field_ok_def in_range_def signed_take_bit_int_eq_self_iff take_bit_int_eq_self_iff split: if_splits)
  finally show "hid_get f (snd (hid_put f p v)) = v" .
qed

lemma length_hid_put [simp]: "length (snd (hid_put f p v)) = length p"
  by (simp add: hid_put_def)

lemma hid_get_cong:
  assumes "\<And>j. j < hf_bits f \<Longrightarrow> bit_at p (hf_offset f + j) = bit_at q (hf_offset f + j)"
  shows "hid_get f p = hid_get f q"
proof -
  have "fold (read_bit p (hf_offset f)) [0..<hf_bits f] 0 = fold (read_bit q (hf_offset f)) [0..<hf_bits f] 0"
    by (rule bit_word_eqI) (auto simp: bit_read_bits assms)
  then show ?thesis by (simp add: hid_get_def)
qed

definition disjoint_fields :: "hid_field \<Rightarrow> hid_field \<Rightarrow> bool" where
  "disjoint_fields f g \<longleftrightarrow> hf_offset f + hf_bits f \<le> hf_offset g \<or> hf_offset g + hf_bits g \<le> hf_offset f"

lemma hid_get_put_other:
  assumes "disjoint_fields f g" and "inside f p"
  shows "hid_get g (snd (hid_put f p v)) = hid_get g p"
  using assms
  by (intro hid_get_cong) (auto simp: hid_put_def bit_at_write_bits inside_def disjoint_fields_def)

lemma hid_get_range:
  assumes "field_ok f"
  shows "- 32768 \<le> hid_get f p" and "hid_get f p \<le> 65535"
proof -
  let ?v = "uint (fold (read_bit p (hf_offset f)) [0..<hf_bits f] 0)"
  have g: "hid_get f p = (if hf_min f < 0 then signed_take_bit (hf_bits f - 1) ?v else take_bit (hf_bits f) ?v)"
    by (rule hid_get_bits [OF assms]) (use assms in \<open>auto simp: bit_read_bits field_ok_def\<close>)
  have n: "1 \<le> hf_bits f" "hf_bits f \<le> 16" using assms by (auto simp: field_ok_def)
  have "take_bit (hf_bits f) ?v < 2 ^ hf_bits f" "0 \<le> take_bit (hf_bits f) ?v" by simp_all
  moreover have "signed_take_bit (hf_bits f - 1) ?v < 2 ^ (hf_bits f - 1)"
     "- (2 ^ (hf_bits f - 1)) \<le> signed_take_bit (hf_bits f - 1) ?v"
    by (simp_all add: signed_take_bit_int_less_exp signed_take_bit_int_greater_eq_minus_exp)
  moreover have "(2 :: int) ^ (hf_bits f - 1) \<le> 32768"
    using power_increasing [of "hf_bits f - 1" 15 "2 :: int"] n by simp
  ultimately show "- 32768 \<le> hid_get f p" "hid_get f p \<le> 65535"
    using pow_le_16 [OF n(2)] unfolding g by (simp_all only: split: if_split) linarith+
qed

subsection \<open>What a split costs and what it keeps\<close>

definition axis_ok :: "hid_field \<Rightarrow> bool" where
  "axis_ok f \<longleftrightarrow> hf_bits f = 0 \<or> (hf_min f \<le> 0 \<and> 0 \<le> hf_max f)"

text \<open>The number of reports a distance needs on one axis; \<open>None\<close> where it cannot be moved.\<close>

definition axis_need :: "hid_field \<Rightarrow> int \<Rightarrow> nat option" where
  "axis_need f n =
    (if n = 0 then Some 0
     else let span = (if n > 0 then hf_max f else - hf_min f)
          in if hf_bits f \<noteq> 0 \<and> span > 0 then Some (nat ((\<bar>n\<bar> + span - 1) div span)) else None)"

definition report_need :: "mouse_profile \<Rightarrow> mouse_command \<Rightarrow> nat option" where
  "report_need m c =
    (case (axis_need (mp_x m) (cmd_x c), axis_need (mp_y m) (cmd_y c),
           axis_need (mp_wheel m) (cmd_wheel c), axis_need (mp_pan m) (cmd_pan c)) of
       (Some a, Some b, Some d, Some e) \<Rightarrow> Some (max (max a b) (max d e))
     | _ \<Rightarrow> None)"

definition axes_ok :: "mouse_profile \<Rightarrow> bool" where
  "axes_ok m \<longleftrightarrow> axis_ok (mp_x m) \<and> axis_ok (mp_y m) \<and> axis_ok (mp_wheel m) \<and> axis_ok (mp_pan m)"

lemma axis_need_zero [simp]: "axis_need f 0 = Some 0"
  by (simp add: axis_need_def)

lemma axis_need_0_iff: "axis_need f n = Some 0 \<longleftrightarrow> n = 0"
  by (auto simp: axis_need_def Let_def pos_imp_zdiv_pos_iff not_le split: if_splits)

lemma take_axis_None: "axis_ok f \<Longrightarrow> axis_need f n = None \<Longrightarrow> take_axis f n = None"
  by (auto simp: axis_need_def take_axis_def axis_ok_def Let_def split: if_splits)

lemma ceil_step: "0 < s \<Longrightarrow> (n - s + s - 1) div s = (n + s - 1) div s - (1 :: int)"
  using div_add_self2 [of s "n - 1"] by (simp add: algebra_simps)

lemma take_axis_Some:
  assumes "axis_ok f" and "axis_need f n = Some k"
  obtains v n' where "take_axis f n = Some (v, n')" "axis_need f n' = Some (k - 1)" "v + n' = n"
proof -
  have ?thesis
  proof (cases "n = 0")
    case True
    with assms have "k = 0" "take_axis f n = Some (0, 0)"
      by (auto simp: take_axis_def axis_ok_def)
    with True show ?thesis by (intro that [of 0 0]) simp_all
  next
    case False
    let ?s = "if n > 0 then hf_max f else - hf_min f"
    have s: "hf_bits f \<noteq> 0" "?s > 0" "k = nat ((\<bar>n\<bar> + ?s - 1) div ?s)" "hf_min f \<le> 0" "0 \<le> hf_max f"
      using assms False by (auto simp: axis_need_def axis_ok_def Let_def split: if_splits)
    show ?thesis
    proof (cases "\<bar>n\<bar> \<le> ?s")
      case True
      then have "(\<bar>n\<bar> + ?s - 1) div ?s = 1"
        using s False by (intro int_div_pos_eq [of _ _ _ "\<bar>n\<bar> - 1"]) auto
      moreover have "take_axis f n = Some (n, 0)"
        using s True False by (auto simp: take_axis_def Let_def split: if_splits)
      ultimately show ?thesis using s that by (auto simp: axis_need_def)
    next
      case far: False
      let ?v = "if n > 0 then ?s else - ?s"
      have "take_axis f n = Some (?v, n - ?v)"
        using s far False by (auto simp: take_axis_def Let_def)
      moreover have "axis_need f (n - ?v) = Some (k - 1)"
        using s far False ceil_step [of ?s "\<bar>n\<bar>"]
        by (auto simp: axis_need_def Let_def nat_diff_distrib')
      ultimately show ?thesis using that by simp
    qed
  qed
  then show ?thesis .
qed

lemma no_motion_iff: "report_need m c = Some 0 \<longleftrightarrow> no_motion c"
  by (auto simp: report_need_def no_motion_def axis_need_0_iff split: option.splits)

lemma take_report_None: "axes_ok m \<Longrightarrow> report_need m c = None \<Longrightarrow> take_report m c = None"
  by (auto simp: report_need_def take_report_def axes_ok_def dest!: take_axis_None split: option.splits)

lemma max_pred: "max (a - Suc 0) (b - Suc 0) = max a b - Suc 0"
  by (simp add: max_def)

lemma take_axis_sum: "take_axis f n = Some (v, n') \<Longrightarrow> v + n' = n"
  by (auto simp: take_axis_def Let_def split: if_splits)

lemma take_report_Some:
  assumes "axes_ok m" and "report_need m c = Some k"
  obtains part c' where "take_report m c = Some (part, c')" "report_need m c' = Some (k - 1)"
proof -
  obtain a b d e where n: "axis_need (mp_x m) (cmd_x c) = Some a" "axis_need (mp_y m) (cmd_y c) = Some b"
    "axis_need (mp_wheel m) (cmd_wheel c) = Some d" "axis_need (mp_pan m) (cmd_pan c) = Some e"
    and k: "k = max (max a b) (max d e)"
    using assms(2) by (auto simp: report_need_def split: option.splits)
  have ok: "axis_ok (mp_x m)" "axis_ok (mp_y m)" "axis_ok (mp_wheel m)" "axis_ok (mp_pan m)"
    using assms(1) by (auto simp: axes_ok_def)
  obtain x rx where x: "take_axis (mp_x m) (cmd_x c) = Some (x, rx)" "axis_need (mp_x m) rx = Some (a - 1)"
    by (rule take_axis_Some [OF ok(1) n(1)])
  obtain y ry where y: "take_axis (mp_y m) (cmd_y c) = Some (y, ry)" "axis_need (mp_y m) ry = Some (b - 1)"
    by (rule take_axis_Some [OF ok(2) n(2)])
  obtain w rw where w: "take_axis (mp_wheel m) (cmd_wheel c) = Some (w, rw)" "axis_need (mp_wheel m) rw = Some (d - 1)"
    by (rule take_axis_Some [OF ok(3) n(3)])
  obtain q rq where q: "take_axis (mp_pan m) (cmd_pan c) = Some (q, rq)" "axis_need (mp_pan m) rq = Some (e - 1)"
    by (rule take_axis_Some [OF ok(4) n(4)])
  show ?thesis
  proof (rule that)
    show "take_report m c
      = Some (\<lparr>cmd_x = x, cmd_y = y, cmd_wheel = w, cmd_pan = q, cmd_buttons = cmd_buttons c\<rparr>,
              c\<lparr>cmd_x := rx, cmd_y := ry, cmd_wheel := rw, cmd_pan := rq\<rparr>)"
      by (simp add: take_report_def x(1) y(1) w(1) q(1))
    show "report_need m (c\<lparr>cmd_x := rx, cmd_y := ry, cmd_wheel := rw, cmd_pan := rq\<rparr>) = Some (k - 1)"
      by (simp add: report_need_def x(2) y(2) w(2) q(2) k max_pred)
  qed
qed

lemma take_report_props:
  assumes "take_report m c = Some (part, c')"
  shows "cmd_x part + cmd_x c' = cmd_x c" "cmd_y part + cmd_y c' = cmd_y c"
    "cmd_wheel part + cmd_wheel c' = cmd_wheel c" "cmd_pan part + cmd_pan c' = cmd_pan c"
    "cmd_buttons part = cmd_buttons c" "cmd_buttons c' = cmd_buttons c"
  using assms
  by (auto simp: take_report_def split: option.splits dest!: take_axis_sum)

lemma split_loop_count:
  assumes "axes_ok m"
  shows "case report_need m c of
      None \<Rightarrow> split_loop m c (Suc k) = None
    | Some n \<Rightarrow> if n \<le> Suc k then \<exists>parts. split_loop m c (Suc k) = Some parts \<and> length parts = max 1 n
        else split_loop m c (Suc k) = None"
proof (induction k arbitrary: c)
  case 0
  then show ?case
  proof (cases "report_need m c")
    case (Some n)
    then obtain part c' where r: "take_report m c = Some (part, c')" "report_need m c' = Some (n - 1)"
      by (rule take_report_Some [OF assms])
    have "no_motion c' \<longleftrightarrow> n - 1 = 0" using r(2) no_motion_iff [of m c'] by auto
    with Some r show ?thesis by (auto split: option.splits)
  qed (simp add: take_report_None [OF assms])
next
  case (Suc k)
  show ?case
  proof (cases "report_need m c")
    case (Some n)
    then obtain part c' where r: "take_report m c = Some (part, c')" "report_need m c' = Some (n - 1)"
      by (rule take_report_Some [OF assms])
    have nm: "no_motion c' \<longleftrightarrow> n \<le> 1" using r(2) no_motion_iff [of m c'] by auto
    show ?thesis
      using Suc.IH [of c'] Some r nm by (auto split: if_splits)
  qed (simp add: take_report_None [OF assms])
qed

lemma split_loop_sums:
  assumes "split_loop m c k = Some parts"
  shows "(\<Sum>q\<leftarrow>parts. cmd_x q) = cmd_x c" "(\<Sum>q\<leftarrow>parts. cmd_y q) = cmd_y c"
    "(\<Sum>q\<leftarrow>parts. cmd_wheel q) = cmd_wheel c" "(\<Sum>q\<leftarrow>parts. cmd_pan q) = cmd_pan c"
    "\<forall>q\<in>set parts. cmd_buttons q = cmd_buttons c" "parts \<noteq> []"
proof -
  have "(\<Sum>q\<leftarrow>parts. cmd_x q) = cmd_x c \<and> (\<Sum>q\<leftarrow>parts. cmd_y q) = cmd_y c
    \<and> (\<Sum>q\<leftarrow>parts. cmd_wheel q) = cmd_wheel c \<and> (\<Sum>q\<leftarrow>parts. cmd_pan q) = cmd_pan c
    \<and> (\<forall>q\<in>set parts. cmd_buttons q = cmd_buttons c) \<and> parts \<noteq> []"
    using assms
  proof (induction m c k arbitrary: parts rule: split_loop.induct)
    case (2 m c k)
    then obtain part c' where r: "take_report m c = Some (part, c')"
      by (auto split: option.splits)
    show ?case
    proof (cases "no_motion c'")
      case True
      with "2.prems" r take_report_props [OF r] show ?thesis by (auto simp: no_motion_def)
    next
      case False
      with "2.prems" r obtain ps where ps: "k \<noteq> 0" "split_loop m c' k = Some ps" "parts = part # ps"
        by (auto split: if_splits)
      from "2.IH" [OF r refl False ps(1,2)] take_report_props [OF r] ps(3)
      show ?thesis by auto
    qed
  qed simp
  then show "(\<Sum>q\<leftarrow>parts. cmd_x q) = cmd_x c" "(\<Sum>q\<leftarrow>parts. cmd_y q) = cmd_y c"
    "(\<Sum>q\<leftarrow>parts. cmd_wheel q) = cmd_wheel c" "(\<Sum>q\<leftarrow>parts. cmd_pan q) = cmd_pan c"
    "\<forall>q\<in>set parts. cmd_buttons q = cmd_buttons c" "parts \<noteq> []"
    by simp_all
qed

subsection \<open>Serial-number comparison\<close>

lemma unat_neg_u32: "(d :: u32) \<noteq> 0 \<Longrightarrow> unat (- d) = 4294967296 - unat d"
  using unat_sub_if' [of 0 d] by (simp add: unat_eq_0)

lemma half_minus:
  fixes d :: u32
  assumes "d \<noteq> 0"
  shows "- d < 0x80000000 \<longleftrightarrow> 0x80000000 < d"
proof -
  have "unat d < 2 ^ LENGTH(32)" by (rule unsigned_less)
  with assms show ?thesis by (auto simp: word_less_nat_alt unat_neg_u32)
qed

lemma sequence_newer_iff: "sequence_newer a b \<longleftrightarrow> a - b \<noteq> 0 \<and> a - b < 0x80000000"
  by (simp add: sequence_newer_def Let_def)

lemma sequence_newer_swap: "sequence_newer b a \<longleftrightarrow> a - b \<noteq> 0 \<and> 0x80000000 < a - b"
  using half_minus [of "a - b"] by (auto simp: sequence_newer_def Let_def)

lemma sequence_newer_asym: "sequence_newer a b \<Longrightarrow> \<not> sequence_newer b a"
  unfolding sequence_newer_iff [of a b] sequence_newer_swap [of b a] by (auto dest: less_trans)

end
