(* ===== verification/Mouse_Layout.thy ===== *)
theory Mouse_Layout
  imports Mouse_Protocol
begin

text \<open>
  What the descriptor parser guarantees of the profiles it returns: every field lies inside
  the report (so the unchecked pointer accesses of \<open>HidField\<close> stay in bounds), behind the
  report-ID byte where there is one, with limits its width can hold, and no two fields with
  different roles overlap. From this the encoder is proved faithful.
\<close>

datatype hid_role = Role_X | Role_Y | Role_Wheel | Role_Pan | Role_Button nat

definition present :: "hid_field \<Rightarrow> hid_field option" where
  "present f = (if hf_bits f = 0 then None else Some f)"

fun role :: "mouse_profile \<Rightarrow> hid_role \<Rightarrow> hid_field option" where
  "role m Role_X = present (mp_x m)"
| "role m Role_Y = present (mp_y m)"
| "role m Role_Wheel = present (mp_wheel m)"
| "role m Role_Pan = present (mp_pan m)"
| "role m (Role_Button b) = map_of (mp_buttons m) b"

definition is_axis :: "hid_role \<Rightarrow> bool" where
  "is_axis k \<longleftrightarrow> (\<forall>b. k \<noteq> Role_Button b)"

text \<open>A field lies in the bit interval from \<open>lo\<close> to \<open>hi\<close>.\<close>

definition within :: "nat \<Rightarrow> nat \<Rightarrow> hid_field \<Rightarrow> bool" where
  "within lo hi f \<longleftrightarrow> field_ok f \<and> lo \<le> hf_offset f \<and> hf_offset f + hf_bits f \<le> hi"

definition layout_ok :: "nat \<Rightarrow> nat \<Rightarrow> mouse_profile \<Rightarrow> bool" where
  "layout_ok lo hi m \<longleftrightarrow>
     (\<forall>k f. role m k = Some f \<longrightarrow> within lo hi f)
     \<and> (\<forall>k k' f f'. k \<noteq> k' \<longrightarrow> role m k = Some f \<longrightarrow> role m k' = Some f' \<longrightarrow> disjoint_fields f f')
     \<and> (\<forall>f\<in>set (mp_relative m). within lo hi f)
     \<and> (\<forall>k f. is_axis k \<longrightarrow> role m k = Some f \<longrightarrow> f \<in> set (mp_relative m))
     \<and> smap_ok (mp_buttons m) \<and> (\<forall>(b, f)\<in>set (mp_buttons m). 1 \<le> b \<and> b \<le> 8 \<and> hf_bits f = 1)"

lemma layout_okD:
  assumes "layout_ok lo hi m"
  shows "\<And>k f. role m k = Some f \<Longrightarrow> within lo hi f"
    and "\<And>k k' f f'. k \<noteq> k' \<Longrightarrow> role m k = Some f \<Longrightarrow> role m k' = Some f' \<Longrightarrow> disjoint_fields f f'"
    and "\<And>f. f \<in> set (mp_relative m) \<Longrightarrow> within lo hi f"
    and "\<And>k f. is_axis k \<Longrightarrow> role m k = Some f \<Longrightarrow> f \<in> set (mp_relative m)"
    and "smap_ok (mp_buttons m)"
    and "\<And>b f. (b, f) \<in> set (mp_buttons m) \<Longrightarrow> 1 \<le> b \<and> b \<le> 8 \<and> hf_bits f = 1"
  using assms by (auto simp: layout_ok_def)

lemma within_mono: "within lo hi f \<Longrightarrow> hi \<le> hi' \<Longrightarrow> within lo hi' f"
  by (auto simp: within_def)

lemma layout_ok_mono: "layout_ok lo hi m \<Longrightarrow> hi \<le> hi' \<Longrightarrow> layout_ok lo hi' m"
  unfolding layout_ok_def by (blast intro: within_mono)

lemma layout_ok_no_profile [simp]: "layout_ok lo hi no_profile"
proof -
  have "role no_profile k = None" for k
    by (cases k) (simp_all add: no_profile_def no_field_def present_def)
  then show ?thesis by (simp add: layout_ok_def) (simp add: no_profile_def)
qed

lemma role_congs [simp]:
  "role (m\<lparr>mp_id := i\<rparr>) k = role m k"
  "role (m\<lparr>mp_size := n\<rparr>) k = role m k"
  "role (m\<lparr>mp_relative := fs\<rparr>) k = role m k"
  by (cases k; simp)+

lemma layout_ok_congs [simp]:
  "layout_ok lo hi (m\<lparr>mp_id := i\<rparr>) = layout_ok lo hi m"
  "layout_ok lo hi (m\<lparr>mp_size := n\<rparr>) = layout_ok lo hi m"
  by (simp_all add: layout_ok_def)

text \<open>A new field behind all others takes at most one role.\<close>

lemma layout_ok_place:
  assumes ok: "layout_ok lo hi m" and f: "within lo hi' f" and past: "hi \<le> hf_offset f"
    and role: "\<And>k'. role m' k' = (if k' = k then Some f else role m k')"
    and rel: "set (mp_relative m') \<subseteq> insert f (set (mp_relative m))"
      "set (mp_relative m) \<subseteq> set (mp_relative m')" "is_axis k \<Longrightarrow> f \<in> set (mp_relative m')"
    and btn: "smap_ok (mp_buttons m')"
      "\<And>b g. (b, g) \<in> set (mp_buttons m') \<Longrightarrow> 1 \<le> b \<and> b \<le> 8 \<and> hf_bits g = 1"
  shows "layout_ok lo hi' m'"
proof -
  have old: "within lo hi' g" "disjoint_fields f g" "disjoint_fields g f" if "within lo hi g" for g
    using that f past by (auto simp: within_def disjoint_fields_def)
  note ok = layout_okD [OF ok]
  show ?thesis
    unfolding layout_ok_def
    using f rel btn old ok(1-4) by (fastforce simp: role split: if_splits)
qed

lemma layout_ok_relative:
  assumes "layout_ok lo hi m" and "within lo hi' f" and "hi \<le> hi'"
  shows "layout_ok lo hi' (m\<lparr>mp_relative := mp_relative m @ [f]\<rparr>)"
  using assms(2) layout_ok_mono [OF assms(1,3)] by (auto simp: layout_ok_def)

text \<open>One step of the per-field loop adds nothing, or one field in one role.\<close>

lemma injectable_field_ok:
  assumes "injectable g v mouse" and "n = nat (g_size g)"
    and "\<not> (g_min g < (if g_min g < 0 then - (2 ^ (n - 1)) else 0))"
    and "\<not> (g_max g > (if g_min g < 0 then 2 ^ (n - 1) - 1 else 2 ^ n - 1))"
  shows "field_ok \<lparr>hf_offset = k, hf_bits = n, hf_min = g_min g, hf_max = g_max g\<rparr>"
  using assms by (auto simp: injectable_def field_ok_def split: if_splits)

lemma drop_and_bounds:
  "unat ((u :: u32) AND 65535) \<le> 8 \<longleftrightarrow> (u AND 65535) \<le> 8"
  "1 \<le> unat (u AND 65535) \<longleftrightarrow> (u AND 65535) \<ge> 1"
  by (simp_all add: word_le_nat_alt)

definition place :: "hid_role \<Rightarrow> hid_field \<Rightarrow> mouse_profile \<Rightarrow> mouse_profile" where
  "place k f m = (case k of Role_X \<Rightarrow> m\<lparr>mp_x := f\<rparr> | Role_Y \<Rightarrow> m\<lparr>mp_y := f\<rparr>
     | Role_Wheel \<Rightarrow> m\<lparr>mp_wheel := f\<rparr> | Role_Pan \<Rightarrow> m\<lparr>mp_pan := f\<rparr>
     | Role_Button b \<Rightarrow> m\<lparr>mp_buttons := smap_put b f (mp_buttons m)\<rparr>)"

lemma role_place: "hf_bits f \<noteq> 0 \<Longrightarrow> role (place k f m) k' = (if k' = k then Some f else role m k')"
  by (cases k; cases k') (auto simp: place_def present_def)

lemma relative_place [simp]: "mp_relative (place k f m) = mp_relative m"
  by (cases k) (simp_all add: place_def)

lemma assign_usage_place:
  assumes "assign_usage u rel single f r = Some r'"
  shows "r' = (if u = 0x10030 \<and> rel then place Role_X f r else if u = 0x10031 \<and> rel then place Role_Y f r
    else if u = 0x10038 \<and> rel then place Role_Wheel f r
    else if u = 0xc0238 \<and> rel then place Role_Pan f r
    else if drop_bit 16 u = 9 \<and> (u AND 65535) \<ge> 1 \<and> (u AND 65535) \<le> 8 \<and> single
      then place (Role_Button (unat (u AND 65535))) f r else r)"
  using assms by (auto simp: assign_usage_def place_def split: if_splits)

lemma input_field_cases:
  assumes "input_field st v mouse off i r = Some r'"
  obtains "r' = r"
  | f where "field_ok f" "hf_offset f = off + i * nat (g_size (ps_global st))"
      "hf_bits f = nat (g_size (ps_global st))" "r' = r\<lparr>mp_relative := mp_relative r @ [f]\<rparr>"
  | f k where "field_ok f" "hf_offset f = off + i * nat (g_size (ps_global st))"
      "hf_bits f = nat (g_size (ps_global st))"
      "r' = place k f (r\<lparr>mp_relative := mp_relative r @ [f]\<rparr>)"
      "\<And>b. k = Role_Button b \<Longrightarrow> 1 \<le> b \<and> b \<le> 8 \<and> hf_bits f = 1"
  | f b where "field_ok f" "hf_offset f = off + i * nat (g_size (ps_global st))"
      "hf_bits f = nat (g_size (ps_global st))" "r' = place (Role_Button b) f r"
      "1 \<le> b \<and> b \<le> 8 \<and> hf_bits f = 1"
proof (cases "injectable (ps_global st) v mouse")
  case False
  with assms that(1) show thesis by (auto simp: input_field_def Let_def)
next
  case True
  define u where "u = field_usage st i"
  define rel where "rel \<longleftrightarrow> (v AND 4) \<noteq> 0"
  define single where "single \<longleftrightarrow> g_size (ps_global st) = 1"
  define b where "b = unat (u AND 65535)"
  define f where "f = \<lparr>hf_offset = off + i * nat (g_size (ps_global st)), hf_bits = nat (g_size (ps_global st)),
    hf_min = g_min (ps_global st), hf_max = g_max (ps_global st)\<rparr>"
  define r2 where "r2 = r\<lparr>mp_relative := mp_relative r @ [f]\<rparr>"
  define btn where "btn \<longleftrightarrow> drop_bit 16 u = 9 \<and> (u AND 65535) \<ge> 1 \<and> (u AND 65535) \<le> 8 \<and> single"
  have f: "field_ok f" "hf_offset f = off + i * nat (g_size (ps_global st))"
    "hf_bits f = nat (g_size (ps_global st))"
    unfolding f_def
    by (rule injectable_field_ok [OF True refl])
      (use assms True in \<open>auto simp: input_field_def Let_def split: if_splits\<close>)
  have step: "assign_usage u rel single f (if rel then r2 else r) = Some r'"
    using assms True
    by (simp add: input_field_def Let_def u_def rel_def single_def f_def r2_def split: if_splits)
  have b: "1 \<le> b \<and> b \<le> 8 \<and> hf_bits f = 1" if btn
    using that by (simp add: btn_def b_def f_def single_def word_le_nat_alt)
  note eq = assign_usage_place [OF step, folded btn_def b_def]
  consider "r' = place Role_X f r2" | "r' = place Role_Y f r2" | "r' = place Role_Wheel f r2"
    | "r' = place Role_Pan f r2" | "btn" "r' = place (Role_Button b) f r2" | "r' = r2"
    | "btn" "r' = place (Role_Button b) f r" | "r' = r"
    using eq by (cases rel) (simp_all split: if_splits)
  then show thesis
  proof cases
    case 5
    with b show thesis by (intro that(3) [OF f, folded r2_def]) auto
  next
    case 7
    with b show thesis by (intro that(4) [OF f]) auto
  qed (auto intro: that(1) that(2) [OF f, folded r2_def] that(3) [OF f, folded r2_def])
qed

subsection \<open>The layout grows from left to right\<close>

lemma place_layout:
  assumes ok: "layout_ok lo hi r" and f: "field_ok f" "hf_offset f = hi" "lo \<le> hi"
    and b: "\<And>b. k = Role_Button b \<Longrightarrow> 1 \<le> b \<and> b \<le> 8 \<and> hf_bits f = 1"
    and rel: "fs = mp_relative r @ [f] \<or> fs = mp_relative r \<and> \<not> is_axis k"
  shows "layout_ok lo (hi + hf_bits f) (place k f (r\<lparr>mp_relative := fs\<rparr>))"
proof (rule layout_ok_place [OF ok, where f = f and k = k])
  have bits: "hf_bits f \<noteq> 0" using f(1) by (simp add: field_ok_def)
  show "role (place k f (r\<lparr>mp_relative := fs\<rparr>)) k' = (if k' = k then Some f else role r k')" for k'
    by (simp add: role_place [OF bits])
  show "within lo (hi + hf_bits f) f" using f by (simp add: within_def)
  show "smap_ok (mp_buttons (place k f (r\<lparr>mp_relative := fs\<rparr>)))"
    using layout_okD(5) [OF ok] by (cases k) (simp_all add: place_def)
  show "1 \<le> n \<and> n \<le> 8 \<and> hf_bits g = 1"
    if "(n, g) \<in> set (mp_buttons (place k f (r\<lparr>mp_relative := fs\<rparr>)))" for n g
    using that b layout_okD(6) [OF ok]
    by (cases k) (auto simp: place_def dest: vals_smap_put)
qed (use f rel in auto)

lemma layout_ok_size_0:
  assumes "layout_ok lo hi r" and "lo \<le> hi"
  shows "layout_ok lo (hi + n) r"
  using layout_ok_mono [OF assms(1)] by simp

lemma input_field_layout:
  assumes "input_field st v mouse off i r = Some r'"
    and "layout_ok lo (off + i * n) r" and "lo \<le> off" and "n = nat (g_size (ps_global st))"
  shows "layout_ok lo (off + i * n + n) r'"
proof -
  have lo: "lo \<le> off + i * n" using assms(3) by simp
  from assms(1) show ?thesis
  proof (cases rule: input_field_cases)
    case 1
    then show ?thesis using layout_ok_mono [OF assms(2)] by simp
  next
    case (2 f)
    then show ?thesis
      using layout_ok_relative [OF assms(2), of "off + i * n + n" f] assms(4) lo by (simp add: within_def)
  next
    case (3 f k)
    then show ?thesis using place_layout [OF assms(2) 3(1) _ lo 3(5)] assms(4) by simp
  next
    case (4 f b)
    have "layout_ok lo (off + i * n + hf_bits f) (place (Role_Button b) f (r\<lparr>mp_relative := mp_relative r\<rparr>))"
      by (rule place_layout [OF assms(2) 4(1) _ lo]) (use 4 assms(4) in \<open>auto simp: is_axis_def\<close>)
    with 4 assms(4) show ?thesis by simp
  qed
qed

lemma input_field_id: "input_field st v mouse off i r = Some r' \<Longrightarrow> mp_id r' = mp_id r"
  by (erule input_field_cases) (auto simp: place_def split: hid_role.splits)

lemma input_fields_layout:
  assumes "input_fields st v mouse off [i..<k] r = Some r'"
    and "layout_ok lo (off + i * n) r" and "lo \<le> off" and "n = nat (g_size (ps_global st))" and "i \<le> k"
  shows "layout_ok lo (off + k * n) r' \<and> mp_id r' = mp_id r"
  using assms
proof (induction "k - i" arbitrary: i r)
  case (Suc d)
  then have ik: "i < k" by simp
  with Suc.prems(1) obtain r1 where r1: "input_field st v mouse off i r = Some r1"
    "input_fields st v mouse off [Suc i..<k] r1 = Some r'"
    by (auto simp: upt_conv_Cons split: option.splits)
  have "layout_ok lo (off + Suc i * n) r1"
    using input_field_layout [OF r1(1) Suc.prems(2-4)] by (simp add: algebra_simps)
  then have "layout_ok lo (off + k * n) r' \<and> mp_id r' = mp_id r1"
    using Suc.prems ik Suc.hyps(2) by (intro Suc.hyps(1) [OF _ r1(2)]) simp_all
  with input_field_id [OF r1(1)] show ?case by simp
qed simp

subsection \<open>The invariant of the parsing loop\<close>

definition id_base :: "nat \<Rightarrow> nat" where
  "id_base i = (if i = 0 then 0 else 8)"

definition parser_ok :: "parser \<Rightarrow> bool" where
  "parser_ok st \<longleftrightarrow> smap_ok (ps_profiles st)
     \<and> g_id (ps_global st) \<le> 255 \<and> (\<forall>g\<in>set (ps_stack st). g_id g \<le> 255)
     \<and> (\<forall>i m. map_of (ps_profiles st) i = Some m \<longrightarrow>
          (\<exists>off. map_of (ps_offsets st) i = Some off \<and> mp_id m = i \<and> i \<le> 255 \<and> off \<le> 32768
             \<and> mp_size m = (off + 7) div 8 \<and> layout_ok (id_base i) off m))
     \<and> (\<forall>i off. map_of (ps_offsets st) i = Some off \<longrightarrow> id_base i \<le> off)"

lemma parser_okD:
  assumes "parser_ok st"
  shows "map_of (ps_profiles st) i = Some m \<Longrightarrow> \<exists>off. map_of (ps_offsets st) i = Some off \<and> mp_id m = i
      \<and> i \<le> 255 \<and> off \<le> 32768 \<and> mp_size m = (off + 7) div 8 \<and> layout_ok (id_base i) off m"
    and "map_of (ps_offsets st) i = Some off \<Longrightarrow> id_base i \<le> off"
  using assms by (simp_all add: parser_ok_def)

lemma parser_ok_init: "parser_ok parser_init"
  by (simp add: parser_ok_def parser_init_def)

lemma parser_ok_congs [simp]:
  "parser_ok (st\<lparr>ps_collections := a\<rparr>) = parser_ok st"
  "parser_ok (st\<lparr>ps_usages := b\<rparr>) = parser_ok st"
  "parser_ok (st\<lparr>ps_umin := c\<rparr>) = parser_ok st"
  "parser_ok (st\<lparr>ps_umax := d\<rparr>) = parser_ok st"
  "parser_ok (st\<lparr>ps_range := e\<rparr>) = parser_ok st"
  "parser_ok (st\<lparr>ps_shared := f\<rparr>) = parser_ok st"
  by (simp_all add: parser_ok_def)

lemma parser_ok_global: "parser_ok st \<Longrightarrow> g_id g \<le> 255 \<Longrightarrow> parser_ok (st\<lparr>ps_global := g\<rparr>)"
  by (simp add: parser_ok_def)

lemma parser_ok_stack:
  "parser_ok st \<Longrightarrow> \<forall>g\<in>set gs. g_id g \<le> 255 \<Longrightarrow> parser_ok (st\<lparr>ps_stack := gs\<rparr>)"
  by (simp add: parser_ok_def)

lemma parse_global_ok:
  assumes "parse_global st tag v sv = Some st'" and ok: "parser_ok st"
  shows "parser_ok st'"
proof -
  have ids: "g_id (ps_global st) \<le> 255" "\<And>g. g \<in> set (ps_stack st) \<Longrightarrow> g_id g \<le> 255"
    using ok by (auto simp: parser_ok_def)
  have "v \<le> 255 \<Longrightarrow> unat v \<le> 255" by (simp add: word_le_nat_alt)
  then show ?thesis
    using assms(1) ids ok
    by (auto simp: parse_global_def Let_def not_less
        intro!: parser_ok_global parser_ok_stack split: if_splits list.splits)
qed

lemma parse_local_ok: "parser_ok st \<Longrightarrow> parser_ok (parse_local st tag len v)"
  by (simp add: parse_local_def Let_def)

lemma parse_input_ok:
  assumes step: "parse_input st v = Some st'" and ok: "parser_ok st"
  shows "parser_ok st'"
proof -
  define g where "g = ps_global st"
  define i where "i = g_id g"
  define off where "off = (let off = smap_at 0 (ps_offsets st) i in if off = 0 \<and> i \<noteq> 0 then 8 else off)"
  define total where "total = nat (g_size g) * nat (g_count g)"
  define r where "r = (smap_at no_profile (ps_profiles st) i)\<lparr>mp_id := i\<rparr>"
  define mouse where "mouse = (case ps_collections st of [] \<Rightarrow> False | m # _ \<Rightarrow> m)"
  define shared where "shared = (if \<not> mouse \<and> (v AND 1) = 0 then smap_put i True (ps_shared st)
    else ps_shared st)"
  have "off + total \<le> 32768 \<and> (\<exists>r'. input_fields st v mouse off [0..<nat (g_count g)] r = Some r'
    \<and> st' = st\<lparr>ps_shared := shared, ps_offsets := smap_put i (off + total) (ps_offsets st),
        ps_profiles := smap_put i (r'\<lparr>mp_size := (off + total + 7) div 8\<rparr>) (ps_profiles st)\<rparr>)"
    using step [unfolded parse_input_def Let_def, folded g_def, folded i_def,
        folded off_def [unfolded Let_def], folded total_def mouse_def r_def, folded shared_def]
    by (simp split: if_splits option.splits)
  then obtain r' where r': "input_fields st v mouse off [0..<nat (g_count g)] r = Some r'"
    and le: "off + total \<le> 32768"
    and st': "st' = st\<lparr>ps_shared := shared, ps_offsets := smap_put i (off + total) (ps_offsets st),
        ps_profiles := smap_put i (r'\<lparr>mp_size := (off + total + 7) div 8\<rparr>) (ps_profiles st)\<rparr>"
    by blast
  have base: "id_base i \<le> off"
    using parser_okD(2) [OF ok, of i]
    by (cases "map_of (ps_offsets st) i") (auto simp: off_def smap_at_def id_base_def Let_def)
  have "layout_ok (id_base i) off r"
  proof (cases "map_of (ps_profiles st) i")
    case (Some m)
    then obtain o' where "map_of (ps_offsets st) i = Some o'" "layout_ok (id_base i) o' m"
      using parser_okD(1) [OF ok] by blast
    moreover from this(1) have "o' \<le> off" by (simp add: off_def smap_at_def Let_def)
    ultimately show ?thesis using Some by (auto simp: r_def smap_at_def intro: layout_ok_mono)
  qed (simp add: r_def smap_at_def)
  then have "layout_ok (id_base i) (off + nat (g_count g) * nat (g_size g)) r' \<and> mp_id r' = mp_id r"
    using input_fields_layout [OF r', of "id_base i" "nat (g_size g)"] base by (simp add: g_def)
  then have r'_ok: "layout_ok (id_base i) (off + total) r'" "mp_id r' = i"
    by (simp_all add: total_def mult.commute r_def)
  have "i \<le> 255" using ok by (simp add: parser_ok_def i_def g_def)
  with ok base le r'_ok show ?thesis
    unfolding st' parser_ok_def by (auto intro: order_trans)
qed

lemma parse_main_ok: "parse_main st tag v = Some st' \<Longrightarrow> parser_ok st \<Longrightarrow> parser_ok st'"
  by (auto simp: parse_main_def Let_def intro: parse_input_ok split: if_splits list.splits)

lemma parse_item_ok: "parse_item st prefix data = Some st' \<Longrightarrow> parser_ok st \<Longrightarrow> parser_ok st'"
  by (auto simp: parse_item_def Let_def intro: parse_global_ok parse_main_ok parse_local_ok
      split: if_splits)

lemma parse_items_ok: "parse_items st bs = Some st' \<Longrightarrow> parser_ok st \<Longrightarrow> parser_ok st'"
  by (induction st bs rule: parse_items.induct)
    (auto simp: Let_def intro: parse_item_ok split: if_splits option.splits)

text \<open>What a caller may rely on for a profile the parser returned.\<close>

definition profile_ok :: "mouse_profile \<Rightarrow> bool" where
  "profile_ok m \<longleftrightarrow> layout_ok (id_base (mp_id m)) (8 * mp_size m) m \<and> mp_size m \<le> 4096
     \<and> mp_id m \<le> 255 \<and> hf_bits (mp_x m) \<noteq> 0 \<and> hf_bits (mp_y m) \<noteq> 0 \<and> mp_buttons m \<noteq> []"

lemma parsed_profile_ok:
  assumes "m \<in> set (parse_mouse_descriptor bs)"
  shows "profile_ok m"
proof -
  obtain st i where st: "parse_items parser_init bs = Some st" and m: "(i, m) \<in> set (ps_profiles st)"
    and xy: "hf_bits (mp_x m) \<noteq> 0" "hf_bits (mp_y m) \<noteq> 0" "mp_buttons m \<noteq> []"
    using assms
    by (cases "parse_items parser_init bs") (auto simp: parse_mouse_descriptor_def split: if_splits)
  have ok: "parser_ok st" by (rule parse_items_ok [OF st parser_ok_init])
  then have "map_of (ps_profiles st) i = Some m" using m by (simp add: parser_ok_def smap_mem_iff)
  then obtain off where off: "mp_id m = i" "i \<le> 255" "off \<le> 32768" "mp_size m = (off + 7) div 8"
    "layout_ok (id_base i) off m"
    using parser_okD(1) [OF ok] by blast
  have "off \<le> 8 * mp_size m" "mp_size m \<le> 4096" using off(3,4) by auto
  with off xy show ?thesis by (auto simp: profile_ok_def intro: layout_ok_mono)
qed

subsection \<open>The encoder\<close>

text \<open>Writing one role's field leaves the bytes outside it, and every other role, alone.\<close>

lemma in_rangeI: "hf_min f \<le> v \<Longrightarrow> v \<le> hf_max f \<Longrightarrow> in_range f v"
  by (simp add: in_range_def)

lemma inside_congs [simp]: "inside f (snd (hid_put g p v)) = inside f p"
  by (simp add: inside_def)

lemma length_put_list [simp]: "length (fold (\<lambda>f q. snd (hid_put f q 0)) fs p) = length p"
  by (induction fs arbitrary: p) simp_all

lemma length_clear_relative [simp]: "length (clear_relative m p) = length p"
  by (simp add: clear_relative_def)

lemma length_put_button [simp]: "length (put_button msk e p) = length p"
  by (cases e) simp

lemma length_put_button_list [simp]: "length (fold (put_button msk) bs p) = length p"
  by (induction bs arbitrary: p) simp_all

lemma length_put_buttons [simp]: "length (put_buttons m p msk) = length p"
  by (simp add: put_buttons_def)

text \<open>A bit below every written field keeps its value.\<close>

lemma bit_at_hid_put_other:
  assumes "inside f p" and "k < hf_offset f \<or> hf_offset f + hf_bits f \<le> k"
  shows "bit_at (snd (hid_put f p v)) k = bit_at p k"
  using assms by (auto simp: hid_put_def bit_at_write_bits inside_def)

lemma bit_at_clear_list:
  assumes "\<forall>f\<in>set fs. inside f p \<and> lo \<le> hf_offset f" and "k < lo"
  shows "bit_at (fold (\<lambda>f q. snd (hid_put f q 0)) fs p) k = bit_at p k"
  using assms by (induction fs arbitrary: p) (auto simp: bit_at_hid_put_other)

lemma bit_at_put_buttons_list:
  assumes "\<forall>(b, f)\<in>set bs. inside f p \<and> lo \<le> hf_offset f" and "k < lo"
  shows "bit_at (fold (put_button msk) bs p) k = bit_at p k"
  using assms by (induction bs arbitrary: p) (auto simp: bit_at_hid_put_other)

text \<open>The button fields.\<close>

lemma inside_put_button [simp]: "inside f (put_button msk e p) = inside f p"
  by (simp add: inside_def)

lemma get_put_buttons_other:
  assumes "\<forall>(b, f)\<in>set bs. inside f p \<and> disjoint_fields f g"
  shows "hid_get g (fold (put_button msk) bs p) = hid_get g p"
  using assms by (induction bs arbitrary: p) (auto simp: hid_get_put_other)

lemma get_put_buttons:
  assumes "\<forall>(b, f)\<in>set bs. inside f p \<and> field_ok f \<and> in_range f (uint (drop_bit (b - 1) msk AND 1))"
    and "sorted_wrt (\<lambda>e e'. disjoint_fields (snd e') (snd e)) bs" and "(b, f) \<in> set bs"
  shows "hid_get f (fold (put_button msk) bs p) = uint (drop_bit (b - 1) msk AND 1)"
  using assms
proof (induction bs arbitrary: p)
  case (Cons e bs)
  show ?case
  proof (cases "e = (b, f)")
    case True
    let ?p = "put_button msk e p"
    have "hid_get f (fold (put_button msk) bs ?p) = hid_get f ?p"
      using Cons.prems True by (intro get_put_buttons_other) auto
    also have "\<dots> = uint (drop_bit (b - 1) msk AND 1)"
      using Cons.prems(1) True by (auto intro!: hid_put_get(2))
    finally show ?thesis by simp
  next
    case False
    with Cons.prems have "(b, f) \<in> set bs" by simp
    then have "hid_get f (fold (put_button msk) bs (put_button msk e p)) = uint (drop_bit (b - 1) msk AND 1)"
      using Cons.prems(1,2) by (intro Cons.IH) simp_all
    then show ?thesis by simp
  qed
qed simp

lemma bit_push_1: "bit (push_bit n 1 :: u8) j \<longleftrightarrow> j < 8 \<and> n = j"
  by (auto simp: bit_simps)

lemma bit_mask_list:
  "bit (fold (mask_step p) bs v) j
     \<longleftrightarrow> bit v j \<or> (\<exists>e\<in>set bs. j < 8 \<and> fst e - 1 = j \<and> hid_get (snd e) p \<noteq> 0)"
proof (induction bs arbitrary: v)
  case (Cons e bs)
  show ?case
    by (cases e) (auto simp: Cons bit_or_iff bit_push_1 simp del: push_bit_of_1)
qed simp

lemma bit_button_mask:
  "bit (button_mask m p) j
     \<longleftrightarrow> (\<exists>e\<in>set (mp_buttons m). j < 8 \<and> fst e - 1 = j \<and> hid_get (snd e) p \<noteq> 0)"
  by (simp add: button_mask_def bit_mask_list)

lemma bit_support_list:
  "bit (fold support_step bs v) j \<longleftrightarrow> bit v j \<or> (\<exists>e\<in>set bs. j < 8 \<and> fst e - 1 = j)"
proof (induction bs arbitrary: v)
  case (Cons e bs)
  show ?case
    by (cases e) (auto simp: Cons bit_or_iff bit_push_1 simp del: push_bit_of_1)
qed simp

lemma bit_supported_mask:
  "bit (supported_mask m) j \<longleftrightarrow> (\<exists>e\<in>set (mp_buttons m). j < 8 \<and> fst e - 1 = j)"
  by (simp add: supported_mask_def bit_support_list)

lemma put_axis_get:
  assumes "hf_bits f \<noteq> 0 \<longrightarrow> field_ok f \<and> inside f p" and "if hf_bits f = 0 then v = 0 else in_range f v"
  shows "hid_put f p v = (True, snd (hid_put f p v))" and "hid_get f (snd (hid_put f p v)) = v"
  using assms hid_put_get [of f p v]
  by (auto simp: hid_put_def hid_get_def prod_eq_iff in_range_def split: if_splits)

lemma get_put_axis_other:
  assumes "hf_bits f \<noteq> 0 \<longrightarrow> inside f p" and "hf_bits f \<noteq> 0 \<longrightarrow> hf_bits g \<noteq> 0 \<longrightarrow> disjoint_fields f g"
  shows "hid_get g (snd (hid_put f p v)) = hid_get g p"
proof (cases "hf_bits f = 0 \<or> hf_bits g = 0")
  case True
  then show ?thesis by (auto simp: hid_put_def hid_get_def)
next
  case False
  with assms show ?thesis by (intro hid_get_put_other) auto
qed

text \<open>Buttons are declared as the values 0 and 1, as every mouse descriptor does.\<close>

definition binary_buttons :: "mouse_profile \<Rightarrow> bool" where
  "binary_buttons m \<longleftrightarrow> (\<forall>e\<in>set (mp_buttons m). hf_min (snd e) = 0)"

definition axis_fits :: "hid_field \<Rightarrow> int \<Rightarrow> bool" where
  "axis_fits f v \<longleftrightarrow> (if hf_bits f = 0 then v = 0 else in_range f v)"

definition command_fits :: "mouse_profile \<Rightarrow> mouse_command \<Rightarrow> bool" where
  "command_fits m c \<longleftrightarrow> axis_fits (mp_x m) (cmd_x c) \<and> axis_fits (mp_y m) (cmd_y c)
     \<and> axis_fits (mp_wheel m) (cmd_wheel c) \<and> axis_fits (mp_pan m) (cmd_pan c)"

lemma profile_fields:
  assumes "profile_ok m" and "mp_size m \<le> length p"
  shows "role m k = Some f \<Longrightarrow> field_ok f \<and> inside f p \<and> id_base (mp_id m) \<le> hf_offset f"
    and "f \<in> set (mp_relative m) \<Longrightarrow> inside f p \<and> id_base (mp_id m) \<le> hf_offset f"
    and "k \<noteq> k' \<Longrightarrow> role m k = Some f \<Longrightarrow> role m k' = Some f' \<Longrightarrow> disjoint_fields f f'"
    and "e \<in> set (mp_buttons m) \<Longrightarrow> role m (Role_Button (fst e)) = Some (snd e)"
    and "e \<in> set (mp_buttons m) \<Longrightarrow> 1 \<le> fst e \<and> fst e \<le> 8 \<and> hf_bits (snd e) = 1"
proof -
  have l: "layout_ok (id_base (mp_id m)) (8 * mp_size m) m" using assms by (simp add: profile_ok_def)
  note l = layout_okD [OF l]
  show "role m k = Some f \<Longrightarrow> field_ok f \<and> inside f p \<and> id_base (mp_id m) \<le> hf_offset f"
    using l(1) assms(2) by (fastforce simp: within_def inside_def)
  show "f \<in> set (mp_relative m) \<Longrightarrow> inside f p \<and> id_base (mp_id m) \<le> hf_offset f"
    using l(3) assms(2) by (fastforce simp: within_def inside_def)
  show "k \<noteq> k' \<Longrightarrow> role m k = Some f \<Longrightarrow> role m k' = Some f' \<Longrightarrow> disjoint_fields f f'"
    by (rule l(2))
  show "e \<in> set (mp_buttons m) \<Longrightarrow> role m (Role_Button (fst e)) = Some (snd e)"
    using l(5) by (cases e) (simp add: smap_mem_iff)
  show "e \<in> set (mp_buttons m) \<Longrightarrow> 1 \<le> fst e \<and> fst e \<le> 8 \<and> hf_bits (snd e) = 1"
    using l(6) by (cases e) auto
qed

lemma buttons_disjoint:
  assumes "profile_ok m"
  shows "sorted_wrt (\<lambda>e e'. disjoint_fields (snd e') (snd e)) (mp_buttons m)"
proof -
  let ?p = "replicate (mp_size m) 0 :: bytes"
  have l: "mp_size m \<le> length ?p" by simp
  have "smap_ok (mp_buttons m)" using assms by (auto simp: profile_ok_def layout_ok_def)
  then have "sorted_wrt (\<lambda>e e'. fst e < fst e') (mp_buttons m)"
    by (simp add: smap_ok_def sorted_wrt_map)
  then show ?thesis
  proof (rule sorted_wrt_mono_rel [rotated])
    fix e e' assume e: "e \<in> set (mp_buttons m)" "e' \<in> set (mp_buttons m)" "fst e < fst e'"
    show "disjoint_fields (snd e') (snd e)"
      by (rule profile_fields(3) [OF assms l _ profile_fields(4) [OF assms l e(2)]
          profile_fields(4) [OF assms l e(1)]]) (use e(3) in simp)
  qed
qed

lemma button_level:
  assumes "profile_ok m" and "binary_buttons m" and "e \<in> set (mp_buttons m)"
  shows "in_range (snd e) (uint (drop_bit (fst e - 1) (msk :: u8) AND 1))" and "field_ok (snd e)"
proof -
  let ?p = "replicate (mp_size m) 0 :: bytes"
  have l: "mp_size m \<le> length ?p" by simp
  have f: "field_ok (snd e)" "hf_bits (snd e) = 1"
    using profile_fields(1) [OF assms(1) l profile_fields(4) [OF assms(1) l assms(3)]]
      profile_fields(5) [OF assms(1) l assms(3)] by blast+
  have "hf_min (snd e) = 0" using assms by (simp add: binary_buttons_def)
  moreover have "drop_bit (fst e - 1) msk AND 1 = of_bool (bit msk (fst e - 1))"
    by (simp add: and_one_eq bit_iff_odd_drop_bit odd_iff_mod_2_eq_one)
  ultimately show "in_range (snd e) (uint (drop_bit (fst e - 1) (msk :: u8) AND 1))"
    using f by (auto simp: in_range_def field_ok_def)
  show "field_ok (snd e)" by (rule f(1))
qed

lemma axis_fields:
  assumes "profile_ok m" and "mp_size m \<le> length p" and "is_axis k" and "role m k = present f"
  shows "hf_bits f \<noteq> 0 \<longrightarrow> field_ok f \<and> inside f p" and "hf_bits f \<noteq> 0 \<longrightarrow> inside f p"
    and "hf_bits f \<noteq> 0 \<longrightarrow> id_base (mp_id m) \<le> hf_offset f"
  using profile_fields(1) [OF assms(1,2), of k f] assms(4) by (auto simp: present_def)

lemma axis_fields_disjoint:
  assumes "profile_ok m" and "k \<noteq> k'" and "role m k = present f" and "role m k' = present g"
  shows "hf_bits f \<noteq> 0 \<longrightarrow> hf_bits g \<noteq> 0 \<longrightarrow> disjoint_fields f g"
proof -
  let ?p = "replicate (mp_size m) 0 :: bytes"
  have l: "mp_size m \<le> length ?p" by simp
  show ?thesis using profile_fields(3) [OF assms(1) l assms(2)] assms(3,4) by (auto simp: present_def)
qed

text \<open>The report after an encoding, in the order of the writes.\<close>

definition encoded :: "mouse_profile \<Rightarrow> mouse_command \<Rightarrow> bytes \<Rightarrow> bytes" where
  "encoded m c p = snd (hid_put (mp_pan m) (snd (hid_put (mp_wheel m) (snd (hid_put (mp_y m)
     (snd (hid_put (mp_x m) (put_buttons m (clear_relative m p) (cmd_buttons c)) (cmd_x c))) (cmd_y c)))
     (cmd_wheel c))) (cmd_pan c))"

lemma length_encoded [simp]: "length (encoded m c p) = length p"
  by (simp add: encoded_def)

lemma fst_hid_put: "axis_fits f v \<Longrightarrow> fst (hid_put f p v)"
  by (auto simp: axis_fits_def hid_put_def in_range_def split: if_splits)

lemma encode_encoded: "command_fits m c \<Longrightarrow> encode m c p = (True, encoded m c p)"
  by (auto simp: encode_def encoded_def command_fits_def Let_def fst_hid_put prod_eq_iff split: prod.split
      dest: fst_hid_put)

lemma length_put_clear [simp]: "length (put_buttons m (clear_relative m p) b) = length p"
  by simp

lemma get_encoded_axes:
  assumes ok: "profile_ok m" and len: "mp_size m \<le> length p" and fits: "command_fits m c"
  shows "hid_get (mp_x m) (encoded m c p) = cmd_x c" "hid_get (mp_y m) (encoded m c p) = cmd_y c"
    "hid_get (mp_wheel m) (encoded m c p) = cmd_wheel c" "hid_get (mp_pan m) (encoded m c p) = cmd_pan c"
proof -
  have fit: "axis_fits (mp_x m) (cmd_x c)" "axis_fits (mp_y m) (cmd_y c)"
    "axis_fits (mp_wheel m) (cmd_wheel c)" "axis_fits (mp_pan m) (cmd_pan c)"
    using fits by (simp_all add: command_fits_def)
  note own = axis_fields(1) [OF ok, THEN put_axis_get(2)] and ax = is_axis_def
  note ins = axis_fields(2) [OF ok] and dis = axis_fields_disjoint [OF ok]
  have X: "hid_get (mp_x m) (snd (hid_put (mp_x m) q (cmd_x c))) = cmd_x c" if "mp_size m \<le> length q" for q
    by (rule own [of q Role_X]) (use that fit in \<open>auto simp: ax axis_fits_def\<close>)
  have Y: "hid_get (mp_y m) (snd (hid_put (mp_y m) q (cmd_y c))) = cmd_y c" if "mp_size m \<le> length q" for q
    by (rule own [of q Role_Y]) (use that fit in \<open>auto simp: ax axis_fits_def\<close>)
  have W: "hid_get (mp_wheel m) (snd (hid_put (mp_wheel m) q (cmd_wheel c))) = cmd_wheel c"
    if "mp_size m \<le> length q" for q
    by (rule own [of q Role_Wheel]) (use that fit in \<open>auto simp: ax axis_fits_def\<close>)
  have P: "hid_get (mp_pan m) (snd (hid_put (mp_pan m) q (cmd_pan c))) = cmd_pan c"
    if "mp_size m \<le> length q" for q
    by (rule own [of q Role_Pan]) (use that fit in \<open>auto simp: ax axis_fits_def\<close>)
  have skip_Y: "hid_get (mp_x m) (snd (hid_put (mp_y m) q v)) = hid_get (mp_x m) q" if "mp_size m \<le> length q" for q v
    by (rule get_put_axis_other [OF ins [of q Role_Y] dis [of Role_Y Role_X]]) (use that in \<open>simp_all add: ax\<close>)
  have skip_W: "hid_get g (snd (hid_put (mp_wheel m) q v)) = hid_get g q"
    if "mp_size m \<le> length q" "role m k = present g" "k \<noteq> Role_Wheel" for q v g k
    by (rule get_put_axis_other [OF ins [of q Role_Wheel] dis [of Role_Wheel k]]) (use that in \<open>simp_all add: ax\<close>)
  have skip_P: "hid_get g (snd (hid_put (mp_pan m) q v)) = hid_get g q"
    if "mp_size m \<le> length q" "role m k = present g" "k \<noteq> Role_Pan" for q v g k
    by (rule get_put_axis_other [OF ins [of q Role_Pan] dis [of Role_Pan k]]) (use that in \<open>simp_all add: ax\<close>)
  show "hid_get (mp_x m) (encoded m c p) = cmd_x c"
    by (simp add: encoded_def len X skip_Y skip_W [of _ Role_X] skip_P [of _ Role_X])
  show "hid_get (mp_y m) (encoded m c p) = cmd_y c"
    by (simp add: encoded_def len Y skip_W [of _ Role_Y] skip_P [of _ Role_Y])
  show "hid_get (mp_wheel m) (encoded m c p) = cmd_wheel c"
    by (simp add: encoded_def len W skip_P [of _ Role_Wheel])
  show "hid_get (mp_pan m) (encoded m c p) = cmd_pan c"
    by (simp add: encoded_def len P)
qed

lemma get_encoded_button:
  assumes ok: "profile_ok m" and len: "mp_size m \<le> length p" and bin: "binary_buttons m"
    and e: "e \<in> set (mp_buttons m)"
  shows "hid_get (snd e) (encoded m c p) = uint (drop_bit (fst e - 1) (cmd_buttons c) AND 1)"
proof -
  let ?q = "clear_relative m p"
  let ?k = "Role_Button (fst e)"
  have lq: "mp_size m \<le> length ?q" using len by simp
  have skip: "hid_get (snd e) (snd (hid_put f q v)) = hid_get (snd e) q"
    if "mp_size m \<le> length q" "role m k = present f" "is_axis k" for f q v k
  proof (cases "hf_bits f = 0")
    case False
    then have f: "role m k = Some f" and ne: "k \<noteq> ?k" using that by (auto simp: present_def is_axis_def)
    show ?thesis
      by (rule hid_get_put_other [OF profile_fields(3) [OF ok that(1) ne f profile_fields(4) [OF ok that(1) e]]])
        (use profile_fields(1) [OF ok that(1) f] in simp)
  qed (simp add: hid_put_def)
  have "hid_get (snd e) (encoded m c p) = hid_get (snd e) (put_buttons m ?q (cmd_buttons c))"
    by (simp add: encoded_def skip [of _ Role_X] skip [of _ Role_Y] skip [of _ Role_Wheel]
        skip [of _ Role_Pan] len is_axis_def)
  also have "\<dots> = uint (drop_bit (fst e - 1) (cmd_buttons c) AND 1)"
    unfolding put_buttons_def
  proof (rule get_put_buttons [OF _ buttons_disjoint [OF ok]])
    show "(fst e, snd e) \<in> set (mp_buttons m)" using e by simp
    show "\<forall>(b, f)\<in>set (mp_buttons m). inside f ?q \<and> field_ok f
        \<and> in_range f (uint (drop_bit (b - 1) (cmd_buttons c) AND 1))"
    proof safe
      fix b f assume bf: "(b, f) \<in> set (mp_buttons m)"
      show "inside f ?q"
        using profile_fields(1) [OF ok lq profile_fields(4) [OF ok lq bf]] by simp
      show "field_ok f" "in_range f (uint (drop_bit (b - 1) (cmd_buttons c) AND 1))"
        using button_level [OF ok bin bf] by simp_all
    qed
  qed
  finally show ?thesis .
qed

lemma drop_bit_and_1_int: "uint (drop_bit i (w :: u8) AND 1) \<noteq> 0 \<longleftrightarrow> bit w i"
  by (simp only: uint_0_iff drop_bit_and_1)

lemma button_mask_encoded:
  assumes "profile_ok m" and "mp_size m \<le> length p" and "binary_buttons m"
  shows "button_mask m (encoded m c p) = cmd_buttons c AND supported_mask m"
proof (rule bit_word_eqI)
  fix j :: nat assume j: "j < LENGTH(8)"
  have "hid_get (snd e) (encoded m c p) \<noteq> 0 \<longleftrightarrow> bit (cmd_buttons c) (fst e - 1)"
    if "e \<in> set (mp_buttons m)" for e
    by (simp only: get_encoded_button [OF assms that] drop_bit_and_1_int)
  with j show "bit (button_mask m (encoded m c p)) j = bit (cmd_buttons c AND supported_mask m) j"
    by (auto simp: bit_button_mask bit_supported_mask bit_and_iff)
qed

text \<open>The report-ID byte lies before every field.\<close>

lemma byte_eqI: "(\<And>j. j < 8 \<Longrightarrow> bit_at p j = bit_at q j) \<Longrightarrow> (p ! 0 :: u8) = q ! 0"
  by (rule bit_word_eqI) (simp add: bit_at_def)

lemma bit_at_axis_below:
  assumes "profile_ok m" and "mp_size m \<le> length q" and "is_axis k" and "role m k = present f"
    and "j < id_base (mp_id m)"
  shows "bit_at (snd (hid_put f q v)) j = bit_at q j"
  using axis_fields(2,3) [OF assms(1-4)] assms(5) bit_at_hid_put_other [of f q j v]
  by (cases "hf_bits f = 0") (auto simp: hid_put_def)

lemma encoded_id:
  assumes ok: "profile_ok m" and len: "mp_size m \<le> length p" and "mp_id m \<noteq> 0"
  shows "encoded m c p ! 0 = p ! 0"
proof (rule byte_eqI)
  fix j :: nat assume "j < 8"
  then have j: "j < id_base (mp_id m)" using assms(3) by (simp add: id_base_def)
  have len': "mp_size m \<le> length (clear_relative m p)" using len by simp
  have "bit_at (encoded m c p) j = bit_at (put_buttons m (clear_relative m p) (cmd_buttons c)) j"
    using len
    by (simp add: encoded_def is_axis_def j bit_at_axis_below [OF ok, of _ Role_X] bit_at_axis_below [OF ok, of _ Role_Y]
        bit_at_axis_below [OF ok, of _ Role_Wheel] bit_at_axis_below [OF ok, of _ Role_Pan])
  also have "\<dots> = bit_at (clear_relative m p) j"
    unfolding put_buttons_def
    by (rule bit_at_put_buttons_list [OF _ j])
      (use profile_fields(1) [OF ok len' profile_fields(4) [OF ok len']] in fastforce)
  also have "\<dots> = bit_at p j"
    unfolding clear_relative_def
    by (rule bit_at_clear_list [OF _ j]) (use profile_fields(2) [OF ok len] in blast)
  finally show "bit_at (encoded m c p) j = bit_at p j" .
qed

text \<open>Clearing the relative fields zeroes exactly their bits.\<close>

definition in_field :: "hid_field \<Rightarrow> nat \<Rightarrow> bool" where
  "in_field f k \<longleftrightarrow> hf_offset f \<le> k \<and> k < hf_offset f + hf_bits f"

lemma bit_at_put_0:
  assumes "field_ok f" and "inside f p"
  shows "bit_at (snd (hid_put f p 0)) k \<longleftrightarrow> bit_at p k \<and> \<not> in_field f k"
  using assms by (auto simp: hid_put_def bit_at_write_bits inside_def field_ok_def in_field_def)

lemma bit_at_clear:
  assumes "\<forall>f\<in>set fs. field_ok f \<and> inside f p"
  shows "bit_at (fold (\<lambda>f q. snd (hid_put f q 0)) fs p) k \<longleftrightarrow> bit_at p k \<and> (\<forall>f\<in>set fs. \<not> in_field f k)"
  using assms by (induction fs arbitrary: p) (auto simp: bit_at_put_0)

lemma get_clear_relative:
  assumes ok: "profile_ok m" and len: "mp_size m \<le> length p" and f: "f \<in> set (mp_relative m)"
  shows "hid_get f (clear_relative m p) = 0"
proof -
  have fs: "\<forall>f\<in>set (mp_relative m). field_ok f \<and> inside f p"
    using profile_fields(2) [OF ok len] layout_okD(3) [of "id_base (mp_id m)" "8 * mp_size m" m] ok
    by (auto simp: profile_ok_def within_def)
  have "hid_get f (clear_relative m p) = (if hf_min f < 0 then signed_take_bit (hf_bits f - 1) 0
      else take_bit (hf_bits f) 0)"
  proof (rule hid_get_bits)
    show "field_ok f" using fs f by blast
    fix j assume "j < hf_bits f"
    then have "in_field f (hf_offset f + j)" by (simp add: in_field_def)
    then show "bit_at (clear_relative m p) (hf_offset f + j) = bit (word_of_int 0 :: u32) j"
      using f by (auto simp: clear_relative_def bit_at_clear [OF fs])
  qed
  then show ?thesis by simp
qed

lemma get_clear_axes:
  assumes ok: "profile_ok m" and len: "mp_size m \<le> length p" and k: "is_axis k" "role m k = present f"
  shows "hid_get f (clear_relative m p) = 0"
proof (cases "hf_bits f = 0")
  case False
  with k have "role m k = Some f" by (simp add: present_def)
  then have "f \<in> set (mp_relative m)"
    using ok k(1) by (auto simp: profile_ok_def dest!: layout_okD(4))
  then show ?thesis by (rule get_clear_relative [OF ok len])
qed (simp add: hid_get_def)

subsection \<open>Every part of a split can be encoded\<close>

lemma profile_axes_ok: "profile_ok m \<Longrightarrow> axes_ok m"
  unfolding axes_ok_def axis_ok_def
  using axis_fields(1) [of m "replicate (mp_size m) 0"]
  by (force simp: is_axis_def field_ok_def)

lemma take_axis_fits: "axis_ok f \<Longrightarrow> take_axis f n = Some (v, n') \<Longrightarrow> axis_fits f v"
  by (auto simp: take_axis_def axis_ok_def axis_fits_def in_range_def Let_def split: if_splits)

lemma take_report_fits: "axes_ok m \<Longrightarrow> take_report m c = Some (part, c') \<Longrightarrow> command_fits m part"
  by (auto simp: take_report_def axes_ok_def command_fits_def split: option.splits)
    (blast intro: take_axis_fits)+

lemma split_loop_fits:
  assumes "split_loop m c k = Some parts" and "axes_ok m"
  shows "\<forall>q\<in>set parts. command_fits m q"
  using assms
proof (induction m c k arbitrary: parts rule: split_loop.induct)
  case (2 m c k)
  then show ?case
    using take_report_fits by (auto split: option.splits if_splits)
qed simp

end
