(* ===== verification/Mouse_Mixer.thy ===== *)
theory Mouse_Mixer
  imports Mouse_Layout
begin

text \<open>
  \<open>mouse_mixer.h\<close> and \<open>mouse_mixer.cpp\<close>: the registry of mouse endpoints and the mixer that joins
  physical reports and queued synthetic commands into the reports written to the host. The
  globals of the source are the fields of the record \<open>mixer\<close>; each function is one
  state transformer, run under the registry mutex in the source, so atomic. Clock readings are
  arguments. A \<open>thread_info\<close> is shared with the reader and writer threads, so endpoints
  refer to it by a pointer into \<open>mx_threads\<close>. Condition variables carry no state.
\<close>

datatype report_kind = RK_None | RK_Movement | RK_Persistent | RK_ClickPress | RK_ClickRelease
  | RK_ReleaseAll | RK_TransactionOut | RK_TransactionPress | RK_TransactionRelease | RK_TransactionReturn

fun kind_code :: "report_kind \<Rightarrow> u8" where
  "kind_code RK_None = 0" | "kind_code RK_Movement = 1" | "kind_code RK_Persistent = 2"
| "kind_code RK_ClickPress = 3" | "kind_code RK_ClickRelease = 4" | "kind_code RK_ReleaseAll = 5"
| "kind_code RK_TransactionOut = 6" | "kind_code RK_TransactionPress = 7"
| "kind_code RK_TransactionRelease = 8" | "kind_code RK_TransactionReturn = 9"

text \<open>The test \<open>kind >= REPORT_TRANSACTION_OUT\<close>.\<close>

definition transaction :: "report_kind \<Rightarrow> bool" where
  "transaction k \<longleftrightarrow> kind_code k \<ge> kind_code RK_TransactionOut"

datatype enqueue_result = ER_Ok | ER_NotReady | ER_Unsupported | ER_QueueFull

record snapshot =
  es_ready :: bool
  es_physical :: u8
  es_persistent :: u8
  es_scheduled :: u8
  es_supported :: u8
  es_xmin :: int
  es_xmax :: int
  es_ymin :: int
  es_ymax :: int
  es_physical_dx :: int
  es_physical_dy :: int
  es_poll_us :: u32
  es_physical_age_us :: u32
  es_physical_received :: u32
  es_physical_submitted :: u32
  es_superseded :: u32
  es_writer_failures :: u32
  es_output_queue :: u16
  es_synthetic_pending :: u16
  es_generation :: u64
  es_snapshot_ns :: u64
  es_last_motion_ns :: u64
  es_p99_residence_ns :: u64
  es_activity :: u64
  es_layout :: u64
  es_cumulative_x :: int
  es_cumulative_y :: int

definition no_snapshot :: snapshot where
  "no_snapshot = \<lparr>es_ready = False, es_physical = 0, es_persistent = 0, es_scheduled = 0,
     es_supported = 0, es_xmin = 0, es_xmax = 0, es_ymin = 0, es_ymax = 0, es_physical_dx = 0,
     es_physical_dy = 0, es_poll_us = 1000, es_physical_age_us = 0xffffffff,
     es_physical_received = 0, es_physical_submitted = 0, es_superseded = 0,
     es_writer_failures = 0, es_output_queue = 0, es_synthetic_pending = 0, es_generation = 0,
     es_snapshot_ns = 0, es_last_motion_ns = 0, es_p99_residence_ns = 0, es_activity = 0,
     es_layout = 0, es_cumulative_x = 0, es_cumulative_y = 0\<rparr>"

record writer_event =
  we_session :: u64
  we_command :: u64
  we_generation :: u64
  we_written_ns :: u64
  we_index :: u32
  we_kind :: report_kind
  we_button :: u8
  we_blocked :: bool
  we_final_buttons :: u8
  we_success :: bool
  we_dx :: int
  we_dy :: int
  we_finished :: bool

text \<open>
  \<open>usb_raw_transfer_io\<close>: the buffer and the metadata beside it. Bytes used as flags are \<open>bool\<close>.
\<close>

definition MAX_TRANSFER_SIZE :: nat where
  "MAX_TRANSFER_SIZE = 4096"

record transfer_io =
  io_ep :: int
  io_length :: nat
  io_data :: bytes
  io_generation :: u64
  io_instance :: u64
  io_session :: u64
  io_command :: u64
  io_item :: u64
  io_queued_ns :: u64
  io_index :: u32
  io_synthetic_x :: int
  io_synthetic_y :: int
  io_synthetic_wheel :: int
  io_synthetic_pan :: int
  io_physical_x :: int
  io_physical_y :: int
  io_physical_wheel :: int
  io_physical_pan :: int
  io_persistent :: u8
  io_scheduled :: u8
  io_physical_buttons :: u8
  io_kind :: report_kind
  io_button :: u8
  io_blocked :: bool
  io_final_buttons :: u8
  io_managed :: bool
  io_physical :: bool
  io_match :: bool
  io_standalone :: bool
  io_competing :: bool
  io_apply_buttons :: bool

definition no_io :: transfer_io where
  "no_io = \<lparr>io_ep = 0, io_length = 0, io_data = replicate MAX_TRANSFER_SIZE 0, io_generation = 0,
     io_instance = 0, io_session = 0, io_command = 0, io_item = 0, io_queued_ns = 0, io_index = 0,
     io_synthetic_x = 0, io_synthetic_y = 0, io_synthetic_wheel = 0, io_synthetic_pan = 0,
     io_physical_x = 0, io_physical_y = 0, io_physical_wheel = 0, io_physical_pan = 0,
     io_persistent = 0, io_scheduled = 0, io_physical_buttons = 0, io_kind = RK_None, io_button = 0,
     io_blocked = False, io_final_buttons = 0, io_managed = False, io_physical = False,
     io_match = False, io_standalone = False, io_competing = False, io_apply_buttons = False\<rparr>"

text \<open>The part of \<open>thread_info\<close> the mixer uses; a null \<open>mouse_synthetic_pending\<close> is \<open>None\<close>.\<close>

record mouse_thread =
  th_ep_num :: int
  th_address :: int
  th_queue :: "transfer_io list"
  th_poll_us :: u32
  th_mouse :: bool
  th_pending :: "bool option"

definition MAX_SYNTHETIC_ITEMS :: nat where
  "MAX_SYNTHETIC_ITEMS = 8"

definition MAX_WRITER_EVENTS :: nat where
  "MAX_WRITER_EVENTS = 32"

definition MAX_RESIDENCE_SAMPLES :: nat where
  "MAX_RESIDENCE_SAMPLES = 1024"

definition UINT64_MAX :: u64 where
  "UINT64_MAX = 0xffffffffffffffff"

definition saturate32 :: "u64 \<Rightarrow> u32" where
  "saturate32 v = ucast (min v 0xffffffff)"

definition saturate16 :: "nat \<Rightarrow> u16" where
  "saturate16 n = of_nat (min n 65535)"

definition saturating_add :: "int \<Rightarrow> int \<Rightarrow> int" where
  "saturating_add v d =
    (if d > 0 \<and> v > 9223372036854775807 - d then 9223372036854775807
     else if d < 0 \<and> v < -9223372036854775808 - d then -9223372036854775808
     else v + d)"

record synthetic_item =
  si_id :: u64
  si_generation :: u64
  si_deadline :: u64
  si_barrier :: u64
  si_session :: u64
  si_command :: u64
  si_guard :: u64
  si_index :: u32
  si_remaining :: mouse_command
  si_persistent :: u8
  si_scheduled :: u8
  si_button :: u8
  si_kind :: report_kind
  si_latest :: bool
  si_committed :: bool

record endpoint =
  en_info :: nat
  en_interface :: int
  en_profile :: mouse_profile
  en_latest :: bytes
  en_template :: bytes
  en_synthetic :: "synthetic_item list"
  en_residence :: "u64 list"
  en_physical :: u8
  en_submitted :: u8
  en_persistent :: u8
  en_scheduled :: u8
  en_dx :: int
  en_dy :: int
  en_cumulative_x :: int
  en_cumulative_y :: int
  en_generation :: u64
  en_instance :: u64
  en_next_item :: u64
  en_barrier :: u64
  en_last_motion :: u64
  en_physical_received :: u64
  en_physical_submitted :: u64
  en_superseded :: u64
  en_failures :: u64
  en_activity :: u64
  en_successes :: nat
  en_inflight :: bool
  en_inflight_id :: u64

definition no_endpoint :: endpoint where
  "no_endpoint = \<lparr>en_info = 0, en_interface = 0, en_profile = no_profile, en_latest = [],
     en_template = [], en_synthetic = [], en_residence = [], en_physical = 0, en_submitted = 0,
     en_persistent = 0, en_scheduled = 0, en_dx = 0, en_dy = 0, en_cumulative_x = 0,
     en_cumulative_y = 0, en_generation = 0, en_instance = 0, en_next_item = 1, en_barrier = 0,
     en_last_motion = 0, en_physical_received = 0, en_physical_submitted = 0, en_superseded = 0,
     en_failures = 0, en_activity = 0, en_successes = 0, en_inflight = False, en_inflight_id = 0\<rparr>"

record mixer =
  mx_next_generation :: u64
  mx_next_instance :: u64
  mx_endpoints :: "(int \<times> endpoint) list"
  mx_descriptors :: "(int \<times> mouse_profile list) list"
  mx_reports :: "(int \<times> mouse_profile list) list"
  mx_boot :: "(int \<times> bool) list"
  mx_selected :: int
  mx_events :: "writer_event list"
  mx_overflow :: bool
  mx_threads :: "nat \<Rightarrow> mouse_thread"

subsection \<open>Helpers\<close>

definition update_pending :: "endpoint \<Rightarrow> mixer \<Rightarrow> mixer" where
  "update_pending ep mx =
    (let th = mx_threads mx (en_info ep)
     in case th_pending th of
          None \<Rightarrow> mx
        | Some _ \<Rightarrow> mx\<lparr>mx_threads := (mx_threads mx)
            (en_info ep := th\<lparr>th_pending := Some (en_synthetic ep \<noteq> [])\<rparr>)\<rparr>)"

definition put_endpoint :: "int \<Rightarrow> endpoint \<Rightarrow> mixer \<Rightarrow> mixer" where
  "put_endpoint a ep mx = mx\<lparr>mx_endpoints := smap_put a ep (mx_endpoints mx)\<rparr>"

text \<open>Reading \<open>descriptors[number]\<close> also inserts an empty list there, which nothing observes.\<close>

definition matching_profile :: "mixer \<Rightarrow> endpoint \<Rightarrow> bytes \<Rightarrow> nat \<Rightarrow> mouse_profile option" where
  "matching_profile mx ep data n =
    find (\<lambda>m. matches m data n \<and> (en_latest ep = [] \<or> mp_id m = mp_id (en_profile ep)))
      (smap_at [] (mx_descriptors mx) (en_interface ep))"

definition field_fits :: "hid_field \<Rightarrow> int \<Rightarrow> int \<Rightarrow> bool" where
  "field_fits f physical synthetic =
    (if synthetic = 0 then True else if hf_bits f = 0 then False
     else let result = physical + synthetic in result \<ge> hf_min f \<and> result \<le> hf_max f)"

definition motion_fits :: "mouse_profile \<Rightarrow> transfer_io \<Rightarrow> mouse_command \<Rightarrow> bool" where
  "motion_fits m io c \<longleftrightarrow> field_fits (mp_x m) (io_physical_x io) (cmd_x c)
     \<and> field_fits (mp_y m) (io_physical_y io) (cmd_y c)
     \<and> field_fits (mp_wheel m) (io_physical_wheel io) (cmd_wheel c)
     \<and> field_fits (mp_pan m) (io_physical_pan io) (cmd_pan c)"

definition apply_known_fields ::
    "mouse_profile \<Rightarrow> transfer_io \<Rightarrow> int \<Rightarrow> int \<Rightarrow> int \<Rightarrow> int \<Rightarrow> u8 \<Rightarrow> transfer_io" where
  "apply_known_fields m io x y wheel pan buttons =
    (let p = snd (hid_put (mp_x m) (io_data io) x); p = snd (hid_put (mp_y m) p y);
         p = snd (hid_put (mp_wheel m) p wheel); p = snd (hid_put (mp_pan m) p pan)
     in io\<lparr>io_data := put_buttons m p buttons\<rparr>)"

definition describe_synthetic ::
    "endpoint \<Rightarrow> synthetic_item \<Rightarrow> transfer_io \<Rightarrow> mouse_command \<Rightarrow> bool \<Rightarrow> bool \<Rightarrow> bool
     \<Rightarrow> transfer_io \<times> endpoint" where
  "describe_synthetic ep item io applied apply_buttons standalone competing =
    (let io = io\<lparr>io_managed := True, io_generation := en_generation ep, io_item := si_id item,
           io_instance := en_instance ep, io_session := si_session item,
           io_command := si_command item, io_index := si_index item, io_button := si_button item,
           io_kind := si_kind item, io_persistent := si_persistent item,
           io_scheduled := si_scheduled item, io_synthetic_x := cmd_x applied,
           io_synthetic_y := cmd_y applied, io_synthetic_wheel := cmd_wheel applied,
           io_synthetic_pan := cmd_pan applied, io_apply_buttons := apply_buttons,
           io_standalone := standalone, io_competing := competing\<rparr>;
         io = (if (si_kind item = RK_ClickPress \<or> si_kind item = RK_TransactionPress)
                  \<and> si_button item \<noteq> 0
               then io\<lparr>io_blocked := ((en_submitted ep OR en_persistent ep OR en_scheduled ep)
                      AND push_bit (unat (si_button item) - 1) 1) \<noteq> 0\<rparr>
               else io)
     in (io, ep\<lparr>en_inflight := True, en_inflight_id := si_id item\<rparr>))"

definition finished_item :: "synthetic_item \<Rightarrow> bool" where
  "finished_item i \<longleftrightarrow> no_motion (si_remaining i) \<and> si_committed i"

definition remove_finished_front :: "endpoint \<Rightarrow> endpoint" where
  "remove_finished_front ep = ep\<lparr>en_synthetic := dropWhile finished_item (en_synthetic ep)\<rparr>"

definition stop_motion :: "mouse_command \<Rightarrow> mouse_command" where
  "stop_motion c = c\<lparr>cmd_x := 0, cmd_y := 0, cmd_wheel := 0, cmd_pan := 0\<rparr>"

definition expire_item :: "u64 \<Rightarrow> synthetic_item \<Rightarrow> synthetic_item" where
  "expire_item now i =
    (if si_deadline i \<noteq> 0 \<and> now > si_deadline i
     then i\<lparr>si_remaining := stop_motion (si_remaining i)\<rparr> else i)"

definition needs_buttons :: "endpoint \<Rightarrow> synthetic_item \<Rightarrow> bool" where
  "needs_buttons ep i \<longleftrightarrow> \<not> si_committed i
     \<and> (si_persistent i \<noteq> en_persistent ep \<or> si_scheduled i \<noteq> en_scheduled ep
        \<or> si_kind i = RK_ReleaseAll \<or> transaction (si_kind i))"

fun expire_items :: "endpoint \<Rightarrow> u64 \<Rightarrow> synthetic_item list \<Rightarrow> synthetic_item list" where
  "expire_items ep now [] = []"
| "expire_items ep now (i # is) =
    (let i = expire_item now i
     in if no_motion (si_remaining i) \<and> \<not> needs_buttons ep i then expire_items ep now is else i # is)"

definition expire_front :: "endpoint \<Rightarrow> u64 \<Rightarrow> endpoint" where
  "expire_front ep now = ep\<lparr>en_synthetic := expire_items ep now (en_synthetic ep)\<rparr>"

definition invalidate_endpoint :: "u64 \<Rightarrow> endpoint \<Rightarrow> endpoint" where
  "invalidate_endpoint g ep = ep\<lparr>en_latest := [], en_template := [], en_synthetic := [],
     en_persistent := 0, en_scheduled := 0, en_inflight := False, en_inflight_id := 0,
     en_generation := g\<rparr>"

fun invalidate_step :: "int \<Rightarrow> int \<times> endpoint \<Rightarrow> mixer \<Rightarrow> mixer" where
  "invalidate_step number (a, ep) mx =
    (if en_interface ep = number then
       (let g = mx_next_generation mx + 1; ep = invalidate_endpoint g ep
        in update_pending ep (put_endpoint a ep (mx\<lparr>mx_next_generation := g\<rparr>)))
     else mx)"

definition invalidate_interface :: "int \<Rightarrow> mixer \<Rightarrow> mixer" where
  "invalidate_interface number mx = fold (invalidate_step number) (mx_endpoints mx) mx"

subsection \<open>Registration\<close>

definition learn_mouse_descriptor :: "int \<Rightarrow> bytes \<Rightarrow> mixer \<Rightarrow> mixer" where
  "learn_mouse_descriptor number data mx =
    (let profiles = parse_mouse_descriptor data;
         mx = mx\<lparr>mx_reports := smap_put number profiles (mx_reports mx)\<rparr>
     in if \<not> smap_at False (mx_boot mx) number
        then invalidate_interface number
               (mx\<lparr>mx_descriptors := smap_put number profiles (mx_descriptors mx)\<rparr>)
        else mx)"

definition boot_axis_field :: "nat \<Rightarrow> hid_field" where
  "boot_axis_field k = \<lparr>hf_offset = k, hf_bits = 8, hf_min = -127, hf_max = 127\<rparr>"

definition boot_button_field :: "nat \<Rightarrow> hid_field" where
  "boot_button_field k = \<lparr>hf_offset = k, hf_bits = 1, hf_min = 0, hf_max = 1\<rparr>"

definition boot_protocol_profile :: mouse_profile where
  "boot_protocol_profile = no_profile\<lparr>mp_size := 3, mp_x := boot_axis_field 8, mp_y := boot_axis_field 16,
     mp_relative := [boot_axis_field 8, boot_axis_field 16],
     mp_buttons := fold (\<lambda>i. smap_put (i + 1) (boot_button_field i)) [0..<3] []\<rparr>"

definition set_mouse_protocol :: "int \<Rightarrow> bool \<Rightarrow> mixer \<Rightarrow> mixer" where
  "set_mouse_protocol number boot mx =
    (let mx = mx\<lparr>mx_boot := smap_put number boot (mx_boot mx)\<rparr>
     in invalidate_interface number
          (mx\<lparr>mx_descriptors := smap_put number
                (if boot then [boot_protocol_profile] else smap_at [] (mx_reports mx) number)
                (mx_descriptors mx)\<rparr>))"

definition register_mouse_endpoint :: "nat \<Rightarrow> int \<Rightarrow> mixer \<Rightarrow> mixer" where
  "register_mouse_endpoint info number mx =
    (let g = mx_next_generation mx + 1; inst = mx_next_instance mx + 1; th = mx_threads mx info;
         ep = no_endpoint\<lparr>en_info := info, en_interface := number, en_generation := g, en_instance := inst\<rparr>;
         th = (if th_poll_us th = 0 then th\<lparr>th_poll_us := 1000\<rparr> else th);
         th = th\<lparr>th_mouse := True, th_pending := map_option (\<lambda>_. False) (th_pending th)\<rparr>
     in put_endpoint (th_address th) ep
          (mx\<lparr>mx_next_generation := g, mx_next_instance := inst, mx_threads := (mx_threads mx)(info := th)\<rparr>))"

definition unregister_mouse_endpoint :: "nat \<Rightarrow> mixer \<Rightarrow> mixer" where
  "unregister_mouse_endpoint info mx =
    (let a = th_address (mx_threads mx info);
         mx = (case map_of (mx_endpoints mx) a of
                 None \<Rightarrow> mx
               | Some ep \<Rightarrow>
                   (let mx = update_pending (ep\<lparr>en_synthetic := [], en_persistent := 0, en_scheduled := 0\<rparr>) mx
                    in mx\<lparr>mx_endpoints := smap_erase a (mx_endpoints mx),
                          mx_next_generation := mx_next_generation mx + 1\<rparr>));
         th = mx_threads mx info;
         mx = mx\<lparr>mx_threads := (mx_threads mx)
               (info := th\<lparr>th_mouse := False, th_pending := map_option (\<lambda>_. False) (th_pending th)\<rparr>)\<rparr>
     in if mx_selected mx = a then mx\<lparr>mx_selected := -1\<rparr> else mx)"

subsection \<open>Physical reports\<close>

definition select_if_none :: "int \<Rightarrow> mixer \<Rightarrow> mixer" where
  "select_if_none a mx = (if mx_selected mx < 0 then mx\<lparr>mx_selected := a\<rparr> else mx)"

definition queue_physical_mouse_report :: "int \<Rightarrow> transfer_io \<Rightarrow> u64 \<Rightarrow> mixer \<Rightarrow> transfer_io \<times> mixer" where
  "queue_physical_mouse_report a io now mx =
    (case map_of (mx_endpoints mx) a of
       None \<Rightarrow> (io, mx)
     | Some ep \<Rightarrow>
         (let io = io\<lparr>io_managed := True, io_physical := True, io_queued_ns := now,
                io_generation := en_generation ep, io_instance := en_instance ep\<rparr>;
              ep = ep\<lparr>en_barrier := en_barrier ep + 1\<rparr>;
              p = io_data io
          in case matching_profile mx ep p (io_length io) of
               None \<Rightarrow> (io, put_endpoint a ep mx)
             | Some m \<Rightarrow>
                 (let ep = (if en_latest ep = [] then ep\<lparr>en_profile := m\<rparr> else ep);
                      ep = ep\<lparr>en_latest := take (io_length io) p\<rparr>;
                      io = io\<lparr>io_match := True, io_physical_buttons := button_mask m p,
                             io_physical_x := hid_get (mp_x m) p, io_physical_y := hid_get (mp_y m) p,
                             io_physical_wheel := hid_get (mp_wheel m) p,
                             io_physical_pan := hid_get (mp_pan m) p\<rparr>;
                      moved = (io_physical_x io \<noteq> 0 \<or> io_physical_y io \<noteq> 0
                               \<or> io_physical_wheel io \<noteq> 0 \<or> io_physical_pan io \<noteq> 0);
                      ep = (if moved \<or> en_physical ep \<noteq> io_physical_buttons io
                            then ep\<lparr>en_activity := en_activity ep + 1\<rparr> else ep);
                      ep = ep\<lparr>en_physical := io_physical_buttons io, en_dx := io_physical_x io,
                             en_dy := io_physical_y io,
                             en_cumulative_x := saturating_add (en_cumulative_x ep) (io_physical_x io),
                             en_cumulative_y := saturating_add (en_cumulative_y ep) (io_physical_y io)\<rparr>;
                      ep = (if io_physical_x io \<noteq> 0 \<or> io_physical_y io \<noteq> 0
                            then ep\<lparr>en_last_motion := io_queued_ns io\<rparr> else ep);
                      ep = ep\<lparr>en_physical_received := en_physical_received ep + 1\<rparr>
                  in (io, select_if_none a (put_endpoint a ep mx)))))"

definition seed_mouse_report :: "int \<Rightarrow> transfer_io \<Rightarrow> mixer \<Rightarrow> transfer_io \<times> mixer" where
  "seed_mouse_report a io mx =
    (case map_of (mx_endpoints mx) a of
       None \<Rightarrow> (io, mx)
     | Some ep \<Rightarrow>
         (case matching_profile mx ep (io_data io) (io_length io) of
            None \<Rightarrow> (io, mx)
          | Some m \<Rightarrow>
              (let p = put_buttons m (clear_relative m (take (io_length io) (io_data io))) 0;
                   ep = ep\<lparr>en_profile := m, en_latest := p, en_template := p, en_physical := 0,
                          en_submitted := 0\<rparr>
               in (io\<lparr>io_data := blit (io_data io) 0 p\<rparr>, select_if_none a (put_endpoint a ep mx)))))"

subsection \<open>Snapshots\<close>

text \<open>The FNV-1a fingerprint of the report layout.\<close>

definition hash_byte :: "u64 \<times> u64 \<Rightarrow> u64 \<times> u64" where
  "hash_byte = (\<lambda>(layout, n). ((layout XOR ucast (ucast n :: u8)) * 1099511628211, drop_bit 8 n))"

definition layout_hash :: "u64 \<Rightarrow> u64 \<Rightarrow> u64" where
  "layout_hash layout n = fst ((hash_byte ^^ 8) (layout, n))"

definition hash_field :: "hid_field \<Rightarrow> u64 \<Rightarrow> u64" where
  "hash_field f layout =
    (let layout = layout_hash layout (of_nat (hf_offset f)); layout = layout_hash layout (of_nat (hf_bits f));
         layout = layout_hash layout (ucast (word_of_int (hf_min f) :: u32))
     in layout_hash layout (ucast (word_of_int (hf_max f) :: u32)))"

definition profile_layout :: "mouse_profile \<Rightarrow> u64" where
  "profile_layout m =
    (let layout = 1469598103934665603; layout = layout_hash layout (of_nat (mp_id m));
         layout = layout_hash layout (of_nat (mp_size m));
         layout = hash_field (mp_pan m) (hash_field (mp_wheel m) (hash_field (mp_y m)
                    (hash_field (mp_x m) layout)));
         layout = fold (\<lambda>(b, f) l. hash_field f (layout_hash l (of_nat b))) (mp_buttons m) layout
     in if layout \<noteq> 0 then layout else 1)"

definition residence_p99 :: "u64 list \<Rightarrow> u64" where
  "residence_p99 samples =
    (if samples = [] then 0 else sort samples ! ((length samples * 99 + 99) div 100 - 1))"

definition endpoint_snapshot :: "u64 \<Rightarrow> mixer \<Rightarrow> snapshot" where
  "endpoint_snapshot now mx =
    (let s = no_snapshot\<lparr>es_generation := mx_next_generation mx, es_snapshot_ns := now\<rparr>
     in case map_of (mx_endpoints mx) (mx_selected mx) of
          None \<Rightarrow> s
        | Some ep \<Rightarrow>
            if en_latest ep = [] then s
            else let m = en_profile ep; th = mx_threads mx (en_info ep)
            in s\<lparr>es_ready := True, es_physical := en_physical ep, es_persistent := en_persistent ep,
                 es_scheduled := en_scheduled ep, es_supported := supported_mask m,
                 es_xmin := hf_min (mp_x m), es_xmax := hf_max (mp_x m),
                 es_ymin := hf_min (mp_y m), es_ymax := hf_max (mp_y m),
                 es_physical_dx := en_dx ep, es_physical_dy := en_dy ep,
                 es_poll_us := max 1 (th_poll_us th),
                 es_physical_age_us := (if en_last_motion ep \<noteq> 0 \<and> now \<ge> en_last_motion ep
                   then saturate32 ((now - en_last_motion ep) div 1000) else 0xffffffff),
                 es_physical_received := saturate32 (en_physical_received ep),
                 es_physical_submitted := saturate32 (en_physical_submitted ep),
                 es_superseded := saturate32 (en_superseded ep),
                 es_writer_failures := saturate32 (en_failures ep),
                 es_output_queue := saturate16 (length (th_queue th)),
                 es_synthetic_pending := saturate16 (length (en_synthetic ep)),
                 es_generation := en_generation ep, es_last_motion_ns := en_last_motion ep,
                 es_p99_residence_ns := residence_p99 (en_residence ep),
                 es_activity := en_activity ep, es_layout := profile_layout m,
                 es_cumulative_x := en_cumulative_x ep, es_cumulative_y := en_cumulative_y ep\<rparr>)"

fun decimal :: "nat \<Rightarrow> string" where
  "decimal n = (if n < 10 then [char_of (48 + n)] else decimal (n div 10) @ [char_of (48 + n mod 10)])"

definition to_string :: "int \<Rightarrow> string" where
  "to_string n = (if n < 0 then ''-'' @ decimal (nat (- n)) else decimal (nat n))"

definition mouse_state_text :: "u64 \<Rightarrow> mixer \<Rightarrow> string" where
  "mouse_state_text now mx =
    (let s = endpoint_snapshot now mx; synthetic = es_persistent s OR es_scheduled s
     in if \<not> es_ready s then ''not_ready''
        else ''state '' @ to_string (uint (es_physical s)) @ '' '' @ to_string (uint synthetic) @ '' ''
          @ to_string (uint (es_physical s OR synthetic)) @ '' '' @ to_string (es_xmin s) @ '' ''
          @ to_string (es_xmax s) @ '' '' @ to_string (es_ymin s) @ '' '' @ to_string (es_ymax s))"

subsection \<open>Synthetic reports\<close>

text \<open>
  The loop that drops superseded movements from the back: the list is kept reversed, the
  counter is \<open>superseded\<close>.
\<close>

definition replaceable :: "endpoint \<Rightarrow> u8 \<Rightarrow> synthetic_item \<Rightarrow> bool" where
  "replaceable ep persistent i \<longleftrightarrow> \<not> ((en_inflight ep \<and> si_id i = en_inflight_id ep) \<or> \<not> si_latest i
     \<or> si_kind i \<noteq> RK_Movement \<or> si_persistent i \<noteq> persistent \<or> si_barrier i \<noteq> en_barrier ep)"

fun supersede :: "endpoint \<Rightarrow> u8 \<Rightarrow> synthetic_item list \<Rightarrow> u64 \<Rightarrow> synthetic_item list \<times> u64" where
  "supersede ep persistent [] n = ([], n)"
| "supersede ep persistent (i # is) n =
    (if replaceable ep persistent i then supersede ep persistent is (n + 1) else (i # is, n))"

definition enqueue_report ::
    "mouse_command \<Rightarrow> u8 \<Rightarrow> u8 \<Rightarrow> report_kind \<Rightarrow> bool \<Rightarrow> u64 \<Rightarrow> u64 \<Rightarrow> u32 \<Rightarrow> u8 \<Rightarrow> u64 \<Rightarrow> u64
     \<Rightarrow> u64 \<Rightarrow> mixer \<Rightarrow> enqueue_result \<times> mixer" where
  "enqueue_report c persistent scheduled kind latest session cid index button
      expected_activity expected_generation now mx =
    (case map_of (mx_endpoints mx) (mx_selected mx) of
       None \<Rightarrow> (ER_NotReady, mx)
     | Some ep \<Rightarrow>
         if en_latest ep = [] then (ER_NotReady, mx)
         else if (expected_generation \<noteq> 0 \<and> en_generation ep \<noteq> expected_generation)
              \<or> (expected_activity \<noteq> UINT64_MAX \<and> en_activity ep \<noteq> expected_activity)
           then (ER_NotReady, mx)
         else let c = c\<lparr>cmd_buttons := persistent OR scheduled\<rparr>
         in if split_mouse_command (en_profile ep) c = [] then (ER_Unsupported, mx)
         else let ep = (if latest
                then let (kept, n) = supersede ep persistent (rev (en_synthetic ep)) (en_superseded ep)
                     in ep\<lparr>en_synthetic := rev kept, en_superseded := n\<rparr>
                else ep)
         in if length (en_synthetic ep) \<ge> MAX_SYNTHETIC_ITEMS
           then (ER_QueueFull, put_endpoint (mx_selected mx) ep mx)
         else let item = \<lparr>si_id = en_next_item ep, si_generation = en_generation ep,
                  si_deadline = (if latest then now + 25000000 else 0), si_barrier = en_barrier ep,
                  si_session = session, si_command = cid, si_guard = expected_activity,
                  si_index = index, si_remaining = c, si_persistent = persistent,
                  si_scheduled = scheduled, si_button = button, si_kind = kind,
                  si_latest = latest, si_committed = False\<rparr>;
                ep = ep\<lparr>en_next_item := en_next_item ep + 1, en_synthetic := en_synthetic ep @ [item]\<rparr>
         in (ER_Ok, update_pending ep (put_endpoint (mx_selected mx) ep mx)))"

definition clear_synthetic_state :: "u64 \<Rightarrow> mixer \<Rightarrow> snapshot \<times> mixer" where
  "clear_synthetic_state now mx =
    (let s = no_snapshot\<lparr>es_generation := mx_next_generation mx, es_snapshot_ns := now\<rparr>
     in case map_of (mx_endpoints mx) (mx_selected mx) of
          None \<Rightarrow> (s, mx)
        | Some ep \<Rightarrow>
            (let ep = ep\<lparr>en_synthetic := [], en_inflight := False, en_inflight_id := 0\<rparr>
             in (s\<lparr>es_ready := en_latest ep \<noteq> [], es_physical := en_physical ep,
                   es_generation := en_generation ep,
                   es_poll_us := max 1 (th_poll_us (mx_threads mx (en_info ep)))\<rparr>,
                 update_pending ep (put_endpoint (mx_selected mx) ep mx))))"

text \<open>
  The decision of \<open>take_mouse_report\<close>: the flags \<open>fuse\<close>, \<open>buttons_only\<close>, \<open>standalone\<close>,
  \<open>competing\<close> and the motion to fuse.
\<close>

definition compatible :: "endpoint \<Rightarrow> transfer_io \<Rightarrow> bool" where
  "compatible ep io \<longleftrightarrow> io_match io \<and> io_generation io = en_generation ep"

definition fusion_motion :: "endpoint \<Rightarrow> synthetic_item \<Rightarrow> mouse_command" where
  "fusion_motion ep i =
    (if transaction (si_kind i)
     then case split_mouse_command (en_profile ep) (si_remaining i) of [] \<Rightarrow> si_remaining i | c # _ \<Rightarrow> c
     else si_remaining i)"

record mix_plan =
  pl_fuse :: bool
  pl_buttons_only :: bool
  pl_standalone :: bool
  pl_competing :: bool

definition mix_decision :: "endpoint \<Rightarrow> synthetic_item option \<Rightarrow> transfer_io list \<Rightarrow> mix_plan" where
  "mix_decision ep front physical =
    (case (front, physical) of
       (Some i, candidate # rest) \<Rightarrow>
         (let fuse = (compatible ep candidate \<and> motion_fits (en_profile ep) candidate (fusion_motion ep i));
              buttons_only = (compatible ep candidate \<and> needs_buttons ep i);
              alone = (rest = [] \<and> \<not> fuse \<and> \<not> buttons_only \<and> en_template ep \<noteq> [] \<and> en_successes ep \<ge> 3)
          in \<lparr>pl_fuse = fuse, pl_buttons_only = buttons_only, pl_standalone = alone, pl_competing = alone\<rparr>)
     | (Some _, []) \<Rightarrow> \<lparr>pl_fuse = False, pl_buttons_only = False, pl_standalone = True, pl_competing = False\<rparr>
     | (None, _) \<Rightarrow> \<lparr>pl_fuse = False, pl_buttons_only = False, pl_standalone = False, pl_competing = False\<rparr>)"

text \<open>A report of the physical mouse, with synthetic motion and buttons where they apply.\<close>

definition mix_physical ::
    "endpoint \<Rightarrow> synthetic_item option \<Rightarrow> mix_plan \<Rightarrow> transfer_io \<Rightarrow> transfer_io \<times> endpoint" where
  "mix_physical ep front plan io =
    (let io = io\<lparr>io_managed := True, io_physical := True\<rparr>; m = en_profile ep;
         (applied, persistent, scheduled, io, ep) =
           (case front of
              Some i \<Rightarrow>
                (if compatible ep io \<and> (pl_fuse plan \<or> pl_buttons_only plan)
                 then let applied = (if pl_fuse plan then fusion_motion ep i else no_command);
                          (io, ep) = describe_synthetic ep i io applied True False False
                      in (applied, si_persistent i, si_scheduled i, io, ep)
                 else (no_command, en_persistent ep, en_scheduled ep, io, ep))
            | None \<Rightarrow> (no_command, en_persistent ep, en_scheduled ep, io, ep))
     in if compatible ep io
        then let buttons = io_physical_buttons io OR persistent OR scheduled
             in (apply_known_fields m (io\<lparr>io_final_buttons := buttons\<rparr>)
                   (io_physical_x io + cmd_x applied) (io_physical_y io + cmd_y applied)
                   (io_physical_wheel io + cmd_wheel applied) (io_physical_pan io + cmd_pan applied)
                   buttons, ep)
        else (io, ep))"

text \<open>A report of its own for the front item, on the last template; \<open>None\<close> where it cannot be built.\<close>

definition standalone_report ::
    "endpoint \<Rightarrow> int \<Rightarrow> synthetic_item \<Rightarrow> bool \<Rightarrow> (transfer_io \<times> endpoint) option" where
  "standalone_report ep ep_num i competing =
    (let base = (if en_template ep = [] then en_latest ep else en_template ep); m = en_profile ep
     in if base = [] then None
        else let io = no_io\<lparr>io_ep := ep_num, io_length := mp_size m\<rparr>;
                 p = clear_relative m (blit (io_data io) 0 base);
                 c = (si_remaining i)\<lparr>cmd_buttons := si_persistent i OR si_scheduled i\<rparr>
        in case split_mouse_command m c of
             [] \<Rightarrow> None
           | applied # _ \<Rightarrow>
               (let p = snd (encode m applied p);
                    buttons = en_submitted ep OR si_persistent i OR si_scheduled i
                in Some (describe_synthetic ep i
                     (io\<lparr>io_data := put_buttons m p buttons, io_final_buttons := buttons\<rparr>)
                     applied True True competing)))"

definition put_queue :: "nat \<Rightarrow> transfer_io list \<Rightarrow> mixer \<Rightarrow> mixer" where
  "put_queue info q mx = mx\<lparr>mx_threads := (mx_threads mx)(info := (mx_threads mx info)\<lparr>th_queue := q\<rparr>)\<rparr>"

text \<open>The front item, unless its guard says the physical mouse has moved since.\<close>

definition ready_front :: "endpoint \<Rightarrow> synthetic_item option" where
  "ready_front ep =
    (case en_synthetic ep of [] \<Rightarrow> None
     | i # _ \<Rightarrow> if si_guard i \<noteq> UINT64_MAX \<and> si_guard i \<noteq> en_activity ep then None else Some i)"

text \<open>Where the result is \<open>False\<close> the caller does not read the report; the old one is returned.\<close>

definition take_mouse_report :: "int \<Rightarrow> transfer_io \<Rightarrow> u64 \<Rightarrow> mixer \<Rightarrow> bool \<times> transfer_io \<times> mixer" where
  "take_mouse_report a io now mx =
    (case map_of (mx_endpoints mx) a of
       None \<Rightarrow> (False, io, mx)
     | Some ep \<Rightarrow>
         if en_inflight ep then (False, io, mx)
         else let ep = expire_front ep now; mx = update_pending ep (put_endpoint a ep mx);
                  th = mx_threads mx (en_info ep); front = ready_front ep;
                  plan = mix_decision ep front (th_queue th)
         in case th_queue th of
              io' # rest \<Rightarrow>
                if \<not> pl_standalone plan
                then let (io', ep) = mix_physical ep front plan io'
                     in (True, io', put_endpoint a ep (put_queue (en_info ep) rest mx))
                else (case front of
                        None \<Rightarrow> (False, io, mx)
                      | Some i \<Rightarrow>
                          (case standalone_report ep (th_ep_num th) i (pl_competing plan) of
                             None \<Rightarrow> (False, io, mx)
                           | Some (io', ep) \<Rightarrow> (True, io', put_endpoint a ep mx)))
            | [] \<Rightarrow>
                (case front of
                   None \<Rightarrow> (False, io, mx)
                 | Some i \<Rightarrow>
                     (case standalone_report ep (th_ep_num th) i (pl_competing plan) of
                        None \<Rightarrow> (False, io, mx)
                      | Some (io', ep) \<Rightarrow> (True, io', put_endpoint a ep mx))))"

subsection \<open>Completions\<close>

definition sub_motion :: "mouse_command \<Rightarrow> transfer_io \<Rightarrow> mouse_command" where
  "sub_motion c io = c\<lparr>cmd_x := cmd_x c - io_synthetic_x io, cmd_y := cmd_y c - io_synthetic_y io,
     cmd_wheel := cmd_wheel c - io_synthetic_wheel io, cmd_pan := cmd_pan c - io_synthetic_pan io\<rparr>"

text \<open>A successful write of a physical report.\<close>

definition physical_written :: "transfer_io \<Rightarrow> u64 \<Rightarrow> bool \<Rightarrow> endpoint \<Rightarrow> endpoint" where
  "physical_written io written current ep =
    (let ep = ep\<lparr>en_successes := min 3 (en_successes ep + 1)\<rparr>
     in if \<not> io_match io then ep
        else let ep = ep\<lparr>en_physical_submitted := en_physical_submitted ep + 1, en_submitted := io_physical_buttons io\<rparr>;
                 ep = (if current
                   then let p = apply_known_fields (en_profile ep) io (io_physical_x io) (io_physical_y io)
                              (io_physical_wheel io) (io_physical_pan io) (io_physical_buttons io)
                        in ep\<lparr>en_template := take (io_length io) (io_data p)\<rparr>
                   else ep)
        in if io_queued_ns io \<noteq> 0 \<and> written \<ge> io_queued_ns io
           then let samples = en_residence ep @ [written - io_queued_ns io]
                in ep\<lparr>en_residence := (if length samples > MAX_RESIDENCE_SAMPLES then tl samples else samples)\<rparr>
           else ep)"

text \<open>The report carried the front item: commit it, and whether that finished it.\<close>

definition carries_front :: "transfer_io \<Rightarrow> bool \<Rightarrow> endpoint \<Rightarrow> bool" where
  "carries_front io current ep \<longleftrightarrow> current \<and> io_item io \<noteq> 0 \<and> en_inflight ep
     \<and> en_inflight_id ep = io_item io \<and> en_synthetic ep \<noteq> [] \<and> si_id (hd (en_synthetic ep)) = io_item io"

definition commit_front :: "transfer_io \<Rightarrow> endpoint \<Rightarrow> bool \<times> endpoint" where
  "commit_front io ep =
    (let i = hd (en_synthetic ep);
         ep = (if io_apply_buttons io
               then ep\<lparr>en_persistent := io_persistent io, en_scheduled := io_scheduled io\<rparr> else ep);
         i = (if io_apply_buttons io then i\<lparr>si_committed := True\<rparr> else i);
         i = i\<lparr>si_remaining := sub_motion (si_remaining i) io\<rparr>
     in (finished_item i, ep\<lparr>en_synthetic := i # tl (en_synthetic ep)\<rparr>))"

definition emits_event :: "transfer_io \<Rightarrow> bool \<Rightarrow> bool \<Rightarrow> bool" where
  "emits_event io current success \<longleftrightarrow> current
     \<and> (io_kind io = RK_ClickPress \<or> io_kind io = RK_ClickRelease \<or> io_kind io = RK_ReleaseAll
        \<or> transaction (io_kind io) \<or> \<not> success)"

definition written_event :: "transfer_io \<Rightarrow> u64 \<Rightarrow> bool \<Rightarrow> bool \<Rightarrow> writer_event" where
  "written_event io written success finished =
    \<lparr>we_session = io_session io, we_command = io_command io, we_generation = io_generation io,
     we_written_ns = written, we_index = io_index io, we_kind = io_kind io, we_button = io_button io,
     we_blocked = io_blocked io, we_final_buttons = io_final_buttons io, we_success = success,
     we_dx = io_synthetic_x io, we_dy = io_synthetic_y io, we_finished = finished\<rparr>"

definition push_event :: "writer_event \<Rightarrow> mixer \<Rightarrow> mixer" where
  "push_event ev mx =
    (if length (mx_events mx) \<ge> MAX_WRITER_EVENTS then mx\<lparr>mx_overflow := True\<rparr>
     else mx\<lparr>mx_events := mx_events mx @ [ev]\<rparr>)"

text \<open>The counters and the template after a write, and the front item when the report carried it.\<close>

definition count_write :: "transfer_io \<Rightarrow> bool \<Rightarrow> u64 \<Rightarrow> endpoint \<Rightarrow> endpoint" where
  "count_write io success written ep =
    (let current = (io_generation io = en_generation ep);
         ep = (if \<not> success \<and> current then ep\<lparr>en_failures := en_failures ep + 1\<rparr> else ep);
         ep = (if success \<and> io_physical io then physical_written io written current ep else ep)
     in if success \<and> io_competing io then ep\<lparr>en_successes := 0\<rparr> else ep)"

definition settle_front :: "transfer_io \<Rightarrow> bool \<Rightarrow> endpoint \<Rightarrow> bool \<times> endpoint" where
  "settle_front io success ep =
    (let (finished, ep) = (if success then commit_front io ep else (False, ep));
         ep = ep\<lparr>en_inflight := False, en_inflight_id := 0\<rparr>
     in (finished, if success then remove_finished_front ep else ep))"

definition notify_mouse_report_written :: "int \<Rightarrow> transfer_io \<Rightarrow> bool \<Rightarrow> u64 \<Rightarrow> mixer \<Rightarrow> mixer" where
  "notify_mouse_report_written a io success written mx =
    (if \<not> io_managed io then mx
     else case map_of (mx_endpoints mx) a of
       None \<Rightarrow> mx
     | Some ep \<Rightarrow>
         if io_instance io \<noteq> en_instance ep then mx
         else let current = (io_generation io = en_generation ep);
                  ep = count_write io success written ep;
                  carried = carries_front io current ep;
                  (finished, ep) = (if carried then settle_front io success ep else (False, ep));
                  mx = put_endpoint a ep (if carried then update_pending ep mx else mx)
         in if emits_event io current success
            then push_event (written_event io written success finished) mx else mx)"

definition take_writer_events :: "mixer \<Rightarrow> writer_event list \<times> mixer" where
  "take_writer_events mx = (mx_events mx, mx\<lparr>mx_events := []\<rparr>)"

definition take_writer_overflow :: "mixer \<Rightarrow> bool \<times> mixer" where
  "take_writer_overflow mx = (mx_overflow mx, mx\<lparr>mx_overflow := False\<rparr>)"

end
