(* ===== verification/Move_Executor.thy ===== *)
theory Move_Executor
  imports Move_Protocol Mouse_Mixer
begin

text \<open>
  \<open>move_executor.h\<close>: the state machine of one move transaction (out, settle, wait, press, hold,
  release, delay, return), driven by the clock and by writer events. Sums of signed motion are
  mathematical integers.
\<close>

record mover =
  mv_request :: move_request
  mv_ack :: move_ack
  mv_due :: u64
  mv_deadline :: u64
  mv_activity :: u64
  mv_pending :: bool
  mv_continued :: bool
  mv_cancelled :: bool

definition no_ack :: move_ack where
  "no_ack = \<lparr>ma_status = MS_Invalid, ma_stage = St_Idle, ma_flags = 0, ma_session = 0, ma_command = 0,
     ma_epoch = 0, ma_generation = 0, ma_written_ns = 0, ma_out_x = 0, ma_out_y = 0, ma_return_x = 0,
     ma_return_y = 0, ma_residual_x = 0, ma_residual_y = 0\<rparr>"

definition no_request :: move_request where
  "no_request = \<lparr>mr_operation = MO_Execute, mr_flags = 0, mr_button = 0, mr_session = 0, mr_command = 0,
     mr_epoch = 0, mr_generation = 0, mr_dx = 0, mr_dy = 0, mr_settle_us = 1000, mr_press_us = 10000,
     mr_return_us = 0, mr_budget_us = 2000000, mr_wait_us = 1000000\<rparr>"

definition no_mover :: mover where
  "no_mover = \<lparr>mv_request = no_request, mv_ack = no_ack, mv_due = 0, mv_deadline = 0, mv_activity = 0,
     mv_pending = False, mv_continued = False, mv_cancelled = False\<rparr>"

definition set_stage :: "stage \<Rightarrow> u64 \<Rightarrow> mover \<Rightarrow> mover" where
  "set_stage v now m = m\<lparr>mv_ack := (mv_ack m)\<lparr>ma_stage := v, ma_written_ns := now\<rparr>\<rparr>"

definition set_status :: "move_status \<Rightarrow> mover \<Rightarrow> mover" where
  "set_status v m = m\<lparr>mv_ack := (mv_ack m)\<lparr>ma_status := v\<rparr>\<rparr>"

definition set_flag :: "u8 \<Rightarrow> mover \<Rightarrow> mover" where
  "set_flag v m = m\<lparr>mv_ack := (mv_ack m)\<lparr>ma_flags := ma_flags (mv_ack m) OR v\<rparr>\<rparr>"

abbreviation mv_stage :: "mover \<Rightarrow> stage" where
  "mv_stage m \<equiv> ma_stage (mv_ack m)"

definition us :: "u32 \<Rightarrow> u64" where
  "us n = ucast n * 1000"

definition mover_active :: "mover \<Rightarrow> bool" where
  "mover_active m \<longleftrightarrow> ma_status (mv_ack m) = MS_Active \<or> ma_status (mv_ack m) = MS_Accepted"

definition mover_start :: "move_request \<Rightarrow> snapshot \<Rightarrow> u64 \<Rightarrow> mover" where
  "mover_start r e now =
    \<lparr>mv_request = r,
     mv_ack = no_ack\<lparr>ma_status := MS_Active, ma_stage := St_Out, ma_session := mr_session r,
       ma_command := mr_command r, ma_epoch := mr_epoch r, ma_generation := mr_generation r,
       ma_written_ns := now\<rparr>,
     mv_due = now, mv_deadline = now + us (mr_budget_us r), mv_activity = es_activity e,
     mv_pending = False, mv_continued = False, mv_cancelled = False\<rparr>"

definition mover_stop :: "move_status \<Rightarrow> u64 \<Rightarrow> mover \<Rightarrow> mover" where
  "mover_stop reason now m =
    (if \<not> mover_active m then m
     else let m = (if mv_pending m then set_flag 1 m else m);
              m = set_stage St_Done now (set_status reason m)
          in m\<lparr>mv_pending := False\<rparr>)"

definition mover_proceed :: "mover \<Rightarrow> mover" where
  "mover_proceed m = (if mover_active m \<and> mv_stage m = St_Waiting then m\<lparr>mv_continued := True\<rparr> else m)"

definition mover_cancel :: "mover \<Rightarrow> mover" where
  "mover_cancel m = (if mover_active m then m\<lparr>mv_cancelled := True\<rparr> else m)"

definition done_status :: "mover \<Rightarrow> move_status" where
  "done_status m = (if mv_cancelled m then MS_Cancelled else MS_Completed)"

text \<open>\<open>event\<close>: first the sums, then, for the last report of the step, the next stage.\<close>

definition add_motion :: "writer_event \<Rightarrow> mover \<Rightarrow> mover" where
  "add_motion e m =
    (let a = mv_ack m;
         a = (if we_kind e = RK_TransactionOut
              then a\<lparr>ma_out_x := ma_out_x a + we_dx e, ma_out_y := ma_out_y a + we_dy e\<rparr>
              else if we_kind e = RK_TransactionReturn
              then a\<lparr>ma_return_x := ma_return_x a + we_dx e, ma_return_y := ma_return_y a + we_dy e\<rparr>
              else a);
         a = a\<lparr>ma_residual_x := ma_out_x a + ma_return_x a, ma_residual_y := ma_out_y a + ma_return_y a,
               ma_written_ns := we_written_ns e\<rparr>
     in m\<lparr>mv_ack := a\<rparr>)"

definition step_finished :: "writer_event \<Rightarrow> mover \<Rightarrow> mover" where
  "step_finished e m =
    (let m = m\<lparr>mv_pending := False\<rparr>; at = we_written_ns e; r = mv_request m in
     if we_kind e = RK_TransactionOut
     then (set_stage St_Settle at m)\<lparr>mv_due := at + us (mr_settle_us r)\<rparr>
     else if we_kind e = RK_TransactionPress
     then (if we_blocked e then mover_stop MS_ButtonActive at m
           else (set_stage St_Hold at (set_flag 2 m))\<lparr>mv_due := at + us (mr_press_us r)\<rparr>)
     else if we_kind e = RK_TransactionRelease
     then (set_stage St_Delay at (set_flag 4 m))\<lparr>mv_due := at + us (mr_return_us r)\<rparr>
     else set_stage St_Done at (set_status (done_status m) m))"

definition mover_event :: "writer_event \<Rightarrow> mover \<Rightarrow> mover" where
  "mover_event e m =
    (if \<not> mover_active m \<or> we_session e \<noteq> mr_session (mv_request m)
        \<or> we_command e \<noteq> mr_command (mv_request m) \<or> we_generation e \<noteq> mr_generation (mv_request m) then m
     else if \<not> we_success e then mover_stop MS_WriterFailed (we_written_ns e) m
     else if \<not> transaction (we_kind e) then m
     else let m = add_motion e m in if \<not> we_finished e then m else step_finished e m)"

text \<open>
  \<open>tick\<close>. A cancelled transaction first leaves its stage; then the stage decides: it moves on
  (\<open>Inl\<close>), or it asks for a report (\<open>Inr\<close>: motion, kind and scheduled buttons).
\<close>

definition leave_if_cancelled :: "u64 \<Rightarrow> mover \<Rightarrow> mover" where
  "leave_if_cancelled now m =
    (if mv_cancelled m \<and> mv_stage m \<noteq> St_Return
     then (if (ma_flags (mv_ack m) AND 2) \<noteq> 0 \<and> (ma_flags (mv_ack m) AND 4) = 0
           then set_stage St_Release now m
           else (set_stage St_Delay now m)\<lparr>mv_due := now\<rparr>)
     else m)"

definition stage_step :: "u64 \<Rightarrow> mover \<Rightarrow> mover + (mouse_command \<times> report_kind \<times> u8)" where
  "stage_step now m =
    (let r = mv_request m; a = mv_ack m in
     case ma_stage a of
       St_Out \<Rightarrow>
         if mr_dx r = 0 \<and> mr_dy r = 0
         then Inl ((set_stage St_Settle now m)\<lparr>mv_due := now + us (mr_settle_us r)\<rparr>)
         else Inr (no_command\<lparr>cmd_x := mr_dx r, cmd_y := mr_dy r\<rparr>, RK_TransactionOut, 0)
     | St_Settle \<Rightarrow>
         if now < mv_due m then Inl m
         else if (mr_flags r AND 1) \<noteq> 0
         then Inl ((set_stage St_Waiting now m)\<lparr>mv_due := now + us (mr_wait_us r)\<rparr>)
         else Inl ((set_stage (if mr_button r \<noteq> 0 then St_Press else St_Delay) now m)
                     \<lparr>mv_due := now + us (mr_return_us r)\<rparr>)
     | St_Waiting \<Rightarrow>
         if \<not> mv_continued m \<and> now < mv_due m then Inl m
         else let m = (if \<not> mv_continued m then m\<lparr>mv_cancelled := True\<rparr> else m)
         in Inl ((set_stage (if \<not> mv_cancelled m \<and> mr_button r \<noteq> 0 then St_Press else St_Delay) now m)
                   \<lparr>mv_due := now\<rparr>)
     | St_Press \<Rightarrow> Inr (no_command, RK_TransactionPress, push_bit (unat (mr_button r) - 1) 1)
     | St_Hold \<Rightarrow> if now < mv_due m then Inl m else Inl (set_stage St_Release now m)
     | St_Release \<Rightarrow> Inr (no_command, RK_TransactionRelease, 0)
     | St_Delay \<Rightarrow>
         if now < mv_due m then Inl m
         else if ma_residual_x a = 0 \<and> ma_residual_y a = 0
         then Inl (set_stage St_Done now (set_status (done_status m) m))
         else Inl (set_stage St_Return now m)
     | St_Return \<Rightarrow>
         Inr (no_command\<lparr>cmd_x := - ma_residual_x a, cmd_y := - ma_residual_y a\<rparr>, RK_TransactionReturn, 0)
     | _ \<Rightarrow> Inl m)"

definition mover_tick :: "snapshot \<Rightarrow> u64 \<Rightarrow> mover \<Rightarrow> mixer \<Rightarrow> bool \<times> mover \<times> mixer" where
  "mover_tick e now m mx =
    (if \<not> mover_active m then (False, m, mx)
     else if \<not> es_ready e \<or> es_generation e \<noteq> mr_generation (mv_request m)
       then (True, mover_stop MS_EndpointChanged now m, mx)
     else if es_activity e \<noteq> mv_activity m then (True, mover_stop MS_Interrupted now m, mx)
     else if now \<ge> mv_deadline m then (True, mover_stop MS_Timeout now m, mx)
     else if mv_pending m then (False, m, mx)
     else let m = leave_if_cancelled now m; r = mv_request m
     in case stage_step now m of
          Inl m \<Rightarrow> (False, m, mx)
        | Inr (c, kind, scheduled) \<Rightarrow>
            (case enqueue_report c 0 scheduled kind False (mr_session r) (mr_command r) 0 (mr_button r)
                    (mv_activity m) (mr_generation r) now mx of
               (ER_Ok, mx) \<Rightarrow> (False, m\<lparr>mv_pending := True\<rparr>, mx)
             | (ER_QueueFull, mx) \<Rightarrow> (False, m, mx)
             | (_, mx) \<Rightarrow> (True, mover_stop MS_EndpointChanged now m, mx)))"

end
