(* ===== verification/Move_Facts.thy ===== *)
theory Move_Facts
  imports Move_Executor
begin

text \<open>
  What the move executor guarantees: the motion it accounts for, the button it presses and the
  deadline it keeps. A run is any sequence of ticks, cancellations, continuations, stops and writer
  events; a transaction event is one of the report the executor is waiting for (the mixer sends no
  other: it queues one report of a transaction at a time).
\<close>

fun stage_kind :: "stage \<Rightarrow> report_kind option" where
  "stage_kind St_Out = Some RK_TransactionOut"
| "stage_kind St_Press = Some RK_TransactionPress"
| "stage_kind St_Release = Some RK_TransactionRelease"
| "stage_kind St_Return = Some RK_TransactionReturn"
| "stage_kind _ = None"

definition own_event :: "mover \<Rightarrow> writer_event \<Rightarrow> bool" where
  "own_event m e \<longleftrightarrow> (transaction (we_kind e) \<and> we_success e \<and> we_session e = mr_session (mv_request m)
     \<and> we_command e = mr_command (mv_request m) \<longrightarrow> mv_pending m \<and> stage_kind (mv_stage m) = Some (we_kind e))"

inductive move_run :: "mover \<Rightarrow> bool" where
  start: "move_run (mover_start r e now)"
| tick: "move_run m \<Longrightarrow> mover_tick e now m mx = (reset, m', mx') \<Longrightarrow> move_run m'"
| event: "move_run m \<Longrightarrow> own_event m e \<Longrightarrow> move_run (mover_event e m)"
| stop: "move_run m \<Longrightarrow> reason \<noteq> MS_Completed \<Longrightarrow> reason \<noteq> MS_Cancelled \<Longrightarrow> reason \<noteq> MS_Active
    \<Longrightarrow> reason \<noteq> MS_Accepted \<Longrightarrow> move_run (mover_stop reason now m)"
| proceed: "move_run m \<Longrightarrow> move_run (mover_proceed m)"
| cancel: "move_run m \<Longrightarrow> move_run (mover_cancel m)"

text \<open>The flags of the acknowledgement: the press was written, the release was written.\<close>

definition pressed :: "mover \<Rightarrow> bool" where
  "pressed m \<longleftrightarrow> bit (ma_flags (mv_ack m)) 1"

definition released :: "mover \<Rightarrow> bool" where
  "released m \<longleftrightarrow> bit (ma_flags (mv_ack m)) 2"

lemma flag_tests [simp]:
  "(ma_flags (mv_ack m) AND 2) \<noteq> 0 \<longleftrightarrow> pressed m" "(ma_flags (mv_ack m) AND 2) = 0 \<longleftrightarrow> \<not> pressed m"
  "(ma_flags (mv_ack m) AND 4) \<noteq> 0 \<longleftrightarrow> released m" "(ma_flags (mv_ack m) AND 4) = 0 \<longleftrightarrow> \<not> released m"
proof -
  have b: "((w :: u8) AND 2 ^ n) = 0 \<longleftrightarrow> \<not> bit w n" for w n
    by (simp add: and_exp_eq_0_iff_not_bit)
  show "(ma_flags (mv_ack m) AND 2) \<noteq> 0 \<longleftrightarrow> pressed m" "(ma_flags (mv_ack m) AND 2) = 0 \<longleftrightarrow> \<not> pressed m"
    "(ma_flags (mv_ack m) AND 4) \<noteq> 0 \<longleftrightarrow> released m" "(ma_flags (mv_ack m) AND 4) = 0 \<longleftrightarrow> \<not> released m"
    using b [of "ma_flags (mv_ack m)" 1] b [of "ma_flags (mv_ack m)" 2] by (simp_all add: pressed_def released_def)
qed

lemma flag_bits: "bit (2 :: u8) (Suc 0)" "\<not> bit (2 :: u8) 2" "bit (4 :: u8) 2" "\<not> bit (4 :: u8) (Suc 0)"
  "\<not> bit (1 :: u8) (Suc 0)" "\<not> bit (1 :: u8) 2"
proof -
  have p: "(2 :: u8) = 2 ^ 1" "(4 :: u8) = 2 ^ 2" "(1 :: u8) = 2 ^ 0" by simp_all
  show "bit (2 :: u8) (Suc 0)" "\<not> bit (2 :: u8) 2" by (subst p(1), simp only: bit_exp_iff, simp)+
  show "bit (4 :: u8) 2" "\<not> bit (4 :: u8) (Suc 0)" by (subst p(2), simp only: bit_exp_iff, simp)+
  show "\<not> bit (1 :: u8) (Suc 0)" "\<not> bit (1 :: u8) 2" by (subst p(3), simp only: bit_exp_iff, simp)+
qed

definition mover_ok :: "mover \<Rightarrow> bool" where
  "mover_ok m \<longleftrightarrow> (let a = mv_ack m in
     ma_residual_x a = ma_out_x a + ma_return_x a \<and> ma_residual_y a = ma_out_y a + ma_return_y a
     \<and> (mv_pending m \<longrightarrow> mover_active m \<and> stage_kind (ma_stage a) \<noteq> None)
     \<and> (mover_active m \<longleftrightarrow> ma_stage a \<noteq> St_Done) \<and> ma_stage a \<noteq> St_Idle
     \<and> (ma_stage a \<in> {St_Out, St_Settle, St_Waiting, St_Press} \<longrightarrow> \<not> pressed m \<and> \<not> released m
          \<and> ma_return_x a = 0 \<and> ma_return_y a = 0)
     \<and> (ma_stage a \<in> {St_Hold, St_Release} \<longrightarrow> pressed m \<and> \<not> released m)
     \<and> (ma_stage a \<in> {St_Delay, St_Return} \<longrightarrow> pressed m = released m)
     \<and> (ma_status a \<in> {MS_Completed, MS_Cancelled} \<longrightarrow> pressed m = released m)
     \<and> (released m \<longrightarrow> pressed m))"

lemma flags_frame [simp]:
  "pressed (set_stage v t m) = pressed m" "released (set_stage v t m) = released m"
  "pressed (set_status z m) = pressed m" "released (set_status z m) = released m"
  "pressed (m\<lparr>mv_due := d\<rparr>) = pressed m" "released (m\<lparr>mv_due := d\<rparr>) = released m"
  "pressed (m\<lparr>mv_pending := p\<rparr>) = pressed m" "released (m\<lparr>mv_pending := p\<rparr>) = released m"
  "pressed (m\<lparr>mv_continued := p\<rparr>) = pressed m" "released (m\<lparr>mv_continued := p\<rparr>) = released m"
  "pressed (m\<lparr>mv_cancelled := p\<rparr>) = pressed m" "released (m\<lparr>mv_cancelled := p\<rparr>) = released m"
  "pressed (add_motion e m) = pressed m" "released (add_motion e m) = released m"
  "pressed (set_flag 1 m) = pressed m" "released (set_flag 1 m) = released m"
  "pressed (set_flag 2 m)" "released (set_flag 2 m) = released m"
  "pressed (set_flag 4 m) = pressed m" "released (set_flag 4 m)"
  by (simp_all add: pressed_def released_def set_stage_def set_status_def set_flag_def add_motion_def Let_def
      bit_or_iff flag_bits)

text \<open>What each elementary update leaves, so that the invariant never looks inside.\<close>

lemma stage_frame [simp]:
  "mv_stage (set_stage v t m) = v" "mv_pending (set_stage v t m) = mv_pending m" "mv_request (set_stage v t m) = mv_request m"
  "mover_active (set_stage v t m) = mover_active m" "mv_cancelled (set_stage v t m) = mv_cancelled m"
  "ma_residual_x (mv_ack (set_stage v t m)) = ma_residual_x (mv_ack m)"
  "ma_residual_y (mv_ack (set_stage v t m)) = ma_residual_y (mv_ack m)"
  "ma_out_x (mv_ack (set_stage v t m)) = ma_out_x (mv_ack m)" "ma_out_y (mv_ack (set_stage v t m)) = ma_out_y (mv_ack m)"
  "ma_return_x (mv_ack (set_stage v t m)) = ma_return_x (mv_ack m)"
  "ma_return_y (mv_ack (set_stage v t m)) = ma_return_y (mv_ack m)"
  "ma_status (mv_ack (set_stage v t m)) = ma_status (mv_ack m)"
  by (simp_all add: set_stage_def mover_active_def)

lemma status_frame [simp]:
  "mv_stage (set_status z m) = mv_stage m" "mv_pending (set_status z m) = mv_pending m" "mv_request (set_status z m) = mv_request m"
  "mover_active (set_status z m) \<longleftrightarrow> z = MS_Active \<or> z = MS_Accepted" "mv_cancelled (set_status z m) = mv_cancelled m"
  "ma_residual_x (mv_ack (set_status z m)) = ma_residual_x (mv_ack m)"
  "ma_residual_y (mv_ack (set_status z m)) = ma_residual_y (mv_ack m)"
  "ma_out_x (mv_ack (set_status z m)) = ma_out_x (mv_ack m)" "ma_out_y (mv_ack (set_status z m)) = ma_out_y (mv_ack m)"
  "ma_return_x (mv_ack (set_status z m)) = ma_return_x (mv_ack m)"
  "ma_return_y (mv_ack (set_status z m)) = ma_return_y (mv_ack m)"
  "ma_status (mv_ack (set_status z m)) = z"
  by (simp_all add: set_status_def mover_active_def)

lemma flag_frame [simp]:
  "mv_stage (set_flag b m) = mv_stage m" "mv_pending (set_flag b m) = mv_pending m" "mv_request (set_flag b m) = mv_request m"
  "mover_active (set_flag b m) = mover_active m" "mv_cancelled (set_flag b m) = mv_cancelled m"
  "ma_residual_x (mv_ack (set_flag b m)) = ma_residual_x (mv_ack m)"
  "ma_residual_y (mv_ack (set_flag b m)) = ma_residual_y (mv_ack m)"
  "ma_out_x (mv_ack (set_flag b m)) = ma_out_x (mv_ack m)" "ma_out_y (mv_ack (set_flag b m)) = ma_out_y (mv_ack m)"
  "ma_return_x (mv_ack (set_flag b m)) = ma_return_x (mv_ack m)"
  "ma_return_y (mv_ack (set_flag b m)) = ma_return_y (mv_ack m)"
  "ma_status (mv_ack (set_flag b m)) = ma_status (mv_ack m)"
  by (simp_all add: set_flag_def mover_active_def)

lemma active_frame [simp]:
  "mover_active (m\<lparr>mv_due := d\<rparr>) = mover_active m" "mover_active (m\<lparr>mv_pending := p\<rparr>) = mover_active m"
  "mover_active (m\<lparr>mv_continued := p\<rparr>) = mover_active m" "mover_active (m\<lparr>mv_cancelled := p\<rparr>) = mover_active m"
  by (simp_all add: mover_active_def)

lemma add_motion_frame [simp]:
  "mv_stage (add_motion e m) = mv_stage m" "mv_pending (add_motion e m) = mv_pending m"
  "mv_request (add_motion e m) = mv_request m" "mover_active (add_motion e m) = mover_active m"
  "mv_cancelled (add_motion e m) = mv_cancelled m" "ma_status (mv_ack (add_motion e m)) = ma_status (mv_ack m)"
  "ma_residual_x (mv_ack (add_motion e m)) = ma_out_x (mv_ack (add_motion e m)) + ma_return_x (mv_ack (add_motion e m))"
  "ma_residual_y (mv_ack (add_motion e m)) = ma_out_y (mv_ack (add_motion e m)) + ma_return_y (mv_ack (add_motion e m))"
  "ma_out_x (mv_ack (add_motion e m)) = ma_out_x (mv_ack m) + (if we_kind e = RK_TransactionOut then we_dx e else 0)"
  "ma_out_y (mv_ack (add_motion e m)) = ma_out_y (mv_ack m) + (if we_kind e = RK_TransactionOut then we_dy e else 0)"
  "ma_return_x (mv_ack (add_motion e m)) = ma_return_x (mv_ack m) + (if we_kind e = RK_TransactionReturn then we_dx e else 0)"
  "ma_return_y (mv_ack (add_motion e m)) = ma_return_y (mv_ack m) + (if we_kind e = RK_TransactionReturn then we_dy e else 0)"
  by (simp_all add: add_motion_def mover_active_def Let_def)

lemma mover_okD:
  assumes "mover_ok m"
  shows "ma_residual_x (mv_ack m) = ma_out_x (mv_ack m) + ma_return_x (mv_ack m)"
    "ma_residual_y (mv_ack m) = ma_out_y (mv_ack m) + ma_return_y (mv_ack m)"
    "mv_pending m \<Longrightarrow> mover_active m \<and> stage_kind (mv_stage m) \<noteq> None"
    "mover_active m \<longleftrightarrow> mv_stage m \<noteq> St_Done" "mv_stage m \<noteq> St_Idle" "released m \<Longrightarrow> pressed m"
  using assms by (auto simp: mover_ok_def Let_def)

lemma mover_active_status: "mover_active m \<Longrightarrow> ma_status (mv_ack m) \<noteq> MS_Completed \<and> ma_status (mv_ack m) \<noteq> MS_Cancelled"
  by (auto simp: mover_active_def)

lemma mover_stop_ok:
  assumes "mover_ok m" and "reason \<notin> {MS_Completed, MS_Cancelled, MS_Active, MS_Accepted}"
  shows "mover_ok (mover_stop reason now m)"
  using assms by (auto simp: mover_stop_def mover_ok_def Let_def)

lemma mover_start_ok: "mover_ok (mover_start r e now)"
  by (simp add: mover_start_def mover_ok_def mover_active_def Let_def pressed_def released_def no_ack_def)

lemma mover_proceed_ok: "mover_ok m \<Longrightarrow> mover_ok (mover_proceed m)"
  by (auto simp: mover_proceed_def mover_ok_def Let_def)

lemma mover_cancel_ok: "mover_ok m \<Longrightarrow> mover_ok (mover_cancel m)"
  by (auto simp: mover_cancel_def mover_ok_def Let_def)

text \<open>Moving on to another stage while nothing is pending.\<close>

lemma set_stage_ok:
  assumes "mover_ok m" and "mover_active m" and "\<not> mv_pending m" and "v \<noteq> St_Done" and "v \<noteq> St_Idle"
    and "v \<in> {St_Out, St_Settle, St_Waiting, St_Press} \<Longrightarrow> mv_stage m \<in> {St_Out, St_Settle, St_Waiting, St_Press}"
    and "v \<in> {St_Hold, St_Release} \<Longrightarrow> pressed m \<and> \<not> released m"
    and "v \<in> {St_Delay, St_Return} \<Longrightarrow> pressed m = released m"
  shows "mover_ok (set_stage v now m)"
  using assms mover_active_status [OF assms(2)] by (auto simp: mover_ok_def Let_def)

lemma mover_ok_frame [simp]:
  "mover_ok (m\<lparr>mv_due := d\<rparr>) = mover_ok m" "mover_ok (m\<lparr>mv_cancelled := c\<rparr>) = mover_ok m"
  by (simp_all add: mover_ok_def Let_def)

lemma leave_ok:
  assumes "mover_ok m" and "mover_active m" and "\<not> mv_pending m"
  shows "mover_ok (leave_if_cancelled now m) \<and> mover_active (leave_if_cancelled now m) \<and> \<not> mv_pending (leave_if_cancelled now m)"
  using assms set_stage_ok [OF assms, of St_Release now] set_stage_ok [OF assms, of St_Delay now] mover_okD(6) [OF assms(1)]
  by (auto simp: leave_if_cancelled_def)

lemma stage_step_ok:
  assumes ok: "mover_ok m" and act: "mover_active m" and idle: "\<not> mv_pending m"
  shows "case stage_step now m of Inl m' \<Rightarrow> mover_ok m' | Inr (c, k, b) \<Rightarrow> stage_kind (mv_stage m) = Some k"
proof -
  note st = set_stage_ok [OF ok act idle]
  have early: "mv_stage m \<in> {St_Out, St_Settle, St_Waiting, St_Press} \<Longrightarrow> pressed m = released m"
    "mv_stage m \<in> {St_Hold, St_Release} \<Longrightarrow> pressed m \<and> \<not> released m"
    "mv_stage m \<in> {St_Delay, St_Return} \<Longrightarrow> pressed m = released m"
    using ok by (auto simp: mover_ok_def Let_def)
  have cancelled: "set_stage v now (m\<lparr>mv_cancelled := c\<rparr>) = (set_stage v now m)\<lparr>mv_cancelled := c\<rparr>" for v c
    by (simp add: set_stage_def)
  have fin: "mover_ok (set_stage St_Done now (set_status (done_status m) m))" if "mv_stage m = St_Delay"
    using ok act idle early(3) that by (simp add: mover_ok_def Let_def done_status_def)
  show ?thesis
  proof (cases "mv_stage m")
    case St_Waiting
    then show ?thesis
      using ok early(1) st [of St_Press] st [of St_Delay] by (auto simp: stage_step_def Let_def cancelled)
  next
    case St_Delay
    then show ?thesis
      using ok early(3) st [of St_Return] fin by (auto simp: stage_step_def Let_def)
  qed (use ok early st in \<open>auto simp: stage_step_def Let_def\<close>)
qed

lemma mover_tick_ok:
  assumes "mover_ok m" and "mover_tick e now m mx = (reset, m', mx')"
  shows "mover_ok m'"
proof (cases "mover_active m \<and> es_ready e \<and> es_generation e = mr_generation (mv_request m)
    \<and> es_activity e = mv_activity m \<and> \<not> mv_deadline m \<le> now \<and> \<not> mv_pending m")
  case False
  then show ?thesis
    using assms mover_stop_ok [OF assms(1)] by (auto simp: mover_tick_def split: if_splits)
next
  case True
  let ?m = "leave_if_cancelled now m"
  have l: "mover_ok ?m" "mover_active ?m" "\<not> mv_pending ?m" using leave_ok [OF assms(1), of now] True by simp_all
  note s = stage_step_ok [OF l, of now]
  have pend: "mover_ok (?m\<lparr>mv_pending := True\<rparr>)" if "stage_kind (mv_stage ?m) \<noteq> None"
    using l that by (auto simp: mover_ok_def Let_def)
  show ?thesis
  proof (cases "stage_step now ?m")
    case (Inl m1)
    then show ?thesis using assms(2) True s by (auto simp: mover_tick_def Let_def)
  next
    case (Inr q)
    then show ?thesis
      using assms(2) True s l(1) pend mover_stop_ok [OF l(1)]
      by (auto simp: mover_tick_def Let_def split: prod.splits enqueue_result.splits)
  qed
qed

lemma mover_event_ok:
  assumes ok: "mover_ok m" and own: "own_event m e"
  shows "mover_ok (mover_event e m)"
proof (cases "mover_active m \<and> we_session e = mr_session (mv_request m) \<and> we_command e = mr_command (mv_request m)
    \<and> we_generation e = mr_generation (mv_request m) \<and> we_success e \<and> transaction (we_kind e)")
  case False
  then show ?thesis using ok mover_stop_ok [OF ok] by (auto simp: mover_event_def)
next
  case True
  then have p: "mv_pending m" "stage_kind (mv_stage m) = Some (we_kind e)" using own by (simp_all add: own_event_def)
  have early: "mv_stage m \<in> {St_Out, St_Settle, St_Waiting, St_Press} \<Longrightarrow> \<not> pressed m \<and> \<not> released m
      \<and> ma_return_x (mv_ack m) = 0 \<and> ma_return_y (mv_ack m) = 0"
    "mv_stage m \<in> {St_Hold, St_Release} \<Longrightarrow> pressed m \<and> \<not> released m"
    "mv_stage m \<in> {St_Delay, St_Return} \<Longrightarrow> pressed m = released m"
    using ok by (auto simp: mover_ok_def Let_def)
  have act: "mover_active m" "ma_status (mv_ack m) \<noteq> MS_Completed" "ma_status (mv_ack m) \<noteq> MS_Cancelled"
    using True mover_active_status by auto
  have add: "mover_ok (add_motion e m)"
    using ok p early by (cases "mv_stage m") (auto simp: mover_ok_def Let_def)
  have stop: "mover_ok (mover_stop MS_ButtonActive t (add_motion e m\<lparr>mv_pending := False\<rparr>))" for t
    by (rule mover_stop_ok) (use add in \<open>auto simp: mover_ok_def Let_def\<close>)
  have "mover_ok (step_finished e (add_motion e m))"
    using p early act stop mover_okD(4) [OF ok]
    by (cases "mv_stage m")
      (auto simp: step_finished_def Let_def mover_ok_def done_status_def simp del: mover_ok_frame)
  then show ?thesis using True add by (simp add: mover_event_def Let_def)
qed

lemma move_run_ok: "move_run m \<Longrightarrow> mover_ok m"
proof (induction rule: move_run.induct)
  case (start r e now)
  show ?case by (rule mover_start_ok)
next
  case (tick m e now mx reset m' mx')
  then show ?case using mover_tick_ok by blast
qed (auto intro: mover_event_ok mover_stop_ok mover_proceed_ok mover_cancel_ok)

subsection \<open>How a tick ends a transaction\<close>

lemma mover_stop_active:
  assumes "mover_active m"
  shows "mv_stage (mover_stop reason now m) = St_Done" "\<not> mv_pending (mover_stop reason now m)"
    "ma_status (mv_ack (mover_stop reason now m)) = reason"
    "mover_active (mover_stop reason now m) \<longleftrightarrow> reason = MS_Active \<or> reason = MS_Accepted"
    "mv_pending m \<Longrightarrow> bit (ma_flags (mv_ack (mover_stop reason now m))) 0"
  using assms
  by (auto simp: mover_stop_def mover_active_def set_flag_def set_stage_def set_status_def bit_or_iff Let_def)

lemma stage_step_active:
  assumes "mover_active m" and "stage_step now m = Inl m'"
  shows "mover_active m' \<or> ma_status (mv_ack m') \<in> {MS_Completed, MS_Cancelled}"
  using assms by (cases "mv_stage m") (auto simp: stage_step_def Let_def done_status_def split: if_splits)

lemma leave_active [simp]: "mover_active (leave_if_cancelled now m) = mover_active m"
  "mv_pending (leave_if_cancelled now m) = mv_pending m"
  by (simp_all add: leave_if_cancelled_def)

lemma mover_tick_outcome:
  assumes ok: "mover_ok m" and tick: "mover_tick e now m mx = (reset, m', mx')"
  shows "(reset \<longleftrightarrow> mover_active m \<and> \<not> mover_active m' \<and> ma_status (mv_ack m') \<notin> {MS_Completed, MS_Cancelled})
    \<and> (\<not> mover_active m \<longrightarrow> m' = m \<and> mx' = mx)
    \<and> (mover_active m \<longrightarrow>
        (\<not> es_ready e \<or> es_generation e \<noteq> mr_generation (mv_request m) \<longrightarrow> m' = mover_stop MS_EndpointChanged now m)
        \<and> (es_ready e \<and> es_generation e = mr_generation (mv_request m) \<and> es_activity e \<noteq> mv_activity m
             \<longrightarrow> m' = mover_stop MS_Interrupted now m)
        \<and> (es_ready e \<and> es_generation e = mr_generation (mv_request m) \<and> es_activity e = mv_activity m
             \<and> mv_deadline m \<le> now \<longrightarrow> m' = mover_stop MS_Timeout now m))
    \<and> (reset \<longrightarrow> mv_stage m' = St_Done \<and> \<not> mv_pending m' \<and> (mv_pending m \<longrightarrow> bit (ma_flags (mv_ack m')) 0))"
proof (cases "mover_active m \<and> es_ready e \<and> es_generation e = mr_generation (mv_request m)
    \<and> es_activity e = mv_activity m \<and> \<not> mv_deadline m \<le> now \<and> \<not> mv_pending m")
  case False
  then show ?thesis using tick mover_stop_active [of m] by (auto simp: mover_tick_def split: if_splits)
next
  case True
  let ?m = "leave_if_cancelled now m"
  have act: "mover_active ?m" "\<not> mv_pending ?m" using True by simp_all
  show ?thesis
  proof (cases "stage_step now ?m")
    case (Inl m1)
    then show ?thesis using tick True stage_step_active [OF act(1) Inl] by (auto simp: mover_tick_def Let_def)
  next
    case (Inr q)
    then show ?thesis
      using tick True act mover_stop_active [OF act(1)]
      by (auto simp: mover_tick_def Let_def split: prod.splits enqueue_result.splits)
  qed
qed

end
