(* ===== verification/Mixer_Facts.thy ===== *)
theory Mixer_Facts
  imports Mouse_Mixer
begin

text \<open>
  What the mixer guarantees: the reports it builds decode to the physical motion plus the
  synthetic one, each item is in flight at most once, a successful write takes exactly the
  written motion off its item, a failed or outdated one takes nothing, and the queues stay bounded.
\<close>

subsection \<open>Writing known fields\<close>

lemma length_apply_known_fields [simp]: "length (io_data (apply_known_fields m io x y w p b)) = length (io_data io)"
  by (simp add: apply_known_fields_def Let_def)

lemma apply_known_fields_frame [simp]:
  "io_length (apply_known_fields m io x y w p b) = io_length io"
  by (simp add: apply_known_fields_def Let_def)

lemma put_or_keep:
  assumes "hf_bits f \<noteq> 0 \<longrightarrow> field_ok f \<and> inside f p" and "v = hid_get f p + d"
    and "d \<noteq> 0 \<longrightarrow> axis_fits f v"
  shows "hid_get f (snd (hid_put f p v)) = v"
proof (cases "axis_fits f v")
  case True
  then show ?thesis using put_axis_get(2) [OF assms(1)] by (simp add: axis_fits_def)
next
  case False
  then have "snd (hid_put f p v) = p" by (auto simp: hid_put_def axis_fits_def in_range_def split: if_splits)
  with assms False show ?thesis by auto
qed

text \<open>
  The axes after \<open>apply_known_fields\<close>: each holds the written value, where that is the value it had
  plus a change that fits.
\<close>

lemma get_apply_known_fields:
  assumes ok: "profile_ok m" and len: "mp_size m \<le> length (io_data io)"
    and x: "x = hid_get (mp_x m) (io_data io) + dx" "dx \<noteq> 0 \<longrightarrow> axis_fits (mp_x m) x"
    and y: "y = hid_get (mp_y m) (io_data io) + dy" "dy \<noteq> 0 \<longrightarrow> axis_fits (mp_y m) y"
    and w: "w = hid_get (mp_wheel m) (io_data io) + dw" "dw \<noteq> 0 \<longrightarrow> axis_fits (mp_wheel m) w"
    and q: "q = hid_get (mp_pan m) (io_data io) + dq" "dq \<noteq> 0 \<longrightarrow> axis_fits (mp_pan m) q"
    and p_def: "p = io_data (apply_known_fields m io x y w q b)"
  shows "hid_get (mp_x m) p = x" "hid_get (mp_y m) p = y" "hid_get (mp_wheel m) p = w" "hid_get (mp_pan m) p = q"
proof -
  let ?p0 = "io_data io"
  let ?p1 = "snd (hid_put (mp_x m) ?p0 x)"
  let ?p2 = "snd (hid_put (mp_y m) ?p1 y)"
  let ?p3 = "snd (hid_put (mp_wheel m) ?p2 w)"
  let ?p4 = "snd (hid_put (mp_pan m) ?p3 q)"
  have p: "p = put_buttons m ?p4 b" by (simp add: p_def apply_known_fields_def Let_def)
  have skip: "hid_get g (snd (hid_put f r v)) = hid_get g r"
    if "mp_size m \<le> length r" "role m k = present f" "role m k' = present g" "k \<noteq> k'" "is_axis k" for f g r v k k'
    using that axis_fields(2) [OF ok that(1)] axis_fields_disjoint [OF ok]
    by (intro get_put_axis_other) (auto simp: is_axis_def)
  have own: "hid_get f (snd (hid_put f r v)) = v"
    if "mp_size m \<le> length r" "role m k = present f" "is_axis k" "v = hid_get f r + d" "d \<noteq> 0 \<longrightarrow> axis_fits f v"
    for f r v k d
    by (rule put_or_keep [OF axis_fields(1) [OF ok that(1,3,2)] that(4,5)])
  have btn: "hid_get f p = hid_get f ?p4" if "role m k = present f" "is_axis k" for f k
  proof (cases "hf_bits f = 0")
    case False
    then have f: "role m k = Some f" using that by (simp add: present_def)
    have l: "mp_size m \<le> length ?p4" using len by simp
    show ?thesis
      unfolding p put_buttons_def
    proof (rule get_put_buttons_other, safe)
      fix n g assume e: "(n, g) \<in> set (mp_buttons m)"
      note r = profile_fields(4) [OF ok l e, simplified]
      show "inside g ?p4" using profile_fields(1) [OF ok l, of "Role_Button n"] r by simp
      show "disjoint_fields g f"
        by (rule profile_fields(3) [OF ok l _ _ f, of "Role_Button n"]) (use r that(2) in \<open>auto simp: is_axis_def\<close>)
    qed
  qed (simp add: hid_get_def)
  have ax: "is_axis Role_X" "is_axis Role_Y" "is_axis Role_Wheel" "is_axis Role_Pan" by (simp_all add: is_axis_def)
  have len': "mp_size m \<le> length ?p1" "mp_size m \<le> length ?p2" "mp_size m \<le> length ?p3" using len by simp_all
  have x1: "hid_get (mp_x m) ?p1 = x" by (rule own [OF len _ ax(1) x]) simp
  have "y = hid_get (mp_y m) ?p1 + dy" using y(1) skip [OF len, of Role_X "mp_x m" Role_Y "mp_y m"] ax by simp
  from own [OF len'(1) _ ax(2) this y(2)] have y2: "hid_get (mp_y m) ?p2 = y" by simp
  have "w = hid_get (mp_wheel m) ?p2 + dw"
    using w(1) ax skip [OF len, of Role_X "mp_x m" Role_Wheel "mp_wheel m"]
      skip [OF len'(1), of Role_Y "mp_y m" Role_Wheel "mp_wheel m"] by simp
  from own [OF len'(2) _ ax(3) this w(2)] have w3: "hid_get (mp_wheel m) ?p3 = w" by simp
  have "q = hid_get (mp_pan m) ?p3 + dq"
    using q(1) ax skip [OF len, of Role_X "mp_x m" Role_Pan "mp_pan m"]
      skip [OF len'(1), of Role_Y "mp_y m" Role_Pan "mp_pan m"]
      skip [OF len'(2), of Role_Wheel "mp_wheel m" Role_Pan "mp_pan m"] by simp
  from own [OF len'(3) _ ax(4) this q(2)] have q4: "hid_get (mp_pan m) ?p4 = q" by simp
  show "hid_get (mp_x m) p = x"
    using x1 ax btn [of Role_X "mp_x m"] skip [OF len'(1), of Role_Y "mp_y m" Role_X "mp_x m"]
      skip [OF len'(2), of Role_Wheel "mp_wheel m" Role_X "mp_x m"]
      skip [OF len'(3), of Role_Pan "mp_pan m" Role_X "mp_x m"] by simp
  show "hid_get (mp_y m) p = y"
    using y2 ax btn [of Role_Y "mp_y m"] skip [OF len'(2), of Role_Wheel "mp_wheel m" Role_Y "mp_y m"]
      skip [OF len'(3), of Role_Pan "mp_pan m" Role_Y "mp_y m"] by simp
  show "hid_get (mp_wheel m) p = w"
    using w3 ax btn [of Role_Wheel "mp_wheel m"] skip [OF len'(3), of Role_Pan "mp_pan m" Role_Wheel "mp_wheel m"]
    by simp
  show "hid_get (mp_pan m) p = q" using q4 ax btn [of Role_Pan "mp_pan m"] by simp
qed

text \<open>The buttons after \<open>put_buttons\<close>.\<close>

lemma get_put_button:
  assumes ok: "profile_ok m" and len: "mp_size m \<le> length p" and bin: "binary_buttons m"
    and e: "e \<in> set (mp_buttons m)"
  shows "hid_get (snd e) (put_buttons m p b) = uint (drop_bit (fst e - 1) b AND 1)"
  unfolding put_buttons_def
proof (rule get_put_buttons [OF _ buttons_disjoint [OF ok]])
  show "(fst e, snd e) \<in> set (mp_buttons m)" using e by simp
  show "\<forall>(n, f)\<in>set (mp_buttons m). inside f p \<and> field_ok f \<and> in_range f (uint (drop_bit (n - 1) b AND 1))"
  proof safe
    fix n f assume nf: "(n, f) \<in> set (mp_buttons m)"
    show "inside f p" using profile_fields(1) [OF ok len profile_fields(4) [OF ok len nf]] by simp
    show "field_ok f" "in_range f (uint (drop_bit (n - 1) b AND 1))"
      using button_level [OF ok bin nf] by simp_all
  qed
qed

lemma button_mask_put_buttons:
  assumes "profile_ok m" and "mp_size m \<le> length p" and "binary_buttons m"
  shows "button_mask m (put_buttons m p b) = b AND supported_mask m"
proof (rule bit_word_eqI)
  fix j :: nat assume j: "j < LENGTH(8)"
  have "hid_get (snd e) (put_buttons m p b) \<noteq> 0 \<longleftrightarrow> bit b (fst e - 1)" if "e \<in> set (mp_buttons m)" for e
    by (simp only: get_put_button [OF assms that] drop_bit_and_1_int)
  with j show "bit (button_mask m (put_buttons m p b)) j = bit (b AND supported_mask m) j"
    by (auto simp: bit_button_mask bit_supported_mask bit_and_iff)
qed

lemma get_axis_put_buttons:
  assumes ok: "profile_ok m" and len: "mp_size m \<le> length p" and k: "is_axis k" "role m k = present f"
  shows "hid_get f (put_buttons m p b) = hid_get f p"
proof (cases "hf_bits f = 0")
  case False
  then have f: "role m k = Some f" using k by (simp add: present_def)
  show ?thesis
    unfolding put_buttons_def
  proof (rule get_put_buttons_other, safe)
    fix n g assume e: "(n, g) \<in> set (mp_buttons m)"
    note r = profile_fields(4) [OF ok len e, simplified]
    show "inside g p" using profile_fields(1) [OF ok len, of "Role_Button n"] r by simp
    show "disjoint_fields g f"
      by (rule profile_fields(3) [OF ok len _ _ f, of "Role_Button n"]) (use r k in \<open>auto simp: is_axis_def\<close>)
  qed
qed (simp add: hid_get_def)

lemma axis_roles [simp]: "is_axis Role_X" "is_axis Role_Y" "is_axis Role_Wheel" "is_axis Role_Pan"
  by (simp_all add: is_axis_def)

subsection \<open>What a report says\<close>

text \<open>A report as the reader leaves it in the queue: its metadata are what its bytes say.\<close>

definition decoded :: "mouse_profile \<Rightarrow> transfer_io \<Rightarrow> bool" where
  "decoded m io \<longleftrightarrow> io_physical_x io = hid_get (mp_x m) (io_data io)
     \<and> io_physical_y io = hid_get (mp_y m) (io_data io)
     \<and> io_physical_wheel io = hid_get (mp_wheel m) (io_data io)
     \<and> io_physical_pan io = hid_get (mp_pan m) (io_data io)
     \<and> io_physical_buttons io = button_mask m (io_data io)"

text \<open>A report as the writer gets it: its bytes say the physical motion plus the synthetic one.\<close>

definition faithful_axes :: "mouse_profile \<Rightarrow> transfer_io \<Rightarrow> bool" where
  "faithful_axes m io \<longleftrightarrow>
     hid_get (mp_x m) (io_data io) = io_physical_x io + io_synthetic_x io
     \<and> hid_get (mp_y m) (io_data io) = io_physical_y io + io_synthetic_y io
     \<and> hid_get (mp_wheel m) (io_data io) = io_physical_wheel io + io_synthetic_wheel io
     \<and> hid_get (mp_pan m) (io_data io) = io_physical_pan io + io_synthetic_pan io"

definition faithful :: "mouse_profile \<Rightarrow> transfer_io \<Rightarrow> bool" where
  "faithful m io \<longleftrightarrow> faithful_axes m io
     \<and> (binary_buttons m \<longrightarrow> button_mask m (io_data io) = io_final_buttons io AND supported_mask m)"

definition unmixed :: "transfer_io \<Rightarrow> bool" where
  "unmixed io \<longleftrightarrow> io_item io = 0 \<and> io_synthetic_x io = 0 \<and> io_synthetic_y io = 0
     \<and> io_synthetic_wheel io = 0 \<and> io_synthetic_pan io = 0"

lemma field_fits_axis: "field_fits f p d \<Longrightarrow> d \<noteq> 0 \<longrightarrow> axis_fits f (p + d)"
  by (auto simp: field_fits_def axis_fits_def in_range_def Let_def split: if_splits)

lemma apply_faithful:
  assumes ok: "profile_ok m" and len: "mp_size m \<le> length (io_data io)" and dec: "decoded m io"
    and fits: "motion_fits m io c"
    and x: "x = io_physical_x io + cmd_x c" and y: "y = io_physical_y io + cmd_y c"
    and w: "w = io_physical_wheel io + cmd_wheel c" and q: "q = io_physical_pan io + cmd_pan c"
    and syn: "io_synthetic_x io = cmd_x c" "io_synthetic_y io = cmd_y c"
      "io_synthetic_wheel io = cmd_wheel c" "io_synthetic_pan io = cmd_pan c"
  shows "faithful m (apply_known_fields m io x y w q (io_final_buttons io))"
proof -
  have d: "x = hid_get (mp_x m) (io_data io) + cmd_x c" "y = hid_get (mp_y m) (io_data io) + cmd_y c"
    "w = hid_get (mp_wheel m) (io_data io) + cmd_wheel c" "q = hid_get (mp_pan m) (io_data io) + cmd_pan c"
    using dec x y w q by (simp_all add: decoded_def)
  have f: "cmd_x c \<noteq> 0 \<longrightarrow> axis_fits (mp_x m) x" "cmd_y c \<noteq> 0 \<longrightarrow> axis_fits (mp_y m) y"
    "cmd_wheel c \<noteq> 0 \<longrightarrow> axis_fits (mp_wheel m) w" "cmd_pan c \<noteq> 0 \<longrightarrow> axis_fits (mp_pan m) q"
    using fits unfolding motion_fits_def x y w q by (blast dest: field_fits_axis)+
  note g = get_apply_known_fields [OF ok len d(1) f(1) d(2) f(2) d(3) f(3) d(4) f(4) refl]
  have b: "button_mask m (io_data (apply_known_fields m io x y w q (io_final_buttons io)))
      = io_final_buttons io AND supported_mask m" if "binary_buttons m"
    unfolding apply_known_fields_def Let_def
    using button_mask_put_buttons [OF ok _ that] len by simp
  show ?thesis
    using g b by (simp add: faithful_def faithful_axes_def x y w q syn) (simp add: apply_known_fields_def Let_def syn)
qed

lemma motion_fits_none [simp]: "motion_fits m io no_command"
  by (simp add: motion_fits_def no_command_def field_fits_def)

lemma motion_fits_cong:
  assumes "io_physical_x io' = io_physical_x io" "io_physical_y io' = io_physical_y io"
    "io_physical_wheel io' = io_physical_wheel io" "io_physical_pan io' = io_physical_pan io"
  shows "motion_fits m io' c = motion_fits m io c"
  by (simp add: motion_fits_def assms)

text \<open>What describing an item leaves in a report, and in the endpoint.\<close>

lemma described_report:
  assumes "describe_synthetic ep i io c ab sa co = (r, ep')"
  shows "io_data r = io_data io" "io_length r = io_length io" "io_synthetic_x r = cmd_x c"
    "io_synthetic_y r = cmd_y c" "io_synthetic_wheel r = cmd_wheel c" "io_synthetic_pan r = cmd_pan c"
    "io_physical_x r = io_physical_x io" "io_physical_y r = io_physical_y io"
    "io_physical_wheel r = io_physical_wheel io" "io_physical_pan r = io_physical_pan io"
    "io_physical_buttons r = io_physical_buttons io" "io_final_buttons r = io_final_buttons io"
    "io_match r = io_match io" "io_generation r = en_generation ep" "io_instance r = en_instance ep"
    "io_item r = si_id i" "io_apply_buttons r = ab" "io_persistent r = si_persistent i"
    "io_scheduled r = si_scheduled i" "io_kind r = si_kind i" "io_session r = si_session i"
    "io_command r = si_command i" "io_index r = si_index i" "io_managed r" "io_physical r = io_physical io"
    "io_standalone r = sa" "io_competing r = co"
  using assms by (auto simp: describe_synthetic_def Let_def split: if_splits)

lemma described_endpoint:
  "describe_synthetic ep i io c ab sa co = (r, ep') \<Longrightarrow> ep' = ep\<lparr>en_inflight := True, en_inflight_id := si_id i\<rparr>"
  by (simp add: describe_synthetic_def Let_def split: if_splits)

text \<open>What a physical report is mixed with.\<close>

definition mixed_in :: "endpoint \<Rightarrow> synthetic_item option \<Rightarrow> mix_plan \<Rightarrow> transfer_io \<Rightarrow> bool" where
  "mixed_in ep front plan io \<longleftrightarrow> front \<noteq> None \<and> compatible ep io \<and> (pl_fuse plan \<or> pl_buttons_only plan)"

definition mixed_motion :: "endpoint \<Rightarrow> synthetic_item option \<Rightarrow> mix_plan \<Rightarrow> transfer_io \<Rightarrow> mouse_command" where
  "mixed_motion ep front plan io =
    (if mixed_in ep front plan io \<and> pl_fuse plan then fusion_motion ep (the front) else no_command)"

lemma mixed_motion_fits:
  assumes "plan = mix_decision ep front (io # rest)"
  shows "motion_fits (en_profile ep) io (mixed_motion ep front plan io)"
  using assms by (auto simp: mixed_motion_def mixed_in_def mix_decision_def Let_def)

text \<open>
  The four outcomes of \<open>mix_physical\<close> in two: the report as it was, or its fields rewritten with
  the motion and the buttons to mix in.
\<close>

lemma mix_physical_incompatible:
  assumes "\<not> compatible ep io"
  shows "mix_physical ep front plan io = (io\<lparr>io_managed := True, io_physical := True\<rparr>, ep)"
  using assms by (auto simp: mix_physical_def compatible_def Let_def split: option.splits)

lemma mix_physical_plain:
  assumes "compatible ep io" and "\<not> mixed_in ep front plan io"
    and "b = io_physical_buttons io OR en_persistent ep OR en_scheduled ep"
    and "io' = io\<lparr>io_managed := True, io_physical := True, io_final_buttons := b\<rparr>"
  shows "mix_physical ep front plan io = (apply_known_fields (en_profile ep) io' (io_physical_x io)
     (io_physical_y io) (io_physical_wheel io) (io_physical_pan io) b, ep)"
  using assms
  by (auto simp: mix_physical_def mixed_in_def compatible_def Let_def no_command_def split: option.splits)

lemma mix_physical_mixed:
  assumes "compatible ep io" and "mixed_in ep (Some i) plan io"
    and "c = mixed_motion ep (Some i) plan io"
    and "describe_synthetic ep i (io\<lparr>io_managed := True, io_physical := True\<rparr>) c True False False = (d, ep')"
    and "b = io_physical_buttons io OR si_persistent i OR si_scheduled i"
  shows "mix_physical ep (Some i) plan io = (apply_known_fields (en_profile ep) (d\<lparr>io_final_buttons := b\<rparr>)
     (io_physical_x io + cmd_x c) (io_physical_y io + cmd_y c) (io_physical_wheel io + cmd_wheel c)
     (io_physical_pan io + cmd_pan c) b, ep')"
proof -
  have m: "pl_fuse plan \<or> pl_buttons_only plan" using assms(2) by (simp add: mixed_in_def)
  have c: "c = (if pl_fuse plan then fusion_motion ep i else no_command)"
    using assms(2,3) by (simp add: mixed_motion_def)
  have comp: "compatible ep (io\<lparr>io_managed := True, io_physical := True\<rparr>)" using assms(1) by (simp add: compatible_def)
  note r = described_report [OF assms(4)]
  have "compatible ep' d" using assms(1) described_endpoint [OF assms(4)] by (simp add: compatible_def r)
  then show ?thesis using m comp assms(4)
    by (simp add: mix_physical_def Let_def c [symmetric] r assms(5))
qed

lemma mix_physical_faithful:
  assumes ok: "profile_ok (en_profile ep)" and len: "mp_size (en_profile ep) \<le> length (io_data io)"
    and dec: "decoded (en_profile ep) io" and un: "unmixed io" and comp: "compatible ep io"
    and fits: "motion_fits (en_profile ep) io (mixed_motion ep front plan io)"
    and mix: "mix_physical ep front plan io = (r, ep')"
  shows "faithful (en_profile ep) r"
proof (cases "mixed_in ep front plan io")
  case False
  let ?b = "io_physical_buttons io OR en_persistent ep OR en_scheduled ep"
  let ?io = "io\<lparr>io_managed := True, io_physical := True, io_final_buttons := ?b\<rparr>"
  have "faithful (en_profile ep) (apply_known_fields (en_profile ep) ?io (io_physical_x io) (io_physical_y io)
      (io_physical_wheel io) (io_physical_pan io) (io_final_buttons ?io))"
    by (rule apply_faithful [OF ok, of _ no_command])
      (use len dec un in \<open>simp_all add: decoded_def unmixed_def no_command_def motion_fits_def field_fits_def\<close>)
  then show ?thesis using mix mix_physical_plain [OF comp False refl refl] by auto
next
  case True
  then obtain i where f: "front = Some i" by (auto simp: mixed_in_def)
  define c where "c = mixed_motion ep front plan io"
  obtain d e where d: "describe_synthetic ep i (io\<lparr>io_managed := True, io_physical := True\<rparr>) c True False False = (d, e)"
    by fastforce
  note dr = described_report [OF d]
  let ?b = "io_physical_buttons io OR si_persistent i OR si_scheduled i"
  let ?io = "d\<lparr>io_final_buttons := ?b\<rparr>"
  have "faithful (en_profile ep) (apply_known_fields (en_profile ep) ?io (io_physical_x io + cmd_x c)
      (io_physical_y io + cmd_y c) (io_physical_wheel io + cmd_wheel c) (io_physical_pan io + cmd_pan c)
      (io_final_buttons ?io))"
    by (rule apply_faithful [OF ok, of _ c])
      (use len dec fits in \<open>simp_all add: decoded_def dr c_def motion_fits_def\<close>)
  then show ?thesis
    using mix mix_physical_mixed [OF comp True [unfolded f] c_def [unfolded f] d refl] by (auto simp: f)
qed

subsection \<open>A report of its own\<close>

lemma standalone_faithful:
  assumes ok: "profile_ok (en_profile ep)"
    and size: "length (en_template ep) \<le> MAX_TRANSFER_SIZE" "length (en_latest ep) \<le> MAX_TRANSFER_SIZE"
    and alone: "standalone_report ep n i competing = Some (r, ep')"
  shows "faithful (en_profile ep) r" and "unmixed r \<or> io_item r = si_id i"
    and "io_physical_x r = 0" "io_physical_y r = 0" "io_physical_wheel r = 0" "io_physical_pan r = 0"
    and "length (io_data r) = MAX_TRANSFER_SIZE" and "io_length r = mp_size (en_profile ep)"
    and "\<not> io_physical r" and "io_competing r = competing"
proof -
  let ?m = "en_profile ep"
  define base where "base = (if en_template ep = [] then en_latest ep else en_template ep)"
  define p where "p = clear_relative ?m (blit (io_data (no_io\<lparr>io_ep := n, io_length := mp_size ?m\<rparr>)) 0 base)"
  define c where "c = (si_remaining i)\<lparr>cmd_buttons := si_persistent i OR si_scheduled i\<rparr>"
  define b where "b = en_submitted ep OR si_persistent i OR si_scheduled i"
  from alone obtain a parts where split: "split_mouse_command ?m c = a # parts"
    and d: "describe_synthetic ep i (no_io\<lparr>io_ep := n, io_length := mp_size ?m,
        io_data := put_buttons ?m (snd (encode ?m a p)) b, io_final_buttons := b\<rparr>) a True True competing = (r, ep')"
    by (auto simp: standalone_report_def Let_def base_def p_def c_def b_def split: if_splits list.splits)
  note dr = described_report [OF d]
  have lb: "length base \<le> MAX_TRANSFER_SIZE" using size by (simp add: base_def)
  have lp: "length p = MAX_TRANSFER_SIZE" using lb by (simp add: p_def no_io_def)
  have le: "mp_size ?m \<le> length p" using ok lp by (simp add: profile_ok_def MAX_TRANSFER_SIZE_def)
  have fits: "command_fits ?m a"
    using split split_loop_fits [OF _ profile_axes_ok [OF ok], of c 32 "a # parts"]
    by (auto simp: split_mouse_command_def split: option.splits if_splits)
  have data: "io_data r = put_buttons ?m (encoded ?m a p) b"
    by (simp add: dr encode_encoded [OF fits])
  have le': "mp_size ?m \<le> length (encoded ?m a p)" using le by simp
  note g = get_encoded_axes [OF ok le fits] and ax = get_axis_put_buttons [OF ok le']
  show phys: "io_physical_x r = 0" "io_physical_y r = 0" "io_physical_wheel r = 0" "io_physical_pan r = 0"
    by (simp_all add: dr no_io_def)
  show "faithful ?m r"
    unfolding faithful_def faithful_axes_def data phys
    using button_mask_put_buttons [OF ok le'] ax [of Role_X "mp_x ?m"] ax [of Role_Y "mp_y ?m"]
      ax [of Role_Wheel "mp_wheel ?m"] ax [of Role_Pan "mp_pan ?m"]
    by (simp add: g dr)
  show "unmixed r \<or> io_item r = si_id i" by (simp add: dr)
  show "length (io_data r) = MAX_TRANSFER_SIZE" by (simp add: data lp)
  show "io_length r = mp_size ?m" by (simp add: dr)
  show "\<not> io_physical r" by (simp add: dr no_io_def)
  show "io_competing r = competing" by (simp add: dr)
qed

lemma mix_physical_keeps:
  assumes "mix_physical ep front plan io = (io', ep')"
  shows "io_physical io' \<and> io_physical_x io' = io_physical_x io \<and> io_physical_y io' = io_physical_y io
    \<and> io_physical_buttons io' = io_physical_buttons io \<and> en_info ep' = en_info ep"
  using assms
  by (auto simp: mix_physical_def Let_def describe_synthetic_def apply_known_fields_def split: option.splits if_splits)

lemma standalone_meta:
  assumes "standalone_report ep n i competing = Some (r, ep')"
  shows "\<not> io_physical r" "io_competing r = competing" "en_info ep' = en_info ep"
proof -
  from assms obtain io1 c where d: "describe_synthetic ep i io1 c True True competing = (r, ep')" "\<not> io_physical io1"
    by (auto simp: standalone_report_def Let_def no_io_def split: if_splits list.splits)
  show "\<not> io_physical r" "io_competing r = competing" "en_info ep' = en_info ep"
    using described_report [OF d(1)] described_endpoint [OF d(1)] d(2) by simp_all
qed

end
