(* ===== verification/Mixer_System.thy ===== *)
theory Mixer_System
  imports Mixer_Facts
begin

text \<open>
  The mixer under its threads. \<open>proxy.cpp\<close> runs, for every endpoint, one reader that takes a
  report from the device, passes it to \<open>queue_physical_mouse_report\<close> and appends it to the
  queue, and one writer that takes a report from \<open>take_mouse_report\<close>, writes it to the host and
  reports the outcome; the UDP server enqueues, clears and polls; the control thread registers,
  unregisters and relearns endpoints, and owns the thread information of those not registered. The step relation below interleaves them in every order; each thread
  holds at most one report between two calls.
\<close>

record mouse_system =
  ms_mixer :: mixer
  ms_reader :: "int \<Rightarrow> transfer_io option"
  ms_writer :: "int \<Rightarrow> transfer_io option"

definition system_init :: "(nat \<Rightarrow> mouse_thread) \<Rightarrow> mouse_system" where
  "system_init ths = \<lparr>ms_mixer = \<lparr>mx_next_generation = 0, mx_next_instance = 0, mx_endpoints = [],
     mx_descriptors = [], mx_reports = [], mx_boot = [], mx_selected = -1, mx_events = [],
     mx_overflow = False, mx_threads = ths\<rparr>, ms_reader = \<lambda>_. None, ms_writer = \<lambda>_. None\<rparr>"

text \<open>
  No 64-bit counter is about to wrap: fewer than $2^{64}-1$ layout changes (one generation is used up
  per endpoint at most) and items per endpoint.
\<close>

definition counters_low :: "mixer \<Rightarrow> bool" where
  "counters_low mx \<longleftrightarrow> unat (mx_next_generation mx) + length (mx_endpoints mx) + 1 < 2 ^ 64
     \<and> (\<forall>(a, ep)\<in>set (mx_endpoints mx). en_next_item ep \<noteq> UINT64_MAX)"

text \<open>The thread information as \<open>process_eps\<close> prepares it.\<close>

definition fresh_thread :: "int \<Rightarrow> int \<Rightarrow> u32 \<Rightarrow> mouse_thread" where
  "fresh_thread n a poll = \<lparr>th_ep_num = n, th_address = a, th_queue = [], th_poll_us = poll,
     th_mouse = False, th_pending = Some False\<rparr>"

text \<open>
  A report as the reader fills it in: everything but number, length and bytes is zero. Injection
  rules may have replaced length and bytes.
\<close>

definition raw_report :: "int \<Rightarrow> nat \<Rightarrow> bytes \<Rightarrow> transfer_io" where
  "raw_report n k d = no_io\<lparr>io_ep := n, io_length := k, io_data := d\<rparr>"

definition read_report :: "int \<Rightarrow> bytes \<Rightarrow> transfer_io" where
  "read_report n p = raw_report n (length p) (blit (io_data no_io) 0 p)"

inductive mouse_step :: "mouse_system \<Rightarrow> mouse_system \<Rightarrow> bool" where
  attach: "ms_reader s a = None \<Longrightarrow> ms_writer s a = None \<Longrightarrow> counters_low (ms_mixer s) \<Longrightarrow> 0 \<le> a
    \<Longrightarrow> map_of (mx_endpoints (ms_mixer s)) a = None
    \<Longrightarrow> \<forall>(b, ep)\<in>set (mx_endpoints (ms_mixer s)). en_info ep \<noteq> info
    \<Longrightarrow> mouse_step s (s\<lparr>ms_mixer := register_mouse_endpoint info number ((ms_mixer s)
          \<lparr>mx_threads := (mx_threads (ms_mixer s))(info := fresh_thread n a poll)\<rparr>)\<rparr>)"
| detach: "counters_low (ms_mixer s)
    \<Longrightarrow> map_of (mx_endpoints (ms_mixer s)) (th_address (mx_threads (ms_mixer s) info)) = Some ep
    \<Longrightarrow> en_info ep = info
    \<Longrightarrow> mouse_step s (s\<lparr>ms_mixer := unregister_mouse_endpoint info (ms_mixer s)\<rparr>)"
| learn: "counters_low (ms_mixer s)
    \<Longrightarrow> mouse_step s (s\<lparr>ms_mixer := learn_mouse_descriptor number data (ms_mixer s)\<rparr>)"
| protocol: "counters_low (ms_mixer s)
    \<Longrightarrow> mouse_step s (s\<lparr>ms_mixer := set_mouse_protocol number boot (ms_mixer s)\<rparr>)"
| seed: "length p \<le> MAX_TRANSFER_SIZE
    \<Longrightarrow> mouse_step s (s\<lparr>ms_mixer := snd (seed_mouse_report a (read_report 0 p) (ms_mixer s))\<rparr>)"
| read: "length d = MAX_TRANSFER_SIZE \<Longrightarrow> k \<le> MAX_TRANSFER_SIZE \<Longrightarrow> ms_reader s a = None
    \<Longrightarrow> queue_physical_mouse_report a (raw_report n k d) now (ms_mixer s) = (io, mx)
    \<Longrightarrow> mouse_step s (s\<lparr>ms_mixer := mx, ms_reader := (ms_reader s)(a := Some io)\<rparr>)"
| push: "ms_reader s a = Some io \<Longrightarrow> th_address (mx_threads (ms_mixer s) info) = a
    \<Longrightarrow> length (th_queue (mx_threads (ms_mixer s) info)) < 32
    \<Longrightarrow> mouse_step s (s\<lparr>ms_mixer := put_queue info (th_queue (mx_threads (ms_mixer s) info) @ [io]) (ms_mixer s),
          ms_reader := (ms_reader s)(a := None)\<rparr>)"
| drop: "mouse_step s (s\<lparr>ms_reader := (ms_reader s)(a := None)\<rparr>)"
| take: "ms_writer s a = None \<Longrightarrow> take_mouse_report a io now (ms_mixer s) = (ok, io', mx)
    \<Longrightarrow> mouse_step s (s\<lparr>ms_mixer := mx, ms_writer := (ms_writer s)(a := (if ok then Some io' else None))\<rparr>)"
| written: "ms_writer s a = Some io
    \<Longrightarrow> mouse_step s (s\<lparr>ms_mixer := notify_mouse_report_written a io success now (ms_mixer s),
          ms_writer := (ms_writer s)(a := None)\<rparr>)"
| enqueue: "counters_low (ms_mixer s)
    \<Longrightarrow> enqueue_report c persistent scheduled kind latest session cid index button activity generation now
          (ms_mixer s) = (result, mx)
    \<Longrightarrow> mouse_step s (s\<lparr>ms_mixer := mx\<rparr>)"
| clear: "mouse_step s (s\<lparr>ms_mixer := snd (clear_synthetic_state now (ms_mixer s))\<rparr>)"
| events: "mouse_step s (s\<lparr>ms_mixer := snd (take_writer_events (ms_mixer s))\<rparr>)"
| overflow: "mouse_step s (s\<lparr>ms_mixer := snd (take_writer_overflow (ms_mixer s))\<rparr>)"
| prepare: "\<forall>(b, ep)\<in>set (mx_endpoints (ms_mixer s)). en_info ep \<noteq> info
    \<Longrightarrow> mouse_step s (s\<lparr>ms_mixer := (ms_mixer s)\<lparr>mx_threads := (mx_threads (ms_mixer s))(info := th)\<rparr>\<rparr>)"

inductive mouse_reach :: "mouse_system \<Rightarrow> bool" where
  start: "mouse_reach (system_init ths)"
| step: "mouse_reach s \<Longrightarrow> mouse_step s s' \<Longrightarrow> mouse_reach s'"

subsection \<open>The invariant\<close>

definition buffer_ok :: "transfer_io \<Rightarrow> bool" where
  "buffer_ok io \<longleftrightarrow> length (io_data io) = MAX_TRANSFER_SIZE \<and> io_length io \<le> MAX_TRANSFER_SIZE"

text \<open>A report the reader holds or has queued, for an endpoint at its address.\<close>

definition queued_ok :: "u64 \<Rightarrow> endpoint \<Rightarrow> transfer_io \<Rightarrow> bool" where
  "queued_ok g ep io \<longleftrightarrow> buffer_ok io \<and> io_generation io \<le> g \<and> unmixed io \<and> \<not> io_competing io
     \<and> (compatible ep io \<longrightarrow> en_latest ep \<noteq> [] \<and> decoded (en_profile ep) io)"

text \<open>A report the writer holds. It is current when it was built for the present layout.\<close>

definition current_report :: "endpoint \<Rightarrow> transfer_io \<Rightarrow> bool" where
  "current_report ep io \<longleftrightarrow> io_generation io = en_generation ep \<and> (io_match io \<or> \<not> io_physical io)"

definition written_ok :: "u64 \<Rightarrow> endpoint \<Rightarrow> transfer_io \<Rightarrow> bool" where
  "written_ok g ep io \<longleftrightarrow> buffer_ok io \<and> io_generation io \<le> g
     \<and> (current_report ep io \<longrightarrow> en_latest ep \<noteq> [] \<and> faithful (en_profile ep) io)"

definition items_ok :: "endpoint \<Rightarrow> bool" where
  "items_ok ep \<longleftrightarrow> length (en_synthetic ep) \<le> MAX_SYNTHETIC_ITEMS
     \<and> sorted_wrt (\<lambda>i j. si_id i < si_id j) (en_synthetic ep)
     \<and> (\<forall>i\<in>set (en_synthetic ep). si_id i \<noteq> 0 \<and> si_id i < en_next_item ep)
     \<and> en_next_item ep \<noteq> 0"

definition layout_known :: "endpoint \<Rightarrow> bool" where
  "layout_known ep \<longleftrightarrow> (en_latest ep \<noteq> [] \<longrightarrow> profile_ok (en_profile ep))
     \<and> (en_latest ep = [] \<longrightarrow> en_template ep = [] \<and> en_synthetic ep = [])
     \<and> length (en_latest ep) \<le> MAX_TRANSFER_SIZE \<and> length (en_template ep) \<le> MAX_TRANSFER_SIZE"

definition counts_ok :: "u64 \<Rightarrow> endpoint \<Rightarrow> bool" where
  "counts_ok g ep \<longleftrightarrow> length (en_residence ep) \<le> MAX_RESIDENCE_SAMPLES \<and> en_successes ep \<le> 3
     \<and> 0 < en_generation ep \<and> en_generation ep \<le> g"

definition held_item :: "endpoint \<Rightarrow> transfer_io option \<Rightarrow> bool" where
  "held_item ep w \<longleftrightarrow> (en_inflight ep \<longrightarrow> (\<exists>io. w = Some io \<and> io_managed io
     \<and> io_instance io = en_instance ep \<and> io_generation io = en_generation ep \<and> carries_front io True ep))"

definition local_ok :: "u64 \<Rightarrow> mouse_thread \<Rightarrow> transfer_io option \<Rightarrow> transfer_io option \<Rightarrow> int \<Rightarrow> endpoint \<Rightarrow> bool" where
  "local_ok g th r w a ep \<longleftrightarrow> 0 \<le> a \<and> th_address th = a \<and> th_pending th \<in> {None, Some (en_synthetic ep \<noteq> [])}
     \<and> items_ok ep \<and> layout_known ep \<and> counts_ok g ep \<and> held_item ep w
     \<and> (\<forall>io\<in>set (th_queue th). queued_ok g ep io)
     \<and> (\<forall>io. r = Some io \<longrightarrow> queued_ok g ep io) \<and> (\<forall>io. w = Some io \<longrightarrow> written_ok g ep io)"

definition locals_ok :: "mouse_system \<Rightarrow> bool" where
  "locals_ok s \<longleftrightarrow> (\<forall>a ep. map_of (mx_endpoints (ms_mixer s)) a = Some ep \<longrightarrow>
     local_ok (mx_next_generation (ms_mixer s)) (mx_threads (ms_mixer s) (en_info ep)) (ms_reader s a)
       (ms_writer s a) a ep)"

definition profiles_ok :: "mouse_profile list \<Rightarrow> bool" where
  "profiles_ok ms \<longleftrightarrow> (\<forall>m\<in>set ms. profile_ok m) \<and> distinct (map mp_id ms)"

definition learnt :: "mixer \<Rightarrow> bool" where
  "learnt mx \<longleftrightarrow> (\<forall>number. profiles_ok (smap_at [] (mx_descriptors mx) number))
     \<and> (\<forall>number. profiles_ok (smap_at [] (mx_reports mx) number))
     \<and> (\<forall>a ep. map_of (mx_endpoints mx) a = Some ep \<longrightarrow> en_latest ep \<noteq> [] \<longrightarrow>
          en_profile ep \<in> set (smap_at [] (mx_descriptors mx) (en_interface ep)))"

definition registry_ok :: "mixer \<Rightarrow> bool" where
  "registry_ok mx \<longleftrightarrow> smap_ok (mx_endpoints mx) \<and> length (mx_events mx) \<le> MAX_WRITER_EVENTS
     \<and> (0 \<le> mx_selected mx \<longrightarrow> map_of (mx_endpoints mx) (mx_selected mx) \<noteq> None)"

definition system_ok :: "mouse_system \<Rightarrow> bool" where
  "system_ok s \<longleftrightarrow> locals_ok s \<and> learnt (ms_mixer s) \<and> registry_ok (ms_mixer s)"

subsection \<open>Frames\<close>

definition set_pending :: "bool \<Rightarrow> mouse_thread \<Rightarrow> mouse_thread" where
  "set_pending b th = th\<lparr>th_pending := map_option (\<lambda>_. b) (th_pending th)\<rparr>"

lemma set_pending_fields [simp]:
  "th_queue (set_pending b th) = th_queue th" "th_address (set_pending b th) = th_address th"
  "th_ep_num (set_pending b th) = th_ep_num th"
  "th_pending (set_pending b th) = map_option (\<lambda>_. b) (th_pending th)"
  by (simp_all add: set_pending_def)

lemma threads_update_pending [simp]:
  "mx_threads (update_pending ep mx)
     = (mx_threads mx)(en_info ep := set_pending (en_synthetic ep \<noteq> []) (mx_threads mx (en_info ep)))"
  by (cases "mx_threads mx (en_info ep)")
    (auto simp: update_pending_def set_pending_def Let_def fun_eq_iff split: option.splits)

lemma update_pending_frame [simp]:
  "mx_endpoints (update_pending ep mx) = mx_endpoints mx"
  "mx_descriptors (update_pending ep mx) = mx_descriptors mx"
  "mx_reports (update_pending ep mx) = mx_reports mx" "mx_boot (update_pending ep mx) = mx_boot mx"
  "mx_selected (update_pending ep mx) = mx_selected mx" "mx_events (update_pending ep mx) = mx_events mx"
  "mx_next_generation (update_pending ep mx) = mx_next_generation mx"
  by (simp_all add: update_pending_def Let_def split: option.splits)

lemma put_endpoint_frame [simp]:
  "mx_endpoints (put_endpoint a ep mx) = smap_put a ep (mx_endpoints mx)"
  "mx_descriptors (put_endpoint a ep mx) = mx_descriptors mx"
  "mx_reports (put_endpoint a ep mx) = mx_reports mx" "mx_boot (put_endpoint a ep mx) = mx_boot mx"
  "mx_selected (put_endpoint a ep mx) = mx_selected mx" "mx_events (put_endpoint a ep mx) = mx_events mx"
  "mx_next_generation (put_endpoint a ep mx) = mx_next_generation mx"
  "mx_threads (put_endpoint a ep mx) = mx_threads mx"
  by (simp_all add: put_endpoint_def)

lemma put_queue_frame [simp]:
  "mx_endpoints (put_queue info q mx) = mx_endpoints mx"
  "mx_descriptors (put_queue info q mx) = mx_descriptors mx"
  "mx_reports (put_queue info q mx) = mx_reports mx" "mx_boot (put_queue info q mx) = mx_boot mx"
  "mx_selected (put_queue info q mx) = mx_selected mx" "mx_events (put_queue info q mx) = mx_events mx"
  "mx_next_generation (put_queue info q mx) = mx_next_generation mx"
  "mx_threads (put_queue info q mx) = (mx_threads mx)(info := (mx_threads mx info)\<lparr>th_queue := q\<rparr>)"
  by (simp_all add: put_queue_def)

lemma push_event_frame [simp]:
  "mx_endpoints (push_event e mx) = mx_endpoints mx"
  "mx_descriptors (push_event e mx) = mx_descriptors mx"
  "mx_reports (push_event e mx) = mx_reports mx" "mx_boot (push_event e mx) = mx_boot mx"
  "mx_selected (push_event e mx) = mx_selected mx"
  "mx_next_generation (push_event e mx) = mx_next_generation mx" "mx_threads (push_event e mx) = mx_threads mx"
  by (simp_all add: push_event_def)

lemma select_if_none_frame [simp]:
  "mx_endpoints (select_if_none a mx) = mx_endpoints mx"
  "mx_descriptors (select_if_none a mx) = mx_descriptors mx"
  "mx_reports (select_if_none a mx) = mx_reports mx" "mx_boot (select_if_none a mx) = mx_boot mx"
  "mx_events (select_if_none a mx) = mx_events mx"
  "mx_next_generation (select_if_none a mx) = mx_next_generation mx" "mx_threads (select_if_none a mx) = mx_threads mx"
  by (simp_all add: select_if_none_def)

text \<open>A step that changes one endpoint, its thread and the reports its threads hold.\<close>

lemma queued_ok_mono: "queued_ok g ep io \<Longrightarrow> g \<le> g' \<Longrightarrow> queued_ok g' ep io"
  by (auto simp: queued_ok_def)

lemma written_ok_mono: "written_ok g ep io \<Longrightarrow> g \<le> g' \<Longrightarrow> written_ok g' ep io"
  by (auto simp: written_ok_def)

lemma local_ok_mono: "local_ok g th r w a ep \<Longrightarrow> g \<le> g' \<Longrightarrow> local_ok g' th r w a ep"
  unfolding local_ok_def counts_ok_def by (auto intro: queued_ok_mono written_ok_mono)

lemma locals_ok_update:
  assumes ok: "locals_ok s" and g: "mx_next_generation (ms_mixer s) \<le> mx_next_generation mx"
    and a: "th_address (mx_threads (ms_mixer s) info) = a"
    and eps: "\<And>b. b \<noteq> a \<Longrightarrow> map_of (mx_endpoints mx) b = map_of (mx_endpoints (ms_mixer s)) b"
    and ths: "\<And>i. i \<noteq> info \<Longrightarrow> mx_threads mx i = mx_threads (ms_mixer s) i"
    and rd: "\<And>b. b \<noteq> a \<Longrightarrow> r b = ms_reader s b" "\<And>b. b \<noteq> a \<Longrightarrow> w b = ms_writer s b"
    and new: "\<And>ep. map_of (mx_endpoints mx) a = Some ep \<Longrightarrow>
      local_ok (mx_next_generation mx) (mx_threads mx (en_info ep)) (r a) (w a) a ep"
  shows "locals_ok (s\<lparr>ms_mixer := mx, ms_reader := r, ms_writer := w\<rparr>)"
  unfolding locals_ok_def
proof (intro allI impI)
  fix b ep assume e: "map_of (mx_endpoints (ms_mixer (s\<lparr>ms_mixer := mx, ms_reader := r, ms_writer := w\<rparr>))) b = Some ep"
  show "local_ok (mx_next_generation (ms_mixer (s\<lparr>ms_mixer := mx, ms_reader := r, ms_writer := w\<rparr>)))
      (mx_threads (ms_mixer (s\<lparr>ms_mixer := mx, ms_reader := r, ms_writer := w\<rparr>)) (en_info ep))
      (ms_reader (s\<lparr>ms_mixer := mx, ms_reader := r, ms_writer := w\<rparr>) b)
      (ms_writer (s\<lparr>ms_mixer := mx, ms_reader := r, ms_writer := w\<rparr>) b) b ep"
  proof (cases "b = a")
    case True
    with e new show ?thesis by simp
  next
    case False
    with e eps have old: "local_ok (mx_next_generation (ms_mixer s)) (mx_threads (ms_mixer s) (en_info ep))
        (ms_reader s b) (ms_writer s b) b ep"
      using ok by (simp add: locals_ok_def)
    then have "en_info ep \<noteq> info" using a False by (auto simp: local_ok_def)
    with old ths rd [OF False] show ?thesis using local_ok_mono [OF old g] by simp
  qed
qed

lemma locals_okD:
  "locals_ok s \<Longrightarrow> map_of (mx_endpoints (ms_mixer s)) a = Some ep \<Longrightarrow>
     local_ok (mx_next_generation (ms_mixer s)) (mx_threads (ms_mixer s) (en_info ep)) (ms_reader s a)
       (ms_writer s a) a ep"
  by (simp add: locals_ok_def)

subsection \<open>Items keep their order\<close>

lemma items_ok_ids:
  "items_ok ep \<longleftrightarrow> (let ids = map si_id (en_synthetic ep) in length ids \<le> MAX_SYNTHETIC_ITEMS
     \<and> sorted_wrt (<) ids \<and> (\<forall>n\<in>set ids. n \<noteq> 0 \<and> n < en_next_item ep) \<and> en_next_item ep \<noteq> 0)"
  by (simp add: items_ok_def Let_def sorted_wrt_map)

lemma items_ok_drop:
  assumes "items_ok ep" and "map si_id (en_synthetic ep') = drop n (map si_id (en_synthetic ep))"
    and "en_next_item ep' = en_next_item ep"
  shows "items_ok ep'"
  using assms(1) set_drop_subset [of n "map si_id (en_synthetic ep)"]
  unfolding items_ok_ids assms(2,3) Let_def by (auto simp: sorted_wrt_drop)

lemma expire_items_drop: "\<exists>n. map si_id (expire_items ep now is) = drop n (map si_id is)"
proof (induction "is")
  case (Cons i "is")
  then obtain n where "map si_id (expire_items ep now is) = drop n (map si_id is)" by blast
  moreover have "si_id (expire_item now i) = si_id i" by (simp add: expire_item_def)
  ultimately show ?case
    by (cases "no_motion (si_remaining (expire_item now i)) \<and> \<not> needs_buttons ep (expire_item now i)")
      (auto simp: Let_def intro: exI [of _ "Suc n"] exI [of _ 0])
qed simp

lemma dropWhile_drop: "\<exists>n. dropWhile P xs = drop n xs"
  by (metis dropWhile_eq_drop)

subsection \<open>Physical reports\<close>

lemma matching_profileD:
  assumes "matching_profile mx ep p n = Some m"
  shows "m \<in> set (smap_at [] (mx_descriptors mx) (en_interface ep))" and "matches m p n"
    and "en_latest ep = [] \<or> mp_id m = mp_id (en_profile ep)"
  using assms by (auto simp: matching_profile_def find_Some_iff)

lemma distinct_ids_eq: "profiles_ok ms \<Longrightarrow> m \<in> set ms \<Longrightarrow> m' \<in> set ms \<Longrightarrow> mp_id m = mp_id m' \<Longrightarrow> m = m'"
  by (auto simp: profiles_ok_def distinct_map inj_on_def)

text \<open>A matching report fixes the layout, or has the layout already fixed.\<close>

lemma matching_layout:
  assumes "learnt mx" and "map_of (mx_endpoints mx) a = Some ep" and "matching_profile mx ep p n = Some m"
  shows "profile_ok m" and "n = mp_size m" and "0 < n" and "en_latest ep \<noteq> [] \<Longrightarrow> en_profile ep = m"
    and "m \<in> set (smap_at [] (mx_descriptors mx) (en_interface ep))"
proof -
  note d = matching_profileD [OF assms(3)]
  have ps: "profiles_ok (smap_at [] (mx_descriptors mx) (en_interface ep))" using assms(1) by (simp add: learnt_def)
  show m: "m \<in> set (smap_at [] (mx_descriptors mx) (en_interface ep))" by (rule d(1))
  show ok: "profile_ok m" using ps d(1) by (simp add: profiles_ok_def)
  show n: "n = mp_size m" using d(2) by (simp add: matches_def)
  have x: "hf_bits (mp_x m) \<noteq> 0" using ok by (simp add: profile_ok_def)
  have "within (id_base (mp_id m)) (8 * mp_size m) (mp_x m)"
    using ok x layout_okD(1) [of _ _ m Role_X] by (auto simp: profile_ok_def present_def)
  with x n show "0 < n" by (auto simp: within_def)
  show "en_profile ep = m" if "en_latest ep \<noteq> []"
  proof -
    have e: "en_profile ep \<in> set (smap_at [] (mx_descriptors mx) (en_interface ep))"
      using assms(1,2) that unfolding learnt_def by blast
    show ?thesis using distinct_ids_eq [OF ps e d(1)] d(3) that by simp
  qed
qed

lemma no_io_fields [simp]:
  "length (io_data no_io) = MAX_TRANSFER_SIZE" "io_generation no_io = 0" "unmixed no_io" "\<not> io_competing no_io"
  "\<not> io_match no_io" "io_length no_io = 0"
  by (simp_all add: no_io_def unmixed_def)

lemma raw_report_fields [simp]:
  "io_data (raw_report n k d) = d" "io_length (raw_report n k d) = k"
  "io_generation (raw_report n k d) = 0" "unmixed (raw_report n k d)" "\<not> io_competing (raw_report n k d)"
  "\<not> io_match (raw_report n k d)"
  by (simp_all add: raw_report_def) (simp_all add: no_io_def unmixed_def)

lemma read_report_fields [simp]:
  assumes "length p \<le> MAX_TRANSFER_SIZE"
  shows "length (io_data (read_report n p)) = MAX_TRANSFER_SIZE" "io_length (read_report n p) = length p"
    "io_generation (read_report n p) = 0" "unmixed (read_report n p)" "\<not> io_competing (read_report n p)"
    "\<not> io_match (read_report n p)"
  using assms by (simp_all add: read_report_def)

lemma smap_at_put [simp]: "smap_at d (smap_put k v m) k' = (if k' = k then v else smap_at d m k')"
  by (simp add: smap_at_def)

lemma registry_ok_put:
  assumes "registry_ok mx" and "map_of (mx_endpoints mx) a \<noteq> None"
    and "mx_endpoints mx' = smap_put a ep (mx_endpoints mx)" and "mx_events mx' = mx_events mx"
    and "mx_selected mx' = mx_selected mx \<or> mx_selected mx' = a"
  shows "registry_ok mx'"
  using assms by (auto simp: registry_ok_def)

lemma learnt_put:
  assumes "learnt mx" and "mx_endpoints mx' = smap_put a ep (mx_endpoints mx)"
    and "mx_descriptors mx' = mx_descriptors mx" and "mx_reports mx' = mx_reports mx"
    and "en_latest ep \<noteq> [] \<Longrightarrow> en_profile ep \<in> set (smap_at [] (mx_descriptors mx) (en_interface ep))"
  shows "learnt mx'"
  using assms by (auto simp: learnt_def)

lemma queued_unfixed:
  assumes "en_latest ep = []" and "en_generation ep' = en_generation ep" and "queued_ok g ep io"
  shows "queued_ok g ep' io"
  using assms by (auto simp: queued_ok_def compatible_def)

lemma written_unfixed:
  assumes "en_latest ep = []" and "en_generation ep' = en_generation ep" and "written_ok g ep io"
  shows "written_ok g ep' io"
  using assms by (auto simp: written_ok_def current_report_def)

lemma queued_cong:
  assumes "en_latest ep' = [] \<longleftrightarrow> en_latest ep = []" and "en_generation ep' = en_generation ep"
    and "en_profile ep' = en_profile ep" and "queued_ok g ep io"
  shows "queued_ok g ep' io"
  using assms by (auto simp: queued_ok_def compatible_def)

lemma written_cong:
  assumes "en_latest ep' = [] \<longleftrightarrow> en_latest ep = []" and "en_generation ep' = en_generation ep"
    and "en_profile ep' = en_profile ep" and "written_ok g ep io"
  shows "written_ok g ep' io"
  using assms by (auto simp: written_ok_def current_report_def)

text \<open>
  What a step may do to an endpoint so that the reports already held stay as they should: fix a
  layout that was open, or leave the layout.
\<close>

definition same_layout :: "endpoint \<Rightarrow> endpoint \<Rightarrow> bool" where
  "same_layout ep ep' \<longleftrightarrow> en_generation ep' = en_generation ep
     \<and> (en_latest ep = [] \<or> (en_latest ep' \<noteq> [] \<and> en_profile ep' = en_profile ep))"

lemma same_layout_reports:
  assumes "same_layout ep ep'"
  shows "queued_ok g ep io \<Longrightarrow> queued_ok g ep' io" and "written_ok g ep io \<Longrightarrow> written_ok g ep' io"
  using assms queued_unfixed [of ep ep' g io] queued_cong [of ep' ep g io]
    written_unfixed [of ep ep' g io] written_cong [of ep' ep g io]
  by (auto simp: same_layout_def)

lemma held_item_cong:
  assumes "held_item ep w" and "en_inflight ep' = en_inflight ep" and "en_inflight_id ep' = en_inflight_id ep"
    and "en_instance ep' = en_instance ep" and "en_generation ep' = en_generation ep"
    and "en_synthetic ep \<noteq> [] \<Longrightarrow> en_synthetic ep' \<noteq> [] \<and> si_id (hd (en_synthetic ep')) = si_id (hd (en_synthetic ep))"
  shows "held_item ep' w"
  using assms by (auto simp: held_item_def carries_front_def)

lemma local_ok_transfer:
  assumes loc: "local_ok g th r w a ep" and same: "same_layout ep ep'"
    and th: "th_address th' = th_address th" "th_pending th' \<in> {None, Some (en_synthetic ep' \<noteq> [])}"
      "set (th_queue th') \<subseteq> set (th_queue th)"
    and ep': "items_ok ep'" "layout_known ep'" "counts_ok g ep'" "held_item ep' w'"
    and "\<And>io. r' = Some io \<Longrightarrow> queued_ok g ep' io" and "\<And>io. w' = Some io \<Longrightarrow> written_ok g ep' io"
  shows "local_ok g th' r' w' a ep'"
  using loc th ep' assms(10,11) same_layout_reports(1) [OF same] unfolding local_ok_def by blast

lemma local_okD:
  assumes "local_ok g th r w a ep"
  shows "items_ok ep" "layout_known ep" "counts_ok g ep" "held_item ep w" "th_address th = a"
    "th_pending th \<in> {None, Some (en_synthetic ep \<noteq> [])}" "\<And>io. io \<in> set (th_queue th) \<Longrightarrow> queued_ok g ep io"
    "\<And>io. r = Some io \<Longrightarrow> queued_ok g ep io" "\<And>io. w = Some io \<Longrightarrow> written_ok g ep io"
  using assms by (simp_all add: local_ok_def)

lemma pending_set: "th_pending (set_pending b th) \<in> {None, Some b}"
  by (cases "th_pending th") simp_all

lemma local_ok_layout:
  assumes "local_ok g th r w a ep" and "same_layout ep ep'"
    and "en_synthetic ep' = en_synthetic ep" and "en_next_item ep' = en_next_item ep"
    and "en_inflight ep' = en_inflight ep" and "en_inflight_id ep' = en_inflight_id ep"
    and "en_instance ep' = en_instance ep" and "layout_known ep'" and "counts_ok g ep'"
    and "\<And>io. r' = Some io \<Longrightarrow> queued_ok g ep' io"
  shows "local_ok g th r' w a ep'"
proof -
  have "held_item ep' w"
    by (rule held_item_cong [where ep = ep])
      (use assms in \<open>auto simp: local_ok_def same_layout_def\<close>)
  then show ?thesis
    using assms same_layout_reports [OF assms(2)] by (auto simp: local_ok_def items_ok_def)
qed

text \<open>A step that replaces one endpoint, and may select it and change its thread.\<close>

definition replaces :: "mixer \<Rightarrow> int \<Rightarrow> endpoint \<Rightarrow> endpoint \<Rightarrow> mixer \<Rightarrow> bool" where
  "replaces mx a ep ep' mx' \<longleftrightarrow> mx_endpoints mx' = smap_put a ep' (mx_endpoints mx)
     \<and> mx_descriptors mx' = mx_descriptors mx \<and> mx_reports mx' = mx_reports mx
     \<and> length (mx_events mx') \<le> MAX_WRITER_EVENTS
     \<and> (mx_selected mx' = mx_selected mx \<or> mx_selected mx' = a)
     \<and> mx_next_generation mx' = mx_next_generation mx
     \<and> (\<forall>i. i \<noteq> en_info ep \<longrightarrow> mx_threads mx' i = mx_threads mx i)
     \<and> en_info ep' = en_info ep \<and> en_interface ep' = en_interface ep"

lemma system_ok_replace:
  assumes ok: "system_ok s" and e: "map_of (mx_endpoints (ms_mixer s)) a = Some ep"
    and rep: "replaces (ms_mixer s) a ep ep' mx"
    and rd: "\<And>b. b \<noteq> a \<Longrightarrow> r b = ms_reader s b" "\<And>b. b \<noteq> a \<Longrightarrow> w b = ms_writer s b"
    and loc: "local_ok (mx_next_generation (ms_mixer s)) (mx_threads mx (en_info ep)) (r a) (w a) a ep'"
    and lay: "same_layout ep ep'"
      "en_latest ep = [] \<Longrightarrow> en_latest ep' \<noteq> [] \<Longrightarrow>
         en_profile ep' \<in> set (smap_at [] (mx_descriptors (ms_mixer s)) (en_interface ep))"
  shows "system_ok (s\<lparr>ms_mixer := mx, ms_reader := r, ms_writer := w\<rparr>)"
proof -
  have lo: "locals_ok s" and l: "learnt (ms_mixer s)" and reg: "registry_ok (ms_mixer s)"
    using ok by (simp_all add: system_ok_def)
  have "th_address (mx_threads (ms_mixer s) (en_info ep)) = a" using locals_okD [OF lo e] by (simp add: local_ok_def)
  moreover have "map_of (mx_endpoints mx) b = map_of (mx_endpoints (ms_mixer s)) b" if "b \<noteq> a" for b
    using rep that by (simp add: replaces_def)
  ultimately have "locals_ok (s\<lparr>ms_mixer := mx, ms_reader := r, ms_writer := w\<rparr>)"
    by (intro locals_ok_update [OF lo, where info = "en_info ep" and a = a])
      (use rep loc in \<open>auto simp: replaces_def rd\<close>)
  moreover have "en_profile ep' \<in> set (smap_at [] (mx_descriptors (ms_mixer s)) (en_interface ep))" if "en_latest ep' \<noteq> []"
  proof (cases "en_latest ep = []")
    case False
    with l e have "en_profile ep \<in> set (smap_at [] (mx_descriptors (ms_mixer s)) (en_interface ep))"
      unfolding learnt_def by blast
    with lay(1) False show ?thesis by (simp add: same_layout_def)
  qed (use lay(2) that in simp)
  then have "learnt mx" using rep l unfolding learnt_def replaces_def by auto
  moreover have "registry_ok mx"
    using reg rep e unfolding registry_ok_def replaces_def by auto
  ultimately show ?thesis by (simp add: system_ok_def)
qed

lemma read_matched:
  assumes "local_ok g th r w a ep" and "profile_ok m" and "io_length io = mp_size m"
    and "buffer_ok io" and "unmixed io" and "\<not> io_competing io"
    and "0 < mp_size m" and "en_latest ep \<noteq> [] \<Longrightarrow> en_profile ep = m" and "io_generation io \<le> g"
    and "io_generation io = en_generation ep"
    and "decoded m io"
    and ep': "en_profile ep' = m" "en_latest ep' = take (io_length io) (io_data io)"
      "en_generation ep' = en_generation ep" "en_synthetic ep' = en_synthetic ep"
      "en_next_item ep' = en_next_item ep" "en_inflight ep' = en_inflight ep"
      "en_inflight_id ep' = en_inflight_id ep" "en_instance ep' = en_instance ep"
      "en_template ep' = en_template ep" "en_residence ep' = en_residence ep" "en_successes ep' = en_successes ep"
  shows "local_ok g th (Some io) w a ep'" and "same_layout ep ep'" and "en_latest ep' \<noteq> []"
proof -
  show ne: "en_latest ep' \<noteq> []" using assms by (auto simp: buffer_ok_def MAX_TRANSFER_SIZE_def)
  show same: "same_layout ep ep'"
    using assms(8) ne ep' by (cases "en_latest ep = []") (simp_all add: same_layout_def)
  show "local_ok g th (Some io) w a ep'"
  proof (rule local_ok_layout [OF assms(1) same])
    show "layout_known ep'" "counts_ok g ep'"
      using assms ne by (auto simp: local_ok_def layout_known_def counts_ok_def buffer_ok_def)
    show "queued_ok g ep' io'" if "Some io = Some io'" for io'
      using that assms ne by (auto simp: queued_ok_def)
  qed (simp_all add: ep')
qed

lemma read_ok:
  assumes ok: "system_ok s" and p: "length d = MAX_TRANSFER_SIZE" "k \<le> MAX_TRANSFER_SIZE"
    and q: "queue_physical_mouse_report a (raw_report n k d) now (ms_mixer s) = (io, mx)"
  shows "system_ok (s\<lparr>ms_mixer := mx, ms_reader := (ms_reader s)(a := Some io)\<rparr>)"
proof (cases "map_of (mx_endpoints (ms_mixer s)) a")
  case None
  then have "mx = ms_mixer s" using q by (simp add: queue_physical_mouse_report_def)
  with ok None show ?thesis by (auto simp: system_ok_def locals_ok_def)
next
  case (Some ep)
  have l: "learnt (ms_mixer s)" and ev: "length (mx_events (ms_mixer s)) \<le> MAX_WRITER_EVENTS" and lo: "locals_ok s"
    using ok by (auto simp: system_ok_def registry_ok_def)
  note loc = locals_okD [OF lo Some]
  let ?io = "(raw_report n k d)\<lparr>io_managed := True, io_physical := True, io_queued_ns := now,
      io_generation := en_generation ep, io_instance := en_instance ep\<rparr>"
  let ?ep = "ep\<lparr>en_barrier := en_barrier ep + 1\<rparr>"
  have io1: "buffer_ok ?io" "unmixed ?io" "\<not> io_competing ?io" "\<not> io_match ?io"
    "io_generation ?io \<le> mx_next_generation (ms_mixer s)"
    using p loc by (simp_all add: buffer_ok_def local_ok_def counts_ok_def)
      (simp_all add: raw_report_def no_io_def unmixed_def)
  have s': "s\<lparr>ms_mixer := mx, ms_reader := (ms_reader s)(a := Some io)\<rparr>
      = s\<lparr>ms_mixer := mx, ms_reader := (ms_reader s)(a := Some io), ms_writer := ms_writer s\<rparr>" by simp
  show ?thesis
  proof (cases "matching_profile (ms_mixer s) ?ep (io_data ?io) (io_length ?io)")
    case None
    have m: "mx = put_endpoint a ?ep (ms_mixer s)" and io: "io = ?io"
      using q Some None by (auto simp: queue_physical_mouse_report_def Let_def)
    have "local_ok (mx_next_generation (ms_mixer s)) (mx_threads (ms_mixer s) (en_info ep)) (Some io) (ms_writer s a) a ?ep"
      by (rule local_ok_layout [OF loc])
        (use loc io1 in \<open>auto simp: same_layout_def local_ok_def layout_known_def counts_ok_def queued_ok_def
          compatible_def io\<close>)
    then show ?thesis
      by (subst s', intro system_ok_replace [OF ok Some, where ep' = ?ep])
        (use ev in \<open>auto simp: replaces_def m same_layout_def\<close>)
  next
    case match: (Some m)
    have "matching_profile (ms_mixer s) ?ep = matching_profile (ms_mixer s) ep"
      by (simp add: matching_profile_def fun_eq_iff)
    with match have m: "matching_profile (ms_mixer s) ep (io_data ?io) (io_length ?io) = Some m" by simp
    note ml = matching_layout [OF l Some m]
    obtain ep' where mx: "mx = select_if_none a (put_endpoint a ep' (ms_mixer s))"
      and io: "io = ?io\<lparr>io_match := True, io_physical_buttons := button_mask m (io_data ?io),
             io_physical_x := hid_get (mp_x m) (io_data ?io), io_physical_y := hid_get (mp_y m) (io_data ?io),
             io_physical_wheel := hid_get (mp_wheel m) (io_data ?io),
             io_physical_pan := hid_get (mp_pan m) (io_data ?io)\<rparr>"
      and ep': "en_profile ep' = (if en_latest ep = [] then m else en_profile ep)"
        "en_latest ep' = take (io_length ?io) (io_data ?io)"
        "en_generation ep' = en_generation ep" "en_synthetic ep' = en_synthetic ep"
        "en_next_item ep' = en_next_item ep" "en_inflight ep' = en_inflight ep"
        "en_inflight_id ep' = en_inflight_id ep" "en_instance ep' = en_instance ep"
        "en_template ep' = en_template ep" "en_residence ep' = en_residence ep" "en_successes ep' = en_successes ep"
        "en_info ep' = en_info ep" "en_interface ep' = en_interface ep"
      using q Some match by (auto simp: queue_physical_mouse_report_def Let_def split: if_splits)
    have d: "decoded m io" "buffer_ok io" "unmixed io" "\<not> io_competing io" "io_length io = mp_size m"
      "io_generation io = en_generation ep"
      using io1 ml(2) by (simp_all add: io decoded_def buffer_ok_def unmixed_def)
    note new = read_matched [OF loc ml(1) d(5,2-4) _ ml(4) _ d(6,1), of ep']
    have "local_ok (mx_next_generation (ms_mixer s)) (mx_threads (ms_mixer s) (en_info ep)) (Some io) (ms_writer s a) a ep'"
      "same_layout ep ep'"
      using new ml ep' io1(5) d by (auto simp: io)
    moreover have "en_profile ep' = m" using ep'(1) ml(4) by auto
    ultimately show ?thesis
      by (subst s', intro system_ok_replace [OF ok Some, where ep' = ep'])
        (use ev ml(5) in \<open>auto simp: replaces_def mx ep' select_if_none_def\<close>)
  qed
qed

subsection \<open>The queue\<close>

lemma push_ok:
  assumes ok: "system_ok s" and r: "ms_reader s a = Some io"
    and a: "th_address (mx_threads (ms_mixer s) info) = a"
  shows "system_ok (s\<lparr>ms_mixer := put_queue info (th_queue (mx_threads (ms_mixer s) info) @ [io]) (ms_mixer s),
     ms_reader := (ms_reader s)(a := None)\<rparr>)" (is "system_ok (s\<lparr>ms_mixer := ?mx, ms_reader := ?r\<rparr>)")
proof -
  have lo: "locals_ok s" using ok by (simp add: system_ok_def)
  have s': "s\<lparr>ms_mixer := ?mx, ms_reader := ?r\<rparr> = s\<lparr>ms_mixer := ?mx, ms_reader := ?r, ms_writer := ms_writer s\<rparr>" by simp
  have "local_ok (mx_next_generation ?mx) (mx_threads ?mx (en_info ep)) (?r a) (ms_writer s a) a ep"
    if "map_of (mx_endpoints ?mx) a = Some ep" for ep
    using locals_okD [OF lo, of a ep] that r a by (auto simp: local_ok_def)
  then have "locals_ok (s\<lparr>ms_mixer := ?mx, ms_reader := ?r\<rparr>)"
    by (subst s', intro locals_ok_update [OF lo _ a]) simp_all
  with ok show ?thesis by (simp add: system_ok_def learnt_def registry_ok_def)
qed

lemma drop_ok: "system_ok s \<Longrightarrow> system_ok (s\<lparr>ms_reader := (ms_reader s)(a := None)\<rparr>)"
  by (auto simp: system_ok_def locals_ok_def local_ok_def)

subsection \<open>Taking a report\<close>

lemma expire_front_ids: "\<exists>n. map si_id (en_synthetic (expire_front ep now)) = drop n (map si_id (en_synthetic ep))"
  using expire_items_drop [of ep now "en_synthetic ep"] by (simp add: expire_front_def)

lemma expire_local:
  assumes "local_ok g th r w a ep" and "\<not> en_inflight ep"
  shows "local_ok g (set_pending (en_synthetic (expire_front ep now) \<noteq> []) th) r w a (expire_front ep now)"
    and "same_layout ep (expire_front ep now)"
proof -
  have nxt: "en_next_item (expire_front ep now) = en_next_item ep" by (simp add: expire_front_def)
  have i: "items_ok (expire_front ep now)"
    using items_ok_drop [OF local_okD(1) [OF assms(1)] _ nxt] expire_front_ids [of ep now] by blast
  show same: "same_layout ep (expire_front ep now)" by (auto simp: same_layout_def expire_front_def)
  have "layout_known (expire_front ep now)" "counts_ok g (expire_front ep now)" "held_item (expire_front ep now) w"
    using local_okD(2,3) [OF assms(1)] assms(2)
    by (auto simp: layout_known_def counts_ok_def held_item_def expire_front_def)
  then show "local_ok g (set_pending (en_synthetic (expire_front ep now) \<noteq> []) th) r w a (expire_front ep now)"
    using local_okD(8,9) [OF assms(1)] same_layout_reports [OF same] pending_set i
    by (intro local_ok_transfer [OF assms(1) same]) simp_all
qed

lemma ready_front_hd: "ready_front ep = Some i \<Longrightarrow> en_synthetic ep \<noteq> [] \<and> hd (en_synthetic ep) = i"
  by (auto simp: ready_front_def split: list.splits if_splits)

text \<open>The endpoint once the writer has taken a report that carries its front item, or none.\<close>

lemma taken_local:
  assumes "local_ok g th r None a ep" and "\<not> en_inflight ep" and "written_ok g ep io"
    and "\<And>io. io \<in> set q \<Longrightarrow> io \<in> set (th_queue th)"
    and "ep' = ep \<or> (\<exists>i. ep' = ep\<lparr>en_inflight := True, en_inflight_id := si_id i\<rparr> \<and> ready_front ep = Some i
      \<and> io_managed io \<and> io_instance io = en_instance ep \<and> io_generation io = en_generation ep \<and> io_item io = si_id i)"
  shows "local_ok g (th\<lparr>th_queue := q\<rparr>) r (Some io) a ep'" and "same_layout ep ep'"
proof -
  show same: "same_layout ep ep'" using assms(5) by (auto simp: same_layout_def)
  have "held_item ep' (Some io)"
    using assms(1,2,5) by (auto simp: held_item_def carries_front_def local_ok_def items_ok_def dest: ready_front_hd)
  moreover have "items_ok ep'" "layout_known ep'" "counts_ok g ep'" "en_synthetic ep' = en_synthetic ep"
    using assms(1,5) by (auto simp: local_ok_def items_ok_def layout_known_def counts_ok_def)
  ultimately show "local_ok g (th\<lparr>th_queue := q\<rparr>) r (Some io) a ep'"
    using local_okD(6,8) [OF assms(1)] assms(3,4) same_layout_reports [OF same]
    by (intro local_ok_transfer [OF assms(1) same]) auto
qed

lemma apply_known_fields_meta [simp]:
  "io_generation (apply_known_fields m io x y w q b) = io_generation io"
  "io_match (apply_known_fields m io x y w q b) = io_match io"
  "io_managed (apply_known_fields m io x y w q b) = io_managed io"
  "io_physical (apply_known_fields m io x y w q b) = io_physical io"
  "io_instance (apply_known_fields m io x y w q b) = io_instance io"
  "io_item (apply_known_fields m io x y w q b) = io_item io"
  "io_competing (apply_known_fields m io x y w q b) = io_competing io"
  "io_apply_buttons (apply_known_fields m io x y w q b) = io_apply_buttons io"
  "io_synthetic_x (apply_known_fields m io x y w q b) = io_synthetic_x io"
  "io_synthetic_y (apply_known_fields m io x y w q b) = io_synthetic_y io"
  "io_synthetic_wheel (apply_known_fields m io x y w q b) = io_synthetic_wheel io"
  "io_synthetic_pan (apply_known_fields m io x y w q b) = io_synthetic_pan io"
  "io_physical_x (apply_known_fields m io x y w q b) = io_physical_x io"
  "io_physical_y (apply_known_fields m io x y w q b) = io_physical_y io"
  "io_physical_wheel (apply_known_fields m io x y w q b) = io_physical_wheel io"
  "io_physical_pan (apply_known_fields m io x y w q b) = io_physical_pan io"
  by (simp_all add: apply_known_fields_def Let_def)

text \<open>The three ways \<open>mix_physical\<close> ends.\<close>

lemma mix_physical_cases:
  assumes "mix_physical ep front plan io = (io', ep')"
  obtains (stale) "\<not> compatible ep io" "ep' = ep" "io' = io\<lparr>io_managed := True, io_physical := True\<rparr>"
  | (plain) "compatible ep io" "ep' = ep" "io_item io' = io_item io" "io_generation io' = io_generation io"
      "length (io_data io') = length (io_data io)" "io_length io' = io_length io" "\<not> mixed_in ep front plan io"
      "io_synthetic_x io' = io_synthetic_x io" "io_synthetic_y io' = io_synthetic_y io"
      "io_synthetic_wheel io' = io_synthetic_wheel io" "io_synthetic_pan io' = io_synthetic_pan io"
  | (mixed) i where "compatible ep io" "front = Some i"
      "ep' = ep\<lparr>en_inflight := True, en_inflight_id := si_id i\<rparr>" "io_item io' = si_id i"
      "io_generation io' = en_generation ep" "io_instance io' = en_instance ep" "io_managed io'"
      "length (io_data io') = length (io_data io)" "io_length io' = io_length io"
      "mixed_in ep front plan io" "io_apply_buttons io'"
      "io_synthetic_x io' = cmd_x (mixed_motion ep front plan io)"
      "io_synthetic_y io' = cmd_y (mixed_motion ep front plan io)"
      "io_synthetic_wheel io' = cmd_wheel (mixed_motion ep front plan io)"
      "io_synthetic_pan io' = cmd_pan (mixed_motion ep front plan io)"
proof (cases "compatible ep io")
  case False
  then show ?thesis using stale assms by (simp add: mix_physical_incompatible)
next
  case comp: True
  show ?thesis
  proof (cases "mixed_in ep front plan io")
    case False
    show ?thesis
      using assms mix_physical_plain [OF comp False refl refl] False comp by (intro plain) auto
  next
    case True
    then obtain i where f: "front = Some i" by (auto simp: mixed_in_def)
    obtain d e where d: "describe_synthetic ep i (io\<lparr>io_managed := True, io_physical := True\<rparr>)
        (mixed_motion ep front plan io) True False False = (d, e)" by fastforce
    note dr = described_report [OF d]
    have e: "ep' = e" and io': "io' = apply_known_fields (en_profile ep)
        (d\<lparr>io_final_buttons := io_physical_buttons io OR si_persistent i OR si_scheduled i\<rparr>)
        (io_physical_x io + cmd_x (mixed_motion ep front plan io)) (io_physical_y io + cmd_y (mixed_motion ep front plan io))
        (io_physical_wheel io + cmd_wheel (mixed_motion ep front plan io)) (io_physical_pan io + cmd_pan (mixed_motion ep front plan io))
        (io_physical_buttons io OR si_persistent i OR si_scheduled i)"
      using assms mix_physical_mixed [OF comp True [unfolded f] refl d [unfolded f] refl] by (simp_all add: f)
    show ?thesis
      using dr described_endpoint [OF d] True comp by (intro mixed [of i]) (simp_all add: f e io')
  qed
qed

lemma take_physical_local:
  assumes loc: "local_ok g th r None a ep" and inf: "\<not> en_inflight ep" and q: "th_queue th = io # rest"
    and plan: "plan = mix_decision ep (ready_front ep) (th_queue th)"
    and mix: "mix_physical ep (ready_front ep) plan io = (io', ep')"
  shows "local_ok g (th\<lparr>th_queue := rest\<rparr>) r (Some io') a ep'" and "same_layout ep ep'"
proof -
  have qo: "queued_ok g ep io" using loc q by (simp add: local_ok_def)
  have bo: "buffer_ok io" "io_generation io \<le> g" "unmixed io" using qo by (simp_all add: queued_ok_def)
  have gen: "en_generation ep \<le> g" using loc by (simp add: local_ok_def counts_ok_def)
  have faith: "en_latest ep \<noteq> [] \<and> faithful (en_profile ep) io'" if "compatible ep io"
  proof -
    have l: "en_latest ep \<noteq> []" and dec: "decoded (en_profile ep) io" using qo that by (simp_all add: queued_ok_def)
    have ok: "profile_ok (en_profile ep)" using l loc by (simp add: local_ok_def layout_known_def)
    have "mp_size (en_profile ep) \<le> length (io_data io)"
      using ok bo(1) by (simp add: profile_ok_def buffer_ok_def MAX_TRANSFER_SIZE_def)
    from mix_physical_faithful [OF ok this dec bo(3) that mixed_motion_fits [OF plan [unfolded q]] mix] l
    show ?thesis by blast
  qed
  have "written_ok g ep io'" and "ep' = ep \<or> (\<exists>i. ep' = ep\<lparr>en_inflight := True, en_inflight_id := si_id i\<rparr>
      \<and> ready_front ep = Some i \<and> io_managed io' \<and> io_instance io' = en_instance ep
      \<and> io_generation io' = en_generation ep \<and> io_item io' = si_id i)"
    using mix
  proof (atomize (full), cases rule: mix_physical_cases)
    case stale
    then show "written_ok g ep io' \<and> (ep' = ep \<or> (\<exists>i. ep' = ep\<lparr>en_inflight := True, en_inflight_id := si_id i\<rparr>
      \<and> ready_front ep = Some i \<and> io_managed io' \<and> io_instance io' = en_instance ep
      \<and> io_generation io' = en_generation ep \<and> io_item io' = si_id i))"
      using bo by (auto simp: written_ok_def buffer_ok_def current_report_def compatible_def)
  qed (use bo gen faith in \<open>auto simp: written_ok_def buffer_ok_def\<close>)
  from taken_local [OF loc inf this(1) _ this(2), of rest] q
  show "local_ok g (th\<lparr>th_queue := rest\<rparr>) r (Some io') a ep'" "same_layout ep ep'" by auto
qed

lemma take_alone_local:
  assumes loc: "local_ok g th r None a ep" and inf: "\<not> en_inflight ep" and f: "ready_front ep = Some i"
    and alone: "standalone_report ep n i competing = Some (io', ep')"
  shows "local_ok g th r (Some io') a ep'" and "same_layout ep ep'"
proof -
  have "en_synthetic ep \<noteq> []" using ready_front_hd [OF f] by simp
  then have l: "en_latest ep \<noteq> []" using loc by (auto simp: local_ok_def layout_known_def)
  have ok: "profile_ok (en_profile ep)" and size: "length (en_template ep) \<le> MAX_TRANSFER_SIZE"
    "length (en_latest ep) \<le> MAX_TRANSFER_SIZE" using l loc by (simp_all add: local_ok_def layout_known_def)
  note sf = standalone_faithful [OF ok size alone]
  from alone obtain io1 c where "describe_synthetic ep i io1 c True True competing = (io', ep')"
    by (auto simp: standalone_report_def Let_def split: if_splits list.splits)
  from described_report [OF this] described_endpoint [OF this] have d: "ep' = ep\<lparr>en_inflight := True, en_inflight_id := si_id i\<rparr>" "io_managed io'"
    "io_instance io' = en_instance ep" "io_generation io' = en_generation ep" "io_item io' = si_id i" by simp_all
  have "en_generation ep \<le> g" "mp_size (en_profile ep) \<le> MAX_TRANSFER_SIZE"
    using local_okD(3) [OF loc] ok by (simp_all add: counts_ok_def profile_ok_def MAX_TRANSFER_SIZE_def)
  then have "written_ok g ep io'"
    unfolding written_ok_def buffer_ok_def using sf(1,7,8) l d(4) by simp
  moreover have "ep' = ep \<or> (\<exists>i. ep' = ep\<lparr>en_inflight := True, en_inflight_id := si_id i\<rparr> \<and> ready_front ep = Some i
      \<and> io_managed io' \<and> io_instance io' = en_instance ep \<and> io_generation io' = en_generation ep \<and> io_item io' = si_id i)"
    using d f by blast
  ultimately have "local_ok g (th\<lparr>th_queue := th_queue th\<rparr>) r (Some io') a ep'" "same_layout ep ep'"
    by (blast intro: taken_local [OF loc inf])+
  then show "local_ok g th r (Some io') a ep'" "same_layout ep ep'" by simp_all
qed

lemma smap_put_put [simp]: "smap_put k v (smap_put k w m) = smap_put k v m"
  by (induction m) auto

text \<open>The mixer after the writer has looked at an endpoint: items expired, none taken.\<close>

definition refreshed :: "int \<Rightarrow> endpoint \<Rightarrow> u64 \<Rightarrow> mixer \<Rightarrow> mixer" where
  "refreshed a ep now mx = update_pending (expire_front ep now) (put_endpoint a (expire_front ep now) mx)"

definition writer_plan :: "endpoint \<Rightarrow> u64 \<Rightarrow> mixer \<Rightarrow> mix_plan" where
  "writer_plan ep now mx =
    mix_decision (expire_front ep now) (ready_front (expire_front ep now)) (th_queue (mx_threads mx (en_info ep)))"

lemma expire_front_frame [simp]:
  "en_info (expire_front ep now) = en_info ep" "en_interface (expire_front ep now) = en_interface ep"
  "en_inflight (expire_front ep now) = en_inflight ep" "en_profile (expire_front ep now) = en_profile ep"
  "en_generation (expire_front ep now) = en_generation ep" "en_instance (expire_front ep now) = en_instance ep"
  "en_latest (expire_front ep now) = en_latest ep" "en_template (expire_front ep now) = en_template ep"
  "en_persistent (expire_front ep now) = en_persistent ep" "en_scheduled (expire_front ep now) = en_scheduled ep"
  "en_submitted (expire_front ep now) = en_submitted ep" "en_activity (expire_front ep now) = en_activity ep"
  "en_successes (expire_front ep now) = en_successes ep"
  by (simp_all add: expire_front_def)

lemma refreshed_frame [simp]:
  "mx_endpoints (refreshed a ep now mx) = smap_put a (expire_front ep now) (mx_endpoints mx)"
  "mx_descriptors (refreshed a ep now mx) = mx_descriptors mx" "mx_reports (refreshed a ep now mx) = mx_reports mx"
  "mx_selected (refreshed a ep now mx) = mx_selected mx" "mx_events (refreshed a ep now mx) = mx_events mx"
  "mx_next_generation (refreshed a ep now mx) = mx_next_generation mx"
  "mx_threads (refreshed a ep now mx) = (mx_threads mx)(en_info ep :=
     set_pending (en_synthetic (expire_front ep now) \<noteq> []) (mx_threads mx (en_info ep)))"
  by (simp_all add: refreshed_def)

lemma refreshed_threads:
  "th_queue (mx_threads (refreshed a ep now mx) (en_info ep)) = th_queue (mx_threads mx (en_info ep))"
  "th_ep_num (mx_threads (refreshed a ep now mx) (en_info ep)) = th_ep_num (mx_threads mx (en_info ep))"
  by simp_all

lemma take_cases:
  assumes take: "take_mouse_report a io0 now mx = (ok, io', mx')"
  obtains (idle) "\<not> ok" "mx' = mx"
      "map_of (mx_endpoints mx) a = None \<or> en_inflight (the (map_of (mx_endpoints mx) a))"
  | (none) ep where "map_of (mx_endpoints mx) a = Some ep" "\<not> en_inflight ep" "\<not> ok" "mx' = refreshed a ep now mx"
  | (physical) ep io rest ep' where "map_of (mx_endpoints mx) a = Some ep" "\<not> en_inflight ep" "ok"
      "th_queue (mx_threads mx (en_info ep)) = io # rest" "\<not> pl_standalone (writer_plan ep now mx)"
      "mix_physical (expire_front ep now) (ready_front (expire_front ep now)) (writer_plan ep now mx) io = (io', ep')"
      "mx' = put_endpoint a ep' (put_queue (en_info ep') rest (refreshed a ep now mx))"
  | (alone) ep i ep' where "map_of (mx_endpoints mx) a = Some ep" "\<not> en_inflight ep" "ok"
      "ready_front (expire_front ep now) = Some i" "pl_standalone (writer_plan ep now mx)"
      "standalone_report (expire_front ep now) (th_ep_num (mx_threads mx (en_info ep))) i (pl_competing (writer_plan ep now mx))
         = Some (io', ep')"
      "mx' = put_endpoint a ep' (refreshed a ep now mx)"
proof (cases "map_of (mx_endpoints mx) a")
  case None
  with take show ?thesis by (intro idle) (simp_all add: take_mouse_report_def)
next
  case (Some ep)
  show ?thesis
  proof (cases "en_inflight ep")
    case True
    with take Some show ?thesis by (intro idle) (simp_all add: take_mouse_report_def)
  next
    case False
    let ?th = "mx_threads mx (en_info ep)"
    have front: "pl_standalone (writer_plan ep now mx) \<longleftrightarrow> th_queue ?th = []"
      if "ready_front (expire_front ep now) \<noteq> None" "th_queue ?th = []"
      using that by (auto simp: writer_plan_def mix_decision_def)
    show ?thesis
    proof (cases "th_queue ?th")
      case Nil
      show ?thesis
        using take Some False Nil front
        by (auto simp: take_mouse_report_def Let_def refreshed_def writer_plan_def split: option.splits
            intro: none alone)
    next
      case (Cons io rest)
      let ?front = "ready_front (expire_front ep now)"
      note t = take [unfolded take_mouse_report_def Some option.case Let_def if_not_P [OF False]
          expire_front_frame, folded refreshed_def, simplified expire_front_frame refreshed_threads]
      have plan: "mix_decision (expire_front ep now) ?front (io # rest) = writer_plan ep now mx"
        by (simp add: writer_plan_def Cons)
      show ?thesis
      proof (cases "pl_standalone (writer_plan ep now mx)")
        case False
        obtain r e where m: "mix_physical (expire_front ep now) ?front (writer_plan ep now mx) io = (r, e)" by fastforce
        show ?thesis
          using t Cons False m plan physical [OF Some \<open>\<not> en_inflight ep\<close> _ Cons False, of e] by auto
      next
        case True
        then obtain i where f: "?front = Some i" unfolding plan [symmetric] by (cases ?front) (auto simp: mix_decision_def)
        show ?thesis
        proof (cases "standalone_report (expire_front ep now) (th_ep_num ?th) i (pl_competing (writer_plan ep now mx))")
          case None
          then show ?thesis using t Cons True plan f none [OF Some \<open>\<not> en_inflight ep\<close>] by auto
        next
          case r: (Some r)
          then show ?thesis
            using t Cons True plan f alone [OF Some \<open>\<not> en_inflight ep\<close> _ f True, of "snd r"] by (cases r) auto
        qed
      qed
    qed
  qed
qed

lemma same_layout_trans: "same_layout ep ep' \<Longrightarrow> same_layout ep' ep'' \<Longrightarrow> same_layout ep ep''"
  by (auto simp: same_layout_def)

lemma take_ok:
  assumes ok: "system_ok s" and w: "ms_writer s a = None"
    and take: "take_mouse_report a io0 now (ms_mixer s) = (done, io', mx)"
  shows "system_ok (s\<lparr>ms_mixer := mx, ms_writer := (ms_writer s)(a := (if done then Some io' else None))\<rparr>)"
proof -
  have lo: "locals_ok s" and ev: "length (mx_events (ms_mixer s)) \<le> MAX_WRITER_EVENTS"
    using ok by (auto simp: system_ok_def registry_ok_def)
  let ?g = "mx_next_generation (ms_mixer s)"
  let ?th = "\<lambda>ep. mx_threads (ms_mixer s) (en_info ep)"
  let ?th1 = "\<lambda>ep. set_pending (en_synthetic (expire_front ep now) \<noteq> []) (?th ep)"
  have close: "system_ok (s\<lparr>ms_mixer := mx, ms_writer := (ms_writer s)(a := v)\<rparr>)"
    if "map_of (mx_endpoints (ms_mixer s)) a = Some ep" "replaces (ms_mixer s) a ep ep' mx"
      "local_ok ?g (mx_threads mx (en_info ep)) (ms_reader s a) v a ep'" "same_layout ep ep'"
      "en_latest ep = [] \<Longrightarrow> en_latest ep' = []" for ep ep' v
    using system_ok_replace [OF ok that(1,2), of "ms_reader s" "(ms_writer s)(a := v)"] that(3-5) by simp
  have exp: "local_ok ?g (?th1 ep) (ms_reader s a) None a (expire_front ep now)" "same_layout ep (expire_front ep now)"
    if "map_of (mx_endpoints (ms_mixer s)) a = Some ep" "\<not> en_inflight ep" for ep
    using expire_local [OF locals_okD [OF lo that(1)] that(2)] w by simp_all
  from take show ?thesis
  proof (cases rule: take_cases)
    case idle
    have "(ms_writer s)(a := None) = ms_writer s" using w by auto
    with ok idle show ?thesis by simp
  next
    case (none ep)
    then show ?thesis
      using close [of ep "expire_front ep now" None] exp [of ep] ev by (simp add: replaces_def)
  next
    case (physical ep io rest ep')
    have inf: "\<not> en_inflight (expire_front ep now)" using physical by simp
    have q: "th_queue (?th1 ep) = io # rest" using physical by simp
    have plan: "writer_plan ep now (ms_mixer s)
        = mix_decision (expire_front ep now) (ready_front (expire_front ep now)) (th_queue (?th1 ep))"
      by (simp add: writer_plan_def)
    note t = take_physical_local [OF exp(1) [OF physical(1,2)] inf q plan physical(6)]
    have e: "en_info ep' = en_info ep" "en_interface ep' = en_interface ep" "en_latest ep' = en_latest ep"
      using physical(6) by (auto elim!: mix_physical_cases)
    show ?thesis
      using close [of ep ep' "Some io'"] t same_layout_trans [OF exp(2) [OF physical(1,2)]] physical ev e
      by (simp add: replaces_def)
  next
    case (alone ep i ep')
    have inf: "\<not> en_inflight (expire_front ep now)" using alone by simp
    note t = take_alone_local [OF exp(1) [OF alone(1,2)] inf alone(4,6)]
    have e: "en_info ep' = en_info ep" "en_interface ep' = en_interface ep" "en_latest ep' = en_latest ep"
      using alone(6)
      by (auto simp: standalone_report_def Let_def split: if_splits list.splits dest!: described_endpoint)
    show ?thesis
      using close [of ep ep' "Some io'"] t same_layout_trans [OF exp(2) [OF alone(1,2)]] alone ev e
      by (simp add: replaces_def)
  qed
qed

subsection \<open>The outcome of a write\<close>

abbreviation settled :: "transfer_io \<Rightarrow> bool \<Rightarrow> endpoint \<Rightarrow> endpoint" where
  "settled io success ep \<equiv> snd (settle_front io success ep)"

lemma physical_written_frame [simp]:
  "en_info (physical_written io t c ep) = en_info ep" "en_interface (physical_written io t c ep) = en_interface ep"
  "en_inflight (physical_written io t c ep) = en_inflight ep"
  "en_inflight_id (physical_written io t c ep) = en_inflight_id ep"
  "en_profile (physical_written io t c ep) = en_profile ep" "en_generation (physical_written io t c ep) = en_generation ep"
  "en_instance (physical_written io t c ep) = en_instance ep" "en_latest (physical_written io t c ep) = en_latest ep"
  "en_synthetic (physical_written io t c ep) = en_synthetic ep" "en_next_item (physical_written io t c ep) = en_next_item ep"
  "en_persistent (physical_written io t c ep) = en_persistent ep" "en_scheduled (physical_written io t c ep) = en_scheduled ep"
  by (simp_all add: physical_written_def Let_def)

lemma counted_frame [simp]:
  "en_info (count_write io success t ep) = en_info ep" "en_interface (count_write io success t ep) = en_interface ep"
  "en_inflight (count_write io success t ep) = en_inflight ep" "en_inflight_id (count_write io success t ep) = en_inflight_id ep"
  "en_profile (count_write io success t ep) = en_profile ep" "en_generation (count_write io success t ep) = en_generation ep"
  "en_instance (count_write io success t ep) = en_instance ep" "en_latest (count_write io success t ep) = en_latest ep"
  "en_synthetic (count_write io success t ep) = en_synthetic ep" "en_next_item (count_write io success t ep) = en_next_item ep"
  "en_persistent (count_write io success t ep) = en_persistent ep" "en_scheduled (count_write io success t ep) = en_scheduled ep"
  by (simp_all add: count_write_def Let_def)

lemma carries_front_counted [simp]: "carries_front io c (count_write io success t ep) = carries_front io c ep"
  by (simp add: carries_front_def)

lemma counted_template:
  "en_template (count_write io success t ep) = en_template ep
   \<or> (io_match io \<and> io_generation io = en_generation ep \<and> length (en_template (count_write io success t ep)) \<le> io_length io)"
  by (auto simp: count_write_def physical_written_def Let_def)

lemma physical_written_counts:
  assumes "length (en_residence ep) \<le> MAX_RESIDENCE_SAMPLES"
  shows "length (en_residence (physical_written io t c ep)) \<le> MAX_RESIDENCE_SAMPLES"
    and "en_successes (physical_written io t c ep) \<le> 3"
  using assms by (simp_all add: physical_written_def Let_def)

lemma counted_counts: "counts_ok g ep \<Longrightarrow> counts_ok g (count_write io success t ep)"
  using physical_written_counts
  by (auto simp: counts_ok_def count_write_def Let_def)

lemma settled_frame [simp]:
  "en_info (settled io success ep) = en_info ep" "en_interface (settled io success ep) = en_interface ep"
  "\<not> en_inflight (settled io success ep)" "en_profile (settled io success ep) = en_profile ep"
  "en_generation (settled io success ep) = en_generation ep" "en_instance (settled io success ep) = en_instance ep"
  "en_latest (settled io success ep) = en_latest ep" "en_template (settled io success ep) = en_template ep"
  "en_next_item (settled io success ep) = en_next_item ep" "en_residence (settled io success ep) = en_residence ep"
  "en_successes (settled io success ep) = en_successes ep"
  by (simp_all add: settle_front_def commit_front_def remove_finished_front_def Let_def)

lemma settled_ids:
  assumes "en_synthetic ep \<noteq> []"
  shows "\<exists>n. map si_id (en_synthetic (settled io success ep)) = drop n (map si_id (en_synthetic ep))"
proof (cases success)
  case True
  have ids: "map si_id (en_synthetic (snd (commit_front io ep))) = map si_id (en_synthetic ep)"
    using assms by (cases "en_synthetic ep") (simp_all add: commit_front_def Let_def)
  obtain n where "en_synthetic (settled io success ep) = drop n (en_synthetic (snd (commit_front io ep)))"
    using True dropWhile_drop [of finished_item] by (auto simp: settle_front_def remove_finished_front_def Let_def split_beta)
  then show ?thesis using ids by (metis drop_map)
next
  case False
  then show ?thesis by (intro exI [of _ 0]) (simp add: settle_front_def)
qed

lemma notify_cases:
  assumes "mx' = notify_mouse_report_written a io success t mx"
  obtains (skip) "mx' = mx" "\<And>ep. map_of (mx_endpoints mx) a = Some ep \<Longrightarrow> \<not> io_managed io \<or> io_instance io \<noteq> en_instance ep"
  | (noted) ep ep' where "map_of (mx_endpoints mx) a = Some ep" "io_managed io" "io_instance io = en_instance ep"
      "ep' = (if carries_front io (io_generation io = en_generation ep) ep
         then settled io success (count_write io success t ep) else count_write io success t ep)"
      "mx_endpoints mx' = smap_put a ep' (mx_endpoints mx)" "mx_descriptors mx' = mx_descriptors mx"
      "mx_reports mx' = mx_reports mx" "mx_selected mx' = mx_selected mx"
      "mx_next_generation mx' = mx_next_generation mx"
      "length (mx_events mx) \<le> MAX_WRITER_EVENTS \<longrightarrow> length (mx_events mx') \<le> MAX_WRITER_EVENTS"
      "mx_threads mx' = (if carries_front io (io_generation io = en_generation ep) ep
         then (mx_threads mx)(en_info ep := set_pending (en_synthetic ep' \<noteq> []) (mx_threads mx (en_info ep)))
         else mx_threads mx)"
proof (cases "\<exists>ep. map_of (mx_endpoints mx) a = Some ep \<and> io_managed io \<and> io_instance io = en_instance ep")
  case False
  then have "mx' = mx"
    using assms by (auto simp: notify_mouse_report_written_def split: option.splits)
  then show ?thesis using skip False by blast
next
  case True
  then obtain ep where ep: "map_of (mx_endpoints mx) a = Some ep" "io_managed io" "io_instance io = en_instance ep" by blast
  let ?c = "carries_front io (io_generation io = en_generation ep) ep"
  let ?ep = "if ?c then settled io success (count_write io success t ep) else count_write io success t ep"
  have push: "length (mx_events m) \<le> MAX_WRITER_EVENTS \<Longrightarrow> length (mx_events (push_event e m)) \<le> MAX_WRITER_EVENTS" for e m
    by (simp add: push_event_def)
  obtain f where mx': "mx' = (if emits_event io (io_generation io = en_generation ep) success
      then push_event (written_event io t success f)
        (put_endpoint a ?ep (if ?c then update_pending ?ep mx else mx))
      else put_endpoint a ?ep (if ?c then update_pending ?ep mx else mx))"
  proof (cases ?c)
    case True
    show ?thesis
      by (rule that [of "fst (settle_front io success (count_write io success t ep))"])
        (simp add: assms notify_mouse_report_written_def ep True split_beta Let_def)
  next
    case False
    show ?thesis
      by (rule that [of False]) (simp add: assms notify_mouse_report_written_def ep False split_beta Let_def)
  qed
  show ?thesis
    by (rule noted [OF ep refl]) (use push in \<open>simp_all add: mx'\<close>)
qed

lemma counted_local:
  assumes loc: "local_ok g th r (Some io) a ep"
  shows "layout_known (count_write io success t ep)" and "same_layout ep (count_write io success t ep)"
    and "counts_ok g (count_write io success t ep)" and "items_ok (count_write io success t ep)"
proof -
  have w: "written_ok g ep io" by (rule local_okD(9) [OF loc refl])
  have "io_match io \<and> io_generation io = en_generation ep \<Longrightarrow> en_latest ep \<noteq> []" "io_length io \<le> MAX_TRANSFER_SIZE"
    using w by (auto simp: written_ok_def current_report_def buffer_ok_def)
  with counted_template [of io success t ep] local_okD(2) [OF loc]
  show "layout_known (count_write io success t ep)" unfolding layout_known_def counted_frame by auto
  show "same_layout ep (count_write io success t ep)" by (simp add: same_layout_def)
  show "counts_ok g (count_write io success t ep)" by (rule counted_counts [OF local_okD(3) [OF loc]])
  show "items_ok (count_write io success t ep)" using local_okD(1) [OF loc] by (simp add: items_ok_def)
qed

lemma settled_local:
  assumes "layout_known ep" and "counts_ok g ep" and "items_ok ep" and "en_synthetic ep \<noteq> []"
  shows "layout_known (settled io success ep)" and "same_layout ep (settled io success ep)"
    and "counts_ok g (settled io success ep)" and "items_ok (settled io success ep)"
proof -
  show "layout_known (settled io success ep)" using assms(1,4) by (auto simp: layout_known_def)
  show "same_layout ep (settled io success ep)" by (simp add: same_layout_def)
  show "counts_ok g (settled io success ep)" using assms(2) by (simp add: counts_ok_def)
  obtain n where "map si_id (en_synthetic (settled io success ep)) = drop n (map si_id (en_synthetic ep))"
    using settled_ids [OF assms(4)] by blast
  then show "items_ok (settled io success ep)" by (rule items_ok_drop [OF assms(3)]) simp
qed

lemma written_step_ok:
  assumes ok: "system_ok s" and w: "ms_writer s a = Some io"
  shows "system_ok (s\<lparr>ms_mixer := notify_mouse_report_written a io success now (ms_mixer s),
     ms_writer := (ms_writer s)(a := None)\<rparr>)"
proof -
  let ?mx = "notify_mouse_report_written a io success now (ms_mixer s)"
  let ?g = "mx_next_generation (ms_mixer s)"
  have lo: "locals_ok s" and ev: "length (mx_events (ms_mixer s)) \<le> MAX_WRITER_EVENTS"
    using ok by (auto simp: system_ok_def registry_ok_def)
  have "?mx = ?mx" ..
  then show ?thesis
  proof (cases rule: notify_cases)
    case skip
    have "local_ok ?g (mx_threads (ms_mixer s) (en_info ep)) (ms_reader s a) None a ep"
      if "map_of (mx_endpoints (ms_mixer s)) a = Some ep" for ep
    proof -
      note loc = locals_okD [OF lo that]
      have "held_item ep None" using local_okD(4) [OF loc] skip(2) [OF that] w by (auto simp: held_item_def)
      with loc show ?thesis by (simp add: local_ok_def)
    qed
    with lo have "locals_ok (s\<lparr>ms_writer := (ms_writer s)(a := None)\<rparr>)"
      by (auto simp: locals_ok_def)
    with ok skip(1) show ?thesis by (simp add: system_ok_def)
  next
    case (noted ep ep')
    note loc = locals_okD [OF lo noted(1), unfolded w]
    note c = counted_local [OF loc]
    let ?c = "carries_front io (io_generation io = en_generation ep) ep"
    have ne: "en_synthetic ep \<noteq> []" if ?c using that by (simp add: carries_front_def)
    note st = settled_local [OF c(1,3,4), unfolded counted_frame, OF ne]
    have ep': "layout_known ep'" "counts_ok ?g ep'" "items_ok ep'" using c st by (auto simp: noted(4))
    have same: "same_layout ep ep'" by (simp add: noted(4) same_layout_def)
    have held: "held_item ep' None"
    proof (cases ?c)
      case False
      then have "\<not> en_inflight ep" using local_okD(4) [OF loc] by (auto simp: held_item_def)
      then show ?thesis using False by (simp add: noted(4) held_item_def)
    qed (simp add: noted(4) held_item_def)
    have "th_pending (mx_threads ?mx (en_info ep)) \<in> {None, Some (en_synthetic ep' \<noteq> [])}"
      using local_okD(6) [OF loc] pending_set by (simp add: noted(4,11))
    moreover have "th_queue (mx_threads ?mx (en_info ep)) = th_queue (mx_threads (ms_mixer s) (en_info ep))"
      "th_address (mx_threads ?mx (en_info ep)) = th_address (mx_threads (ms_mixer s) (en_info ep))"
      by (simp_all add: noted(11))
    ultimately have "local_ok ?g (mx_threads ?mx (en_info ep)) (ms_reader s a) None a ep'"
      using local_okD(8) [OF loc] same_layout_reports [OF same]
      by (intro local_ok_transfer [OF loc same _ _ _ ep'(3,1,2) held]) auto
    moreover have "replaces (ms_mixer s) a ep ep' ?mx"
      using ev noted by (simp add: replaces_def)
    moreover have "en_latest ep' = en_latest ep" by (simp add: noted(4))
    ultimately show ?thesis
      using system_ok_replace [OF ok noted(1), of ep' ?mx "ms_reader s" "(ms_writer s)(a := None)"] same by simp
  qed
qed

subsection \<open>Enqueueing, clearing, seeding\<close>

text \<open>Superseding drops a suffix of plain movements, and never the item in flight.\<close>

lemma supersede_cases:
  "\<exists>ys. xs = ys @ fst (supersede ep p xs n) \<and> (\<forall>y\<in>set ys. replaceable ep p y)
     \<and> snd (supersede ep p xs n) = n + of_nat (length ys)
     \<and> (fst (supersede ep p xs n) \<noteq> [] \<longrightarrow> \<not> replaceable ep p (hd (fst (supersede ep p xs n))))"
proof (induction xs arbitrary: n)
  case (Cons x xs)
  show ?case
  proof (cases "replaceable ep p x")
    case True
    with Cons [of "n + 1"] obtain ys where "xs = ys @ fst (supersede ep p xs (n + 1))"
      "\<forall>y\<in>set ys. replaceable ep p y" "snd (supersede ep p xs (n + 1)) = n + 1 + of_nat (length ys)"
      "fst (supersede ep p xs (n + 1)) \<noteq> [] \<longrightarrow> \<not> replaceable ep p (hd (fst (supersede ep p xs (n + 1))))" by blast
    with True show ?thesis by (intro exI [of _ "x # ys"]) simp
  qed simp
qed simp

text \<open>The items left by an enqueue, and its new one.\<close>

definition kept_items :: "endpoint \<Rightarrow> u8 \<Rightarrow> bool \<Rightarrow> synthetic_item list" where
  "kept_items ep p latest =
    (if latest then rev (fst (supersede ep p (rev (en_synthetic ep)) (en_superseded ep))) else en_synthetic ep)"

lemma kept_items_prefix:
  "\<exists>ys. en_synthetic ep = kept_items ep p latest @ ys \<and> (\<forall>y\<in>set ys. latest \<and> replaceable ep p y)"
proof (cases latest)
  case True
  obtain ys where ys: "rev (en_synthetic ep) = ys @ fst (supersede ep p (rev (en_synthetic ep)) (en_superseded ep))"
    "\<forall>y\<in>set ys. replaceable ep p y"
    using supersede_cases [of "rev (en_synthetic ep)" ep p "en_superseded ep"] by blast
  then have "en_synthetic ep = rev (fst (supersede ep p (rev (en_synthetic ep)) (en_superseded ep))) @ rev ys"
    by (metis rev_append rev_rev_ident)
  then show ?thesis using True ys(2) unfolding kept_items_def by (intro exI [of _ "rev ys"]) simp
qed (simp add: kept_items_def)

definition new_item :: "endpoint \<Rightarrow> mouse_command \<Rightarrow> u8 \<Rightarrow> u8 \<Rightarrow> report_kind \<Rightarrow> bool \<Rightarrow> u64 \<Rightarrow> u64 \<Rightarrow> u32 \<Rightarrow> u8
    \<Rightarrow> u64 \<Rightarrow> u64 \<Rightarrow> synthetic_item" where
  "new_item ep c p sch kind latest session cid index button activity now =
    \<lparr>si_id = en_next_item ep, si_generation = en_generation ep,
     si_deadline = (if latest then now + 25000000 else 0), si_barrier = en_barrier ep, si_session = session,
     si_command = cid, si_guard = activity, si_index = index, si_remaining = c\<lparr>cmd_buttons := p OR sch\<rparr>,
     si_persistent = p, si_scheduled = sch, si_button = button, si_kind = kind, si_latest = latest,
     si_committed = False\<rparr>"

definition superseded_count :: "endpoint \<Rightarrow> u8 \<Rightarrow> bool \<Rightarrow> u64" where
  "superseded_count ep p latest =
    (if latest then snd (supersede ep p (rev (en_synthetic ep)) (en_superseded ep)) else en_superseded ep)"

lemma enqueue_admitted:
  assumes "map_of (mx_endpoints mx) (mx_selected mx) = Some ep" and "en_latest ep \<noteq> []"
    and "generation = 0 \<or> en_generation ep = generation" and "activity = UINT64_MAX \<or> en_activity ep = activity"
    and "split_mouse_command (en_profile ep) (c\<lparr>cmd_buttons := p OR sch\<rparr>) \<noteq> []"
  shows "enqueue_report c p sch kind latest session cid index button activity generation now mx =
    (if length (kept_items ep p latest) \<ge> MAX_SYNTHETIC_ITEMS
     then (ER_QueueFull, put_endpoint (mx_selected mx)
            (ep\<lparr>en_synthetic := kept_items ep p latest, en_superseded := superseded_count ep p latest\<rparr>) mx)
     else let ep' = ep\<lparr>en_synthetic := kept_items ep p latest
            @ [new_item ep c p sch kind latest session cid index button activity now],
          en_next_item := en_next_item ep + 1, en_superseded := superseded_count ep p latest\<rparr>
     in (ER_Ok, update_pending ep' (put_endpoint (mx_selected mx) ep' mx)))"
proof -
  have ready: "\<not> ((generation \<noteq> 0 \<and> en_generation ep \<noteq> generation) \<or> (activity \<noteq> UINT64_MAX \<and> en_activity ep \<noteq> activity))"
    using assms(3,4) by auto
  obtain kept n where k: "supersede ep p (rev (en_synthetic ep)) (en_superseded ep) = (kept, n)" by fastforce
  show ?thesis
    unfolding enqueue_report_def assms(1) option.case if_not_P [OF assms(2)] if_not_P [OF ready] Let_def
      if_not_P [OF assms(5)] kept_items_def superseded_count_def k new_item_def
    by (cases latest; cases ep) simp_all
qed

lemma enqueue_cases:
  assumes "enqueue_report c p sch kind latest session cid index button activity generation now mx = (result, mx')"
  obtains (refused) "result = ER_NotReady \<or> result = ER_Unsupported" "mx' = mx"
  | (full) ep ep' where "map_of (mx_endpoints mx) (mx_selected mx) = Some ep" "en_latest ep \<noteq> []"
      "result = ER_QueueFull" "length (kept_items ep p latest) \<ge> MAX_SYNTHETIC_ITEMS"
      "mx' = put_endpoint (mx_selected mx) ep' mx"
      "\<exists>n. ep' = ep\<lparr>en_synthetic := kept_items ep p latest, en_superseded := n\<rparr>"
  | (queued) ep ep' where "map_of (mx_endpoints mx) (mx_selected mx) = Some ep" "en_latest ep \<noteq> []" "result = ER_Ok"
      "length (kept_items ep p latest) < MAX_SYNTHETIC_ITEMS"
      "\<exists>n. ep' = ep\<lparr>en_synthetic := kept_items ep p latest
           @ [new_item ep c p sch kind latest session cid index button activity now],
         en_next_item := en_next_item ep + 1, en_superseded := n\<rparr>"
      "mx' = update_pending ep' (put_endpoint (mx_selected mx) ep' mx)"
      "split_mouse_command (en_profile ep) (c\<lparr>cmd_buttons := p OR sch\<rparr>) \<noteq> []"
      "generation = 0 \<or> en_generation ep = generation" "activity = UINT64_MAX \<or> en_activity ep = activity"
proof (cases "map_of (mx_endpoints mx) (mx_selected mx)")
  case None
  with assms show ?thesis by (intro refused) (simp_all add: enqueue_report_def)
next
  case (Some ep)
  show ?thesis
  proof (cases "en_latest ep = [] \<or> (generation \<noteq> 0 \<and> en_generation ep \<noteq> generation)
      \<or> (activity \<noteq> UINT64_MAX \<and> en_activity ep \<noteq> activity)
      \<or> split_mouse_command (en_profile ep) (c\<lparr>cmd_buttons := p OR sch\<rparr>) = []")
    case True
    with assms Some show ?thesis
      by (intro refused) (auto simp: enqueue_report_def Let_def split: if_splits)
  next
    case False
    then have c: "en_latest ep \<noteq> []" "generation = 0 \<or> en_generation ep = generation"
      "activity = UINT64_MAX \<or> en_activity ep = activity"
      "split_mouse_command (en_profile ep) (c\<lparr>cmd_buttons := p OR sch\<rparr>) \<noteq> []" by auto
    note e = assms [unfolded enqueue_admitted [OF Some c]]
    show ?thesis
    proof (cases "length (kept_items ep p latest) \<ge> MAX_SYNTHETIC_ITEMS")
      case True
      show ?thesis
        by (rule full [OF Some c(1) _ True]) (use e True in auto)
    next
      case room: False
      show ?thesis
        by (rule queued [OF Some c(1) _ _ _ _ c(4,2,3)]) (use e room in \<open>auto simp: Let_def\<close>)
    qed
  qed
qed

text \<open>A step of the server on the selected endpoint.\<close>

lemma serve_ok:
  assumes ok: "system_ok s" and e: "map_of (mx_endpoints (ms_mixer s)) (mx_selected (ms_mixer s)) = Some ep"
    and mx: "mx = update_pending ep' (put_endpoint (mx_selected (ms_mixer s)) ep' (ms_mixer s))
      \<or> (mx = put_endpoint (mx_selected (ms_mixer s)) ep' (ms_mixer s) \<and> (en_synthetic ep' = [] \<longleftrightarrow> en_synthetic ep = []))"
    and ep': "en_info ep' = en_info ep" "en_interface ep' = en_interface ep" "en_latest ep' = en_latest ep"
      "en_profile ep' = en_profile ep" "en_generation ep' = en_generation ep" "layout_known ep'"
      "counts_ok (mx_next_generation (ms_mixer s)) ep'" "items_ok ep'"
    and held: "held_item ep (ms_writer s (mx_selected (ms_mixer s))) \<Longrightarrow> held_item ep' (ms_writer s (mx_selected (ms_mixer s)))"
  shows "system_ok (s\<lparr>ms_mixer := mx\<rparr>)"
proof -
  let ?a = "mx_selected (ms_mixer s)"
  have lo: "locals_ok s" and ev: "length (mx_events (ms_mixer s)) \<le> MAX_WRITER_EVENTS"
    using ok by (auto simp: system_ok_def registry_ok_def)
  note loc = locals_okD [OF lo e]
  have same: "same_layout ep ep'" using ep' by (auto simp: same_layout_def)
  have th: "th_address (mx_threads mx (en_info ep)) = th_address (mx_threads (ms_mixer s) (en_info ep))"
      "th_queue (mx_threads mx (en_info ep)) = th_queue (mx_threads (ms_mixer s) (en_info ep))"
      "th_pending (mx_threads mx (en_info ep)) \<in> {None, Some (en_synthetic ep' \<noteq> [])}"
    using mx local_okD(6) [OF loc] pending_set ep'(1) by auto
  have "local_ok (mx_next_generation (ms_mixer s)) (mx_threads mx (en_info ep)) (ms_reader s ?a) (ms_writer s ?a) ?a ep'"
    using local_okD(8,9) [OF loc] same_layout_reports [OF same] ep'(6-8) held [OF local_okD(4) [OF loc]] th
    by (intro local_ok_transfer [OF loc same]) auto
  moreover have "replaces (ms_mixer s) ?a ep ep' mx"
    using mx ev ep' by (auto simp: replaces_def)
  ultimately show ?thesis
    using system_ok_replace [OF ok e, of ep' mx "ms_reader s" "ms_writer s"] same ep'(3) by simp
qed

lemma kept_items_front:
  assumes "en_inflight ep" and "si_id (hd (en_synthetic ep)) = en_inflight_id ep" and "en_synthetic ep \<noteq> []"
  shows "kept_items ep p latest \<noteq> []" and "hd (kept_items ep p latest) = hd (en_synthetic ep)"
proof -
  obtain ys where ys: "en_synthetic ep = kept_items ep p latest @ ys" "\<forall>y\<in>set ys. latest \<and> replaceable ep p y"
    using kept_items_prefix by blast
  show ne: "kept_items ep p latest \<noteq> []"
  proof
    assume k: "kept_items ep p latest = []"
    have "hd (en_synthetic ep) \<in> set ys" using ys(1) assms(3) k by (metis append_Nil hd_in_set)
    then have "replaceable ep p (hd (en_synthetic ep))" using ys(2) by blast
    then show False using assms(1,2) by (simp add: replaceable_def)
  qed
  show "hd (kept_items ep p latest) = hd (en_synthetic ep)" using ne by (subst ys(1)) simp
qed

lemma kept_items_held:
  assumes "held_item ep w" and "en_synthetic ep' = kept_items ep p latest @ tail"
    and "en_inflight ep' = en_inflight ep" "en_inflight_id ep' = en_inflight_id ep"
      "en_instance ep' = en_instance ep" "en_generation ep' = en_generation ep"
  shows "held_item ep' w"
  unfolding held_item_def
proof
  assume "en_inflight ep'"
  then have inf: "en_inflight ep" by (simp add: assms(3))
  then obtain io where io: "w = Some io" "io_managed io" "io_instance io = en_instance ep"
    "io_generation io = en_generation ep" and c: "carries_front io True ep"
    using assms(1) by (auto simp: held_item_def)
  have "kept_items ep p latest \<noteq> []" "hd (kept_items ep p latest) = hd (en_synthetic ep)"
    using kept_items_front [OF inf] c by (auto simp: carries_front_def)
  then have "carries_front io True ep'" using c assms(2-4) by (simp add: carries_front_def)
  with io show "\<exists>io. w = Some io \<and> io_managed io \<and> io_instance io = en_instance ep'
      \<and> io_generation io = en_generation ep' \<and> carries_front io True ep'"
    using assms(5,6) by auto
qed

lemma kept_items_ok:
  assumes "items_ok ep" and "en_synthetic ep' = kept_items ep p latest" and "en_next_item ep' = en_next_item ep"
  shows "items_ok ep'"
proof -
  obtain ys where ys: "en_synthetic ep = kept_items ep p latest @ ys" using kept_items_prefix by blast
  show ?thesis
    using assms(1) unfolding items_ok_def assms(2,3) ys
    by (auto simp: sorted_wrt_append)
qed

lemma queued_items_ok:
  assumes "items_ok ep" and "length (kept_items ep p latest) < MAX_SYNTHETIC_ITEMS"
    and "en_next_item ep \<noteq> UINT64_MAX" and "si_id i = en_next_item ep"
    and "en_synthetic ep' = kept_items ep p latest @ [i]" and "en_next_item ep' = en_next_item ep + 1"
  shows "items_ok ep'"
proof -
  obtain ys where ys: "en_synthetic ep = kept_items ep p latest @ ys" using kept_items_prefix by blast
  have old: "sorted_wrt (\<lambda>i j. si_id i < si_id j) (kept_items ep p latest)"
    "\<And>j. j \<in> set (kept_items ep p latest) \<Longrightarrow> si_id j \<noteq> 0 \<and> si_id j < en_next_item ep"
    using assms(1) unfolding items_ok_def ys by (auto simp: sorted_wrt_append)
  have max: "(- 1 :: u64) = UINT64_MAX" by (simp add: UINT64_MAX_def)
  have ne: "en_next_item ep + 1 \<noteq> 0"
    using assms(3) max by (metis add.commute add_eq_0_iff)
  then have "unat (1 + en_next_item ep) = Suc (unat (en_next_item ep))" by (intro unatSuc) (simp add: add.commute)
  then have lt: "en_next_item ep < en_next_item ep + 1" by (simp add: word_less_nat_alt add.commute)
  have "en_next_item ep \<noteq> 0" using assms(1) by (simp add: items_ok_def)
  then show ?thesis
    unfolding items_ok_def assms(5,6) using old assms(2,4) ne lt
    by (auto simp: sorted_wrt_append dest: less_trans [OF _ lt])
qed

lemma enqueue_ok:
  assumes ok: "system_ok s" and low: "counters_low (ms_mixer s)"
    and enq: "enqueue_report c p sch kind latest session cid index button activity generation now (ms_mixer s)
      = (result, mx)"
  shows "system_ok (s\<lparr>ms_mixer := mx\<rparr>)"
proof -
  have lo: "locals_ok s" using ok by (simp add: system_ok_def)
  from enq show ?thesis
  proof (cases rule: enqueue_cases)
    case refused
    then show ?thesis using ok by simp
  next
    case (full ep ep')
    note loc = locals_okD [OF lo full(1)]
    obtain n where e: "ep' = ep\<lparr>en_synthetic := kept_items ep p latest, en_superseded := n\<rparr>" using full(6) by blast
    have "en_synthetic ep' \<noteq> []" using full(4) by (auto simp: e MAX_SYNTHETIC_ITEMS_def)
    moreover have "en_synthetic ep \<noteq> []"
      using kept_items_prefix [of ep p latest] full(4) by (auto simp: MAX_SYNTHETIC_ITEMS_def)
    ultimately show ?thesis
      using local_okD(1-3) [OF loc] full(2) kept_items_ok [of ep ep' p latest] full(5)
      by (intro serve_ok [OF ok full(1), of mx ep'])
        (auto simp: e layout_known_def counts_ok_def intro: kept_items_held [where tail = "[]"])
  next
    case (queued ep ep')
    note loc = locals_okD [OF lo queued(1)]
    obtain n where e: "ep' = ep\<lparr>en_synthetic := kept_items ep p latest
           @ [new_item ep c p sch kind latest session cid index button activity now],
         en_next_item := en_next_item ep + 1, en_superseded := n\<rparr>" using queued(5) by blast
    have "en_next_item ep \<noteq> UINT64_MAX"
      using low map_of_SomeD [OF queued(1)] by (auto simp: counters_low_def)
    then have "items_ok ep'"
      by (intro queued_items_ok [OF local_okD(1) [OF loc] queued(4)]) (simp_all add: e new_item_def)
    then show ?thesis
      using local_okD(2,3) [OF loc] queued(2,6)
      by (intro serve_ok [OF ok queued(1), of mx ep'])
        (auto simp: e layout_known_def counts_ok_def intro: kept_items_held)
  qed
qed

lemma clear_ok:
  assumes ok: "system_ok s"
  shows "system_ok (s\<lparr>ms_mixer := snd (clear_synthetic_state now (ms_mixer s))\<rparr>)"
proof (cases "map_of (mx_endpoints (ms_mixer s)) (mx_selected (ms_mixer s))")
  case None
  then show ?thesis using ok by (simp add: clear_synthetic_state_def)
next
  case (Some ep)
  have lo: "locals_ok s" using ok by (simp add: system_ok_def)
  let ?ep = "ep\<lparr>en_synthetic := [], en_inflight := False, en_inflight_id := 0\<rparr>"
  show ?thesis
    using local_okD(1-3) [OF locals_okD [OF lo Some]] Some
    by (intro serve_ok [OF ok Some, of _ ?ep])
      (auto simp: clear_synthetic_state_def Let_def layout_known_def counts_ok_def items_ok_def held_item_def)
qed

lemma seed_ok:
  assumes ok: "system_ok s" and p: "length p \<le> MAX_TRANSFER_SIZE"
  shows "system_ok (s\<lparr>ms_mixer := snd (seed_mouse_report a (read_report n p) (ms_mixer s))\<rparr>)"
proof (cases "map_of (mx_endpoints (ms_mixer s)) a")
  case None
  then show ?thesis using ok by (simp add: seed_mouse_report_def)
next
  case (Some ep)
  have l: "learnt (ms_mixer s)" and lo: "locals_ok s" and ev: "length (mx_events (ms_mixer s)) \<le> MAX_WRITER_EVENTS"
    using ok by (auto simp: system_ok_def registry_ok_def)
  note loc = locals_okD [OF lo Some]
  let ?io = "read_report n p"
  show ?thesis
  proof (cases "matching_profile (ms_mixer s) ep (io_data ?io) (io_length ?io)")
    case None
    then show ?thesis using ok Some by (simp add: seed_mouse_report_def)
  next
    case match: (Some m)
    note ml = matching_layout [OF l Some match]
    define q where "q = put_buttons m (clear_relative m (take (io_length ?io) (io_data ?io))) 0"
    define ep' where "ep' = ep\<lparr>en_profile := m, en_latest := q, en_template := q, en_physical := 0, en_submitted := 0\<rparr>"
    have mx: "snd (seed_mouse_report a ?io (ms_mixer s)) = select_if_none a (put_endpoint a ep' (ms_mixer s))"
      using Some match by (simp add: seed_mouse_report_def Let_def q_def ep'_def)
    have lq: "length q = io_length ?io" "io_length ?io \<le> MAX_TRANSFER_SIZE" using p by (simp_all add: q_def)
    have ne: "q \<noteq> []" using lq(1) ml(3) by auto
    have same: "same_layout ep ep'" using ml(4) ne by (auto simp: same_layout_def ep'_def)
    have "local_ok (mx_next_generation (ms_mixer s)) (mx_threads (ms_mixer s) (en_info ep)) (ms_reader s a) (ms_writer s a) a ep'"
      by (rule local_ok_layout [OF loc same])
        (use local_okD(2,3,8) [OF loc] ml(1) lq ne same_layout_reports [OF same] in
          \<open>auto simp: ep'_def layout_known_def counts_ok_def\<close>)
    moreover have "replaces (ms_mixer s) a ep ep' (snd (seed_mouse_report a ?io (ms_mixer s)))"
      using ev by (auto simp: replaces_def mx ep'_def select_if_none_def)
    ultimately show ?thesis
      using system_ok_replace [OF ok Some, of ep' "snd (seed_mouse_report a ?io (ms_mixer s))" "ms_reader s" "ms_writer s"]
        same ml(5) by (simp add: mx ep'_def)
  qed
qed

subsection \<open>Layout changes\<close>

lemma next_generation_fresh:
  assumes "unat (g :: u64) + 1 < 2 ^ 64"
  shows "g < g + 1" and "unat (g + 1) = unat g + 1" and "0 < g + 1"
proof -
  have ne: "1 + g \<noteq> 0"
  proof
    assume "1 + g = 0"
    then have "g = - 1" by (metis add.commute add_eq_0_iff)
    then have "unat g = 2 ^ 64 - 1" by (simp add: unsigned_minus_1_eq_mask mask_eq_exp_minus_1)
    then show False using assms by simp
  qed
  from unatSuc [OF ne] show u: "unat (g + 1) = unat g + 1" by (simp add: add.commute)
  then show "g < g + 1" by (simp add: word_less_nat_alt)
  then show "0 < g + 1" using word_gt_0 by fastforce
qed

lemma old_reports:
  assumes "io_generation io \<le> g" and "g < (g' :: u64)" and "en_generation ep' = g'"
  shows "queued_ok g ep io \<Longrightarrow> queued_ok g' ep' io" and "written_ok g ep io \<Longrightarrow> written_ok g' ep' io"
proof -
  have ne: "io_generation io \<noteq> en_generation ep'" "io_generation io \<le> g'" using assms by auto
  show "queued_ok g ep io \<Longrightarrow> queued_ok g' ep' io" "written_ok g ep io \<Longrightarrow> written_ok g' ep' io"
    using ne by (simp_all add: queued_ok_def written_ok_def compatible_def current_report_def)
qed

text \<open>One endpoint is invalidated.\<close>

lemma invalidate_local:
  assumes loc: "local_ok g th r w a ep" and g: "unat g + 1 < 2 ^ 64"
  shows "local_ok (g + 1) (set_pending False th) r w a (invalidate_endpoint (g + 1) ep)"
proof -
  let ?ep = "invalidate_endpoint (g + 1) ep"
  note fresh = next_generation_fresh [OF g]
  have gen: "en_generation ?ep = g + 1" by (simp add: invalidate_endpoint_def)
  have q: "queued_ok g ep io \<Longrightarrow> queued_ok (g + 1) ?ep io" "written_ok g ep io \<Longrightarrow> written_ok (g + 1) ?ep io" for io
    using old_reports [of io g "g + 1" ?ep ep] fresh(1) gen by (auto simp: queued_ok_def written_ok_def)
  have "items_ok ?ep" "layout_known ?ep" "counts_ok (g + 1) ?ep" "held_item ?ep w"
    using local_okD(1,3) [OF loc] fresh(3)
    by (auto simp: invalidate_endpoint_def items_ok_def layout_known_def counts_ok_def held_item_def)
  moreover have "en_synthetic ?ep = []" by (simp add: invalidate_endpoint_def)
  ultimately show ?thesis using loc q pending_set [of False th] by (auto simp: local_ok_def)
qed

definition relaid :: "int \<Rightarrow> int set \<Rightarrow> mixer \<Rightarrow> mixer \<Rightarrow> bool" where
  "relaid number A mx mx' \<longleftrightarrow> mx_descriptors mx' = mx_descriptors mx \<and> mx_reports mx' = mx_reports mx
     \<and> mx_selected mx' = mx_selected mx \<and> mx_events mx' = mx_events mx
     \<and> dom (map_of (mx_endpoints mx')) = dom (map_of (mx_endpoints mx))
     \<and> (smap_ok (mx_endpoints mx) \<longrightarrow> smap_ok (mx_endpoints mx'))
     \<and> (\<forall>a ep. map_of (mx_endpoints mx') a = Some ep \<longrightarrow> en_latest ep = []
          \<or> map_of (mx_endpoints mx) a = Some ep \<and> (a \<in> A \<longrightarrow> en_interface ep \<noteq> number))"

lemma relaid_refl: "relaid number {} mx mx"
  by (simp add: relaid_def)

lemma relaid_skip:
  assumes "relaid number A mx mx'" and "map_of (mx_endpoints mx) a = Some ep" and "en_interface ep \<noteq> number"
  shows "relaid number (insert a A) mx mx'"
  using assms unfolding relaid_def by fastforce

lemma relaid_replace:
  assumes "relaid number A mx1 mx'" and "map_of (mx_endpoints mx) a = Some ep" and "en_latest ep1 = []"
    and "mx_endpoints mx1 = smap_put a ep1 (mx_endpoints mx)" "mx_descriptors mx1 = mx_descriptors mx"
      "mx_reports mx1 = mx_reports mx" "mx_selected mx1 = mx_selected mx" "mx_events mx1 = mx_events mx"
  shows "relaid number (insert a A) mx mx'"
proof -
  have "dom (map_of (mx_endpoints mx')) = dom (map_of (mx_endpoints mx))"
    using assms(1,2,4) by (auto simp: relaid_def)
  moreover have "smap_ok (mx_endpoints mx) \<Longrightarrow> smap_ok (mx_endpoints mx')"
    using assms(1,4) by (simp add: relaid_def)
  moreover have "en_latest f = [] \<or> map_of (mx_endpoints mx) b = Some f \<and> (b \<in> insert a A \<longrightarrow> en_interface f \<noteq> number)"
    if "map_of (mx_endpoints mx') b = Some f" for b f
  proof -
    have "en_latest f = [] \<or> map_of (mx_endpoints mx1) b = Some f \<and> (b \<in> A \<longrightarrow> en_interface f \<noteq> number)"
      using assms(1) that unfolding relaid_def by blast
    then show ?thesis using assms(3,4) by (cases "b = a") auto
  qed
  ultimately show ?thesis using assms(1,5-8) by (simp add: relaid_def)
qed

lemma invalidate_fold:
  assumes "locals_ok s" and "distinct (map fst xs)"
    and "\<forall>(a, ep)\<in>set xs. map_of (mx_endpoints (ms_mixer s)) a = Some ep"
    and "unat (mx_next_generation (ms_mixer s)) + length xs < 2 ^ 64"
  shows "locals_ok (s\<lparr>ms_mixer := fold (invalidate_step number) xs (ms_mixer s)\<rparr>)
    \<and> relaid number (fst ` set xs) (ms_mixer s) (fold (invalidate_step number) xs (ms_mixer s))"
  using assms
proof (induction xs arbitrary: s)
  case Nil
  then show ?case by (simp add: relaid_refl)
next
  case (Cons x xs)
  obtain a ep where x: "x = (a, ep)" by (cases x)
  have e: "map_of (mx_endpoints (ms_mixer s)) a = Some ep" using Cons.prems(3) x by simp
  show ?case
  proof (cases "en_interface ep = number")
    case False
    then have st: "invalidate_step number x (ms_mixer s) = ms_mixer s" by (simp add: x)
    have "locals_ok (s\<lparr>ms_mixer := fold (invalidate_step number) xs (ms_mixer s)\<rparr>)
      \<and> relaid number (fst ` set xs) (ms_mixer s) (fold (invalidate_step number) xs (ms_mixer s))"
      using Cons.IH [OF Cons.prems(1)] Cons.prems(2-4) by simp
    then show ?thesis using relaid_skip [OF _ e False] st x by simp
  next
    case True
    let ?g = "mx_next_generation (ms_mixer s)"
    define ep1 where "ep1 = invalidate_endpoint (?g + 1) ep"
    define m1 where "m1 = update_pending ep1 (put_endpoint a ep1 ((ms_mixer s)\<lparr>mx_next_generation := ?g + 1\<rparr>))"
    have st: "invalidate_step number x (ms_mixer s) = m1" using True by (simp add: x m1_def ep1_def Let_def)
    have i1: "en_info ep1 = en_info ep" "en_latest ep1 = []" "en_synthetic ep1 = []"
      by (simp_all add: ep1_def invalidate_endpoint_def)
    have m1: "mx_endpoints m1 = smap_put a ep1 (mx_endpoints (ms_mixer s))"
      "mx_descriptors m1 = mx_descriptors (ms_mixer s)" "mx_reports m1 = mx_reports (ms_mixer s)"
      "mx_selected m1 = mx_selected (ms_mixer s)" "mx_events m1 = mx_events (ms_mixer s)"
      "mx_next_generation m1 = ?g + 1"
      "mx_threads m1 = (mx_threads (ms_mixer s))(en_info ep := set_pending False (mx_threads (ms_mixer s) (en_info ep)))"
      by (simp_all add: m1_def i1)
    have g1: "unat ?g + 1 < 2 ^ 64" using Cons.prems(4) by simp
    note fresh = next_generation_fresh [OF g1]
    note loc = locals_okD [OF Cons.prems(1) e]
    have "locals_ok (s\<lparr>ms_mixer := m1, ms_reader := ms_reader s, ms_writer := ms_writer s\<rparr>)"
      by (rule locals_ok_update [OF Cons.prems(1), where info = "en_info ep" and a = a])
        (use local_okD(5) [OF loc] fresh(1) invalidate_local [OF loc g1] in \<open>auto simp: m1 i1 ep1_def [symmetric]\<close>)
    then have l1: "locals_ok (s\<lparr>ms_mixer := m1\<rparr>)" by simp
    have keep: "\<forall>(b, f)\<in>set xs. map_of (mx_endpoints m1) b = Some f"
      using Cons.prems(2,3) x by (force simp: m1)
    have len: "unat (mx_next_generation m1) + length xs < 2 ^ 64" using Cons.prems(4) fresh(2) by (simp add: m1)
    have IH: "locals_ok (s\<lparr>ms_mixer := fold (invalidate_step number) xs m1\<rparr>)
      \<and> relaid number (fst ` set xs) m1 (fold (invalidate_step number) xs m1)"
      using Cons.IH [of "s\<lparr>ms_mixer := m1\<rparr>"] l1 keep len Cons.prems(2) by simp
    then show ?thesis using relaid_replace [OF _ e i1(2) m1(1-5)] st x by simp
  qed
qed

text \<open>The registry after a layout change: every endpoint of the interface starts over.\<close>

lemma relearn_ok:
  assumes ok: "system_ok s" and low: "counters_low (ms_mixer s)"
    and mx: "mx = (ms_mixer s)\<lparr>mx_descriptors := ds, mx_reports := rs, mx_boot := bs\<rparr>"
    and ds: "\<And>n. profiles_ok (smap_at [] ds n)" "\<And>n. n \<noteq> number \<Longrightarrow> smap_at [] ds n = smap_at [] (mx_descriptors (ms_mixer s)) n"
    and rs: "\<And>n. profiles_ok (smap_at [] rs n)"
  shows "system_ok (s\<lparr>ms_mixer := invalidate_interface number mx\<rparr>)"
proof -
  let ?s = "s\<lparr>ms_mixer := mx\<rparr>"
  have lo: "locals_ok s" and l: "learnt (ms_mixer s)" and reg: "registry_ok (ms_mixer s)"
    using ok by (simp_all add: system_ok_def)
  have sm: "smap_ok (mx_endpoints mx)" using reg mx by (simp add: registry_ok_def)
  have lo': "locals_ok ?s" using lo by (simp add: locals_ok_def mx)
  have "\<forall>(a, ep)\<in>set (mx_endpoints mx). map_of (mx_endpoints mx) a = Some ep"
    using smap_mem_iff [OF sm] by auto
  moreover have "unat (mx_next_generation mx) + length (mx_endpoints mx) < 2 ^ 64"
    using low by (simp add: counters_low_def mx)
  ultimately have i: "locals_ok (s\<lparr>ms_mixer := invalidate_interface number mx\<rparr>)"
    and r: "relaid number (fst ` set (mx_endpoints mx)) mx (invalidate_interface number mx)"
    using invalidate_fold [OF lo', of "mx_endpoints mx" number] smap_ok_distinct [OF sm]
    by (simp_all add: invalidate_interface_def)
  have "en_profile ep \<in> set (smap_at [] ds (en_interface ep))"
    if "map_of (mx_endpoints (invalidate_interface number mx)) a = Some ep" "en_latest ep \<noteq> []" for a ep
  proof -
    have old: "map_of (mx_endpoints mx) a = Some ep" "a \<in> fst ` set (mx_endpoints mx) \<longrightarrow> en_interface ep \<noteq> number"
      using r that unfolding relaid_def by blast+
    then have "en_interface ep \<noteq> number" by (metis fst_conv image_eqI map_of_SomeD)
    moreover have "en_profile ep \<in> set (smap_at [] (mx_descriptors (ms_mixer s)) (en_interface ep))"
      using l old(1) that(2) unfolding learnt_def mx by simp
    ultimately show ?thesis using ds(2) by simp
  qed
  moreover have "mx_descriptors (invalidate_interface number mx) = ds" "mx_reports (invalidate_interface number mx) = rs"
    using r by (simp_all add: relaid_def mx)
  ultimately have "learnt (invalidate_interface number mx)" using ds(1) rs unfolding learnt_def by simp
  moreover have "registry_ok (invalidate_interface number mx)"
  proof -
    have e: "mx_endpoints mx = mx_endpoints (ms_mixer s)" by (simp add: mx)
    have "dom (map_of (mx_endpoints (invalidate_interface number mx))) = dom (map_of (mx_endpoints mx))"
      using r by (simp add: relaid_def)
    then have "map_of (mx_endpoints (invalidate_interface number mx)) n \<noteq> None \<longleftrightarrow> map_of (mx_endpoints (ms_mixer s)) n \<noteq> None" for n
      unfolding e by (metis domIff)
    then show ?thesis using r reg by (simp add: registry_ok_def relaid_def mx)
  qed
  ultimately show ?thesis using i by (simp add: system_ok_def)
qed

text \<open>The profiles a layout change installs.\<close>

lemma parsed_profiles_ok: "profiles_ok (parse_mouse_descriptor bs)"
  unfolding profiles_ok_def
proof
  show "\<forall>m\<in>set (parse_mouse_descriptor bs). profile_ok m" using parsed_profile_ok by blast
  show "distinct (map mp_id (parse_mouse_descriptor bs))"
  proof (cases "parse_items parser_init bs")
    case None
    then show ?thesis by (simp add: parse_mouse_descriptor_def)
  next
    case (Some st)
    have ok: "parser_ok st" by (rule parse_items_ok [OF Some parser_ok_init])
    then have sm: "smap_ok (ps_profiles st)" by (simp add: parser_ok_def)
    have "mp_id m = i" if "(i, m) \<in> set (ps_profiles st)" for i m
      using parser_okD(1) [OF ok, of i m] that smap_mem_iff [OF sm] by blast
    then have ids: "map mp_id (map snd (filter P (ps_profiles st))) = map fst (filter P (ps_profiles st))" for P
      by (auto simp: comp_def)
    have "distinct (map fst (filter P (ps_profiles st)))" for P
      using smap_ok_distinct [OF sm] by (simp add: distinct_map_filter)
    then show ?thesis using Some by (simp add: parse_mouse_descriptor_def ids del: map_map)
  qed
qed

lemma boot_protocol_fields:
  "boot_protocol_profile = no_profile\<lparr>mp_size := 3, mp_x := boot_axis_field 8, mp_y := boot_axis_field 16,
     mp_relative := [boot_axis_field 8, boot_axis_field 16],
     mp_buttons := [(1, boot_button_field 0), (2, boot_button_field 1), (3, boot_button_field 2)]\<rparr>"
  by (simp add: boot_protocol_profile_def upt_rec eval_nat_numeral)

lemma boot_protocol_role:
  "role boot_protocol_profile k = Some f \<longleftrightarrow>
     (k, f) \<in> {(Role_X, boot_axis_field 8), (Role_Y, boot_axis_field 16), (Role_Button 1, boot_button_field 0),
       (Role_Button 2, boot_button_field 1), (Role_Button 3, boot_button_field 2)}"
  by (cases k) (auto simp: boot_protocol_fields no_profile_def no_field_def present_def boot_axis_field_def)

lemma boot_protocol_ok: "profile_ok boot_protocol_profile"
proof -
  have f: "within 0 24 (boot_axis_field 8)" "within 0 24 (boot_axis_field 16)" "within 0 24 (boot_button_field 0)"
    "within 0 24 (boot_button_field 1)" "within 0 24 (boot_button_field 2)"
    by (simp_all add: within_def field_ok_def boot_axis_field_def boot_button_field_def)
  have "layout_ok 0 24 boot_protocol_profile"
    unfolding layout_ok_def
  proof (intro conjI)
    show "\<forall>k f. role boot_protocol_profile k = Some f \<longrightarrow> within 0 24 f"
      using f by (auto simp: boot_protocol_role)
    show "\<forall>k k' f f'. k \<noteq> k' \<longrightarrow> role boot_protocol_profile k = Some f \<longrightarrow>
        role boot_protocol_profile k' = Some f' \<longrightarrow> disjoint_fields f f'"
      by (auto simp: boot_protocol_role disjoint_fields_def boot_axis_field_def boot_button_field_def)
    show "\<forall>f\<in>set (mp_relative boot_protocol_profile). within 0 24 f" using f by (simp add: boot_protocol_fields)
    show "\<forall>k f. is_axis k \<longrightarrow> role boot_protocol_profile k = Some f \<longrightarrow> f \<in> set (mp_relative boot_protocol_profile)"
      by (auto simp: boot_protocol_role is_axis_def) (simp_all add: boot_protocol_fields)
    show "smap_ok (mp_buttons boot_protocol_profile)" by (simp add: boot_protocol_fields smap_ok_def)
    show "\<forall>(b, f)\<in>set (mp_buttons boot_protocol_profile). 1 \<le> b \<and> b \<le> 8 \<and> hf_bits f = 1"
      by (simp add: boot_protocol_fields boot_button_field_def)
  qed
  then show ?thesis
    by (simp add: profile_ok_def id_base_def) (simp add: boot_protocol_fields no_profile_def boot_axis_field_def)
qed

lemma learn_ok:
  assumes ok: "system_ok s" and low: "counters_low (ms_mixer s)"
  shows "system_ok (s\<lparr>ms_mixer := learn_mouse_descriptor number data (ms_mixer s)\<rparr>)"
proof -
  have l: "learnt (ms_mixer s)" using ok by (simp add: system_ok_def)
  let ?rs = "smap_put number (parse_mouse_descriptor data) (mx_reports (ms_mixer s))"
  show ?thesis
  proof (cases "smap_at False (mx_boot (ms_mixer s)) number")
    case True
    have "learnt ((ms_mixer s)\<lparr>mx_reports := ?rs\<rparr>)"
      using l parsed_profiles_ok [of data] by (simp add: learnt_def)
    then show ?thesis
      using ok True
      by (simp add: learn_mouse_descriptor_def Let_def system_ok_def locals_ok_def registry_ok_def)
  next
    case False
    let ?ds = "smap_put number (parse_mouse_descriptor data) (mx_descriptors (ms_mixer s))"
    have eq: "learn_mouse_descriptor number data (ms_mixer s) = invalidate_interface number
        ((ms_mixer s)\<lparr>mx_descriptors := ?ds, mx_reports := ?rs, mx_boot := mx_boot (ms_mixer s)\<rparr>)"
      using False by (cases "ms_mixer s") (simp add: learn_mouse_descriptor_def Let_def)
    show ?thesis
      unfolding eq by (rule relearn_ok [OF ok low refl])
        (use l parsed_profiles_ok [of data] in \<open>simp_all add: learnt_def\<close>)
  qed
qed

lemma protocol_ok:
  assumes ok: "system_ok s" and low: "counters_low (ms_mixer s)"
  shows "system_ok (s\<lparr>ms_mixer := set_mouse_protocol number boot (ms_mixer s)\<rparr>)"
proof -
  have l: "learnt (ms_mixer s)" using ok by (simp add: system_ok_def)
  let ?ds = "smap_put number (if boot then [boot_protocol_profile] else smap_at [] (mx_reports (ms_mixer s)) number)
      (mx_descriptors (ms_mixer s))"
  have eq: "set_mouse_protocol number boot (ms_mixer s) = invalidate_interface number
      ((ms_mixer s)\<lparr>mx_descriptors := ?ds, mx_reports := mx_reports (ms_mixer s),
        mx_boot := smap_put number boot (mx_boot (ms_mixer s))\<rparr>)"
    by (cases "ms_mixer s") (simp add: set_mouse_protocol_def Let_def)
  have boot: "profiles_ok [boot_protocol_profile]" by (simp add: profiles_ok_def boot_protocol_ok)
  show ?thesis
    unfolding eq by (rule relearn_ok [OF ok low refl]) (use l boot in \<open>simp_all add: learnt_def\<close>)
qed

subsection \<open>Registration\<close>

lemma attach_ok:
  assumes ok: "system_ok s" and low: "counters_low (ms_mixer s)"
    and idle: "ms_reader s a = None" "ms_writer s a = None" and a: "0 \<le> a"
    and new: "map_of (mx_endpoints (ms_mixer s)) a = None"
      "\<forall>(b, ep)\<in>set (mx_endpoints (ms_mixer s)). en_info ep \<noteq> info"
    and mx: "mx = register_mouse_endpoint info number ((ms_mixer s)
          \<lparr>mx_threads := (mx_threads (ms_mixer s))(info := fresh_thread n a poll)\<rparr>)"
  shows "system_ok (s\<lparr>ms_mixer := mx\<rparr>)"
proof -
  let ?g = "mx_next_generation (ms_mixer s)"
  have lo: "locals_ok s" and l: "learnt (ms_mixer s)" and reg: "registry_ok (ms_mixer s)"
    using ok by (simp_all add: system_ok_def)
  have g: "unat ?g + 1 < 2 ^ 64" using low by (simp add: counters_low_def)
  note fresh = next_generation_fresh [OF g]
  define ep where "ep = no_endpoint\<lparr>en_info := info, en_interface := number, en_generation := ?g + 1,
     en_instance := mx_next_instance (ms_mixer s) + 1\<rparr>"
  obtain th where th: "th_address th = a" "th_queue th = []" "th_pending th = Some False"
    and m: "mx_endpoints mx = smap_put a ep (mx_endpoints (ms_mixer s))"
      "mx_descriptors mx = mx_descriptors (ms_mixer s)" "mx_reports mx = mx_reports (ms_mixer s)"
      "mx_selected mx = mx_selected (ms_mixer s)" "mx_events mx = mx_events (ms_mixer s)"
      "mx_next_generation mx = ?g + 1" "mx_threads mx = (mx_threads (ms_mixer s))(info := th)"
    by (rule that [of "\<lparr>th_ep_num = n, th_address = a, th_queue = [], th_poll_us = (if poll = 0 then 1000 else poll),
          th_mouse = True, th_pending = Some False\<rparr>"])
      (simp_all add: mx register_mouse_endpoint_def Let_def fresh_thread_def put_endpoint_def ep_def)
  have e: "en_info ep = info" "en_latest ep = []" by (simp_all add: ep_def no_endpoint_def)
  have "local_ok (?g + 1) th None None a ep"
    using th a fresh(3)
    by (simp add: local_ok_def items_ok_def layout_known_def counts_ok_def held_item_def ep_def no_endpoint_def)
  moreover have "local_ok (?g + 1) (mx_threads mx (en_info f)) (ms_reader s b) (ms_writer s b) b f"
    if "b \<noteq> a" "map_of (mx_endpoints (ms_mixer s)) b = Some f" for b f
  proof -
    have "en_info f \<noteq> info" using new(2) map_of_SomeD [OF that(2)] by auto
    then show ?thesis using local_ok_mono [OF locals_okD [OF lo that(2)]] fresh(1) by (simp add: m)
  qed
  ultimately have "locals_ok (s\<lparr>ms_mixer := mx\<rparr>)"
    using idle by (auto simp: locals_ok_def m e)
  moreover have "learnt mx" using learnt_put [OF l m(1-3)] e by simp
  moreover have "registry_ok mx" using reg by (auto simp: registry_ok_def m)
  ultimately show ?thesis by (simp add: system_ok_def)
qed

lemma detach_ok:
  assumes ok: "system_ok s" and low: "counters_low (ms_mixer s)"
    and e: "map_of (mx_endpoints (ms_mixer s)) (th_address (mx_threads (ms_mixer s) info)) = Some ep" "en_info ep = info"
    and mx: "mx = unregister_mouse_endpoint info (ms_mixer s)"
  shows "system_ok (s\<lparr>ms_mixer := mx\<rparr>)"
proof -
  let ?g = "mx_next_generation (ms_mixer s)"
  let ?a = "th_address (mx_threads (ms_mixer s) info)"
  have lo: "locals_ok s" and l: "learnt (ms_mixer s)" and reg: "registry_ok (ms_mixer s)"
    using ok by (simp_all add: system_ok_def)
  have g: "unat ?g + 1 < 2 ^ 64" using low by (simp add: counters_low_def)
  note fresh = next_generation_fresh [OF g]
  obtain th where m: "mx_endpoints mx = smap_erase ?a (mx_endpoints (ms_mixer s))"
      "mx_descriptors mx = mx_descriptors (ms_mixer s)" "mx_reports mx = mx_reports (ms_mixer s)"
      "mx_selected mx = (if mx_selected (ms_mixer s) = ?a then -1 else mx_selected (ms_mixer s))"
      "mx_events mx = mx_events (ms_mixer s)"
      "mx_next_generation mx = ?g + 1" "mx_threads mx = (mx_threads (ms_mixer s))(info := th)"
    using e by (simp add: mx unregister_mouse_endpoint_def Let_def)
  have "local_ok (?g + 1) (mx_threads mx (en_info f)) (ms_reader s b) (ms_writer s b) b f"
    if "b \<noteq> ?a" "map_of (mx_endpoints (ms_mixer s)) b = Some f" for b f
  proof -
    note loc = locals_okD [OF lo that(2)]
    have "en_info f \<noteq> info" using local_okD(5) [OF loc] that(1) by auto
    then show ?thesis using local_ok_mono [OF loc] fresh(1) by (simp add: m)
  qed
  then have "locals_ok (s\<lparr>ms_mixer := mx\<rparr>)" by (auto simp: locals_ok_def m split: if_splits)
  moreover have "learnt mx" using l by (auto simp: learnt_def m split: if_splits)
  moreover have "registry_ok mx" using reg by (auto simp: registry_ok_def m)
  ultimately show ?thesis by (simp add: system_ok_def)
qed

subsection \<open>Every reachable state\<close>

lemma system_init_ok: "system_ok (system_init ths)"
  by (simp add: system_init_def system_ok_def locals_ok_def learnt_def registry_ok_def profiles_ok_def smap_at_def)

lemma prepare_ok:
  assumes ok: "system_ok s" and unused: "\<forall>(b, ep)\<in>set (mx_endpoints (ms_mixer s)). en_info ep \<noteq> info"
  shows "system_ok (s\<lparr>ms_mixer := (ms_mixer s)\<lparr>mx_threads := (mx_threads (ms_mixer s))(info := th)\<rparr>\<rparr>)"
proof -
  have "en_info ep \<noteq> info" if "map_of (mx_endpoints (ms_mixer s)) b = Some ep" for b ep
    using unused map_of_SomeD [OF that] by auto
  then show ?thesis
    using ok by (simp add: system_ok_def locals_ok_def learnt_def registry_ok_def)
qed

lemma mouse_step_ok:
  assumes "mouse_step s s'" and "system_ok s"
  shows "system_ok s'"
  using assms
proof (cases rule: mouse_step.cases)
  case (attach a info number n poll)
  then show ?thesis using attach_ok [OF assms(2)] by simp
next
  case (take a io now ok io' mx)
  then show ?thesis using take_ok [OF assms(2)] by simp
next
  case events
  then show ?thesis
    using assms(2) by (simp add: take_writer_events_def system_ok_def locals_ok_def learnt_def registry_ok_def)
next
  case overflow
  then show ?thesis
    using assms(2) by (simp add: take_writer_overflow_def system_ok_def locals_ok_def learnt_def registry_ok_def)
qed (use assms(2) in \<open>auto intro: detach_ok learn_ok protocol_ok seed_ok read_ok push_ok drop_ok written_step_ok
  enqueue_ok clear_ok prepare_ok\<close>)

lemma reach_ok: "mouse_reach s \<Longrightarrow> system_ok s"
  by (induction rule: mouse_reach.induct) (auto intro: system_init_ok mouse_step_ok)

end
