(* ===== verification/Mixer_Delivery.thy ===== *)
theory Mixer_Delivery
  imports Mixer_System
begin

text \<open>
  What becomes of a queued item: each successful write takes exactly the written motion off it, a
  failed or outdated one nothing, and an undisturbed writer delivers the whole of it in as many
  reports as its command splits into.
\<close>

subsection \<open>Accounting\<close>

text \<open>The motion still owed to the host on one axis.\<close>

definition owed :: "(mouse_command \<Rightarrow> int) \<Rightarrow> endpoint \<Rightarrow> int" where
  "owed axis ep = (\<Sum>i\<leftarrow>en_synthetic ep. axis (si_remaining i))"

definition is_axis_of :: "(mouse_command \<Rightarrow> int) \<Rightarrow> (transfer_io \<Rightarrow> int) \<Rightarrow> bool" where
  "is_axis_of axis written \<longleftrightarrow> (axis, written) \<in> {(cmd_x, io_synthetic_x), (cmd_y, io_synthetic_y),
     (cmd_wheel, io_synthetic_wheel), (cmd_pan, io_synthetic_pan)}"

lemma owed_dropWhile:
  assumes "is_axis_of axis written"
  shows "(\<Sum>i\<leftarrow>dropWhile finished_item is. axis (si_remaining i)) = (\<Sum>i\<leftarrow>is. axis (si_remaining i))"
  using assms by (induction "is") (auto simp: is_axis_of_def finished_item_def no_motion_def)

lemma settled_owed:
  assumes "is_axis_of axis written" and "en_synthetic ep \<noteq> []"
  shows "owed axis (settled io success ep) = owed axis ep - (if success then written io else 0)"
proof (cases success)
  case True
  have axis: "axis (sub_motion c io) = axis c - written io" for c
    using assms(1) by (auto simp: is_axis_of_def sub_motion_def)
  show ?thesis
    using assms(2) True owed_dropWhile [OF assms(1)]
    by (cases "en_synthetic ep")
      (simp_all add: owed_def settle_front_def commit_front_def remove_finished_front_def Let_def axis
        del: dropWhile.simps)
qed (simp add: owed_def settle_front_def)

lemma settled_masks:
  "en_persistent (settled io success ep) = (if success \<and> io_apply_buttons io then io_persistent io else en_persistent ep)"
  "en_scheduled (settled io success ep) = (if success \<and> io_apply_buttons io then io_scheduled io else en_scheduled ep)"
  by (simp_all add: settle_front_def commit_front_def remove_finished_front_def Let_def)

subsection \<open>One write of an undisturbed writer\<close>

definition write_cycle :: "int \<Rightarrow> u64 \<Rightarrow> mixer \<Rightarrow> (transfer_io \<times> mixer) option" where
  "write_cycle a now mx =
    (case take_mouse_report a no_io now mx of (ok, io, mx') \<Rightarrow>
       if ok then Some (io, notify_mouse_report_written a io True now mx') else None)"

fun write_cycles :: "int \<Rightarrow> u64 list \<Rightarrow> mixer \<Rightarrow> (transfer_io list \<times> mixer) option" where
  "write_cycles a [] mx = Some ([], mx)"
| "write_cycles a (now # ts) mx =
    (case write_cycle a now mx of None \<Rightarrow> None
     | Some (io, mx') \<Rightarrow> map_option (\<lambda>(ios, mx''). (io # ios, mx'')) (write_cycles a ts mx'))"

text \<open>The item is at the front of an idle endpoint and ready at the given time.\<close>

definition waiting :: "mixer \<Rightarrow> int \<Rightarrow> endpoint \<Rightarrow> synthetic_item \<Rightarrow> bool" where
  "waiting mx a ep i \<longleftrightarrow> map_of (mx_endpoints mx) a = Some ep \<and> \<not> en_inflight ep
     \<and> th_queue (mx_threads mx (en_info ep)) = [] \<and> ready_front ep = Some i \<and> en_latest ep \<noteq> []
     \<and> layout_known ep \<and> si_id i \<noteq> 0"

definition unexpired :: "synthetic_item \<Rightarrow> u64 \<Rightarrow> bool" where
  "unexpired i now \<longleftrightarrow> si_deadline i = 0 \<or> now \<le> si_deadline i"

definition item_command :: "synthetic_item \<Rightarrow> mouse_command" where
  "item_command i = (si_remaining i)\<lparr>cmd_buttons := si_persistent i OR si_scheduled i\<rparr>"

lemma expire_front_waiting:
  assumes "en_synthetic ep = i # is" and "unexpired i now" and "\<not> no_motion (si_remaining i)"
  shows "expire_front ep now = ep"
proof -
  have "expire_item now i = i" using assms(2) by (auto simp: expire_item_def unexpired_def)
  then show ?thesis using assms(1,3) by (cases ep) (simp add: expire_front_def)
qed

lemma ready_front_Cons: "ready_front ep = Some i \<Longrightarrow> \<exists>is. en_synthetic ep = i # is"
  by (auto simp: ready_front_def split: list.splits if_splits)

text \<open>The item after one of its reports was written.\<close>

definition next_item :: "mouse_command \<Rightarrow> synthetic_item \<Rightarrow> synthetic_item" where
  "next_item p i = i\<lparr>si_committed := True, si_remaining := (si_remaining i)
     \<lparr>cmd_x := cmd_x (si_remaining i) - cmd_x p, cmd_y := cmd_y (si_remaining i) - cmd_y p,
      cmd_wheel := cmd_wheel (si_remaining i) - cmd_wheel p, cmd_pan := cmd_pan (si_remaining i) - cmd_pan p\<rparr>\<rparr>"

definition says :: "transfer_io \<Rightarrow> mouse_command \<Rightarrow> bool" where
  "says io p \<longleftrightarrow> io_synthetic_x io = cmd_x p \<and> io_synthetic_y io = cmd_y p
     \<and> io_synthetic_wheel io = cmd_wheel p \<and> io_synthetic_pan io = cmd_pan p"

lemma take_waiting:
  assumes wait: "waiting mx a ep i" and un: "unexpired i now" and mov: "\<not> no_motion (si_remaining i)"
    and split: "split_mouse_command (en_profile ep) (item_command i) = p # ps"
  obtains io ep1 where "take_mouse_report a io0 now mx = (True, io, put_endpoint a ep1 (refreshed a ep now mx))"
    "expire_front ep now = ep" "ep1 = ep\<lparr>en_inflight := True, en_inflight_id := si_id i\<rparr>"
    "says io p" "faithful (en_profile ep) io" "\<not> io_physical io" "\<not> io_competing io" "io_managed io"
    "io_item io = si_id i" "io_generation io = en_generation ep" "io_instance io = en_instance ep"
    "io_apply_buttons io" "io_persistent io = si_persistent i" "io_scheduled io = si_scheduled i"
    "carries_front io True ep1" "io_physical_x io = 0"
    "io_kind io = si_kind i" "io_session io = si_session i" "io_command io = si_command i"
proof -
  have e: "map_of (mx_endpoints mx) a = Some ep" "\<not> en_inflight ep" "ready_front ep = Some i" "en_latest ep \<noteq> []"
    "th_queue (mx_threads mx (en_info ep)) = []" "layout_known ep" "si_id i \<noteq> 0"
    using wait by (simp_all add: waiting_def)
  obtain "is" where syn: "en_synthetic ep = i # is" using ready_front_Cons [OF e(3)] by blast
  note exp = expire_front_waiting [OF syn un mov]
  obtain io ep1 where alone: "standalone_report ep (th_ep_num (mx_threads mx (en_info ep))) i False = Some (io, ep1)"
  proof -
    have "standalone_report ep (th_ep_num (mx_threads mx (en_info ep))) i False \<noteq> None"
      using split e(4) by (simp add: standalone_report_def Let_def item_command_def)
    then show ?thesis using that by fast
  qed
  then obtain io1 where d: "describe_synthetic ep i io1 p True True False = (io, ep1)"
    using split by (auto simp: standalone_report_def Let_def item_command_def split: if_splits list.splits)
  note dr = described_report [OF d] and de = described_endpoint [OF d]
  have ok: "profile_ok (en_profile ep)" and size: "length (en_template ep) \<le> MAX_TRANSFER_SIZE"
    "length (en_latest ep) \<le> MAX_TRANSFER_SIZE" using e(4,6) by (simp_all add: layout_known_def)
  note sf = standalone_faithful [OF ok size alone]
  have "take_mouse_report a io0 now mx = (True, io, put_endpoint a ep1 (refreshed a ep now mx))"
    using e exp alone by (simp add: take_mouse_report_def Let_def mix_decision_def refreshed_def)
  moreover have "carries_front io True ep1" using e(7) dr by (simp add: carries_front_def de syn)
  moreover have "says io p" using dr by (simp add: says_def)
  ultimately show ?thesis using that exp de sf(1,3,9,10) dr by blast
qed

lemma write_cycle_waiting:
  assumes wait: "waiting mx a ep i" and un: "unexpired i now" and mov: "\<not> no_motion (si_remaining i)"
    and split: "split_mouse_command (en_profile ep) (item_command i) = p # ps"
  obtains io mx' ep' where "write_cycle a now mx = Some (io, mx')" "says io p" "faithful (en_profile ep) io"
    "\<not> io_physical io" "map_of (mx_endpoints mx') a = Some ep'"
    "en_synthetic ep' = dropWhile finished_item (next_item p i # tl (en_synthetic ep))"
    "\<not> en_inflight ep'" "th_queue (mx_threads mx' (en_info ep')) = []" "en_latest ep' = en_latest ep"
    "en_profile ep' = en_profile ep" "layout_known ep'" "en_activity ep' = en_activity ep"
    "en_persistent ep' = si_persistent i" "en_scheduled ep' = si_scheduled i"
    "en_info ep' = en_info ep" "en_generation ep' = en_generation ep" "en_next_item ep' = en_next_item ep"
    "mx_selected mx' = mx_selected mx"
    "transaction (si_kind i) \<Longrightarrow> mx_events mx = [] \<Longrightarrow>
       mx_events mx' = [written_event io now True (finished_item (next_item p i))]"
    "io_kind io = si_kind i" "io_session io = si_session i" "io_command io = si_command i" "io_generation io = en_generation ep"
proof -
  have e: "ready_front ep = Some i" "en_latest ep \<noteq> []" "th_queue (mx_threads mx (en_info ep)) = []" "layout_known ep"
    using wait by (simp_all add: waiting_def)
  obtain "is" where syn: "en_synthetic ep = i # is" using ready_front_Cons [OF e(1)] by blast
  from take_waiting [OF assms, of no_io] obtain io ep1 where
    take: "take_mouse_report a no_io now mx = (True, io, put_endpoint a ep1 (refreshed a ep now mx))"
      "expire_front ep now = ep" and de: "ep1 = ep\<lparr>en_inflight := True, en_inflight_id := si_id i\<rparr>"
    and io: "says io p" "faithful (en_profile ep) io" "\<not> io_physical io" "\<not> io_competing io" "io_managed io"
      "io_generation io = en_generation ep" "io_instance io = en_instance ep" "io_apply_buttons io"
      "io_persistent io = si_persistent i" "io_scheduled io = si_scheduled i"
    and carry: "carries_front io True ep1"
    and own: "io_kind io = si_kind i" "io_session io = si_session i" "io_command io = si_command i" by blast
  define mx1 where "mx1 = put_endpoint a ep1 (refreshed a ep now mx)"
  have e1: "map_of (mx_endpoints mx1) a = Some ep1" by (simp add: mx1_def)
  define ep2 where "ep2 = settled io True (count_write io True now ep1)"
  define mx2 where "mx2 = notify_mouse_report_written a io True now mx1"
  have "mx2 = notify_mouse_report_written a io True now mx1" by (simp add: mx2_def)
  then have n: "mx_endpoints mx2 = smap_put a ep2 (mx_endpoints mx1) \<and> mx_threads mx2 = (mx_threads mx1)(en_info ep1 :=
      set_pending (en_synthetic ep2 \<noteq> []) (mx_threads mx1 (en_info ep1)))"
  proof (cases rule: notify_cases)
    case skip
    then show ?thesis using e1 io by (simp add: de)
  next
    case (noted f f')
    have f: "f = ep1" using noted(1) e1 by simp
    have "io_generation io = en_generation f" using io by (simp add: f de)
    then show ?thesis using noted carry by (simp add: ep2_def f)
  qed
  have count: "count_write io True now ep1 = ep1"
    using io(3,4) by (simp add: count_write_def)
  have settle: "settle_front io True ep1 = (finished_item (next_item p i), ep2)"
    using io(1,8) unfolding ep2_def count
    by (simp add: settle_front_def commit_front_def remove_finished_front_def Let_def de syn next_item_def sub_motion_def
        says_def)
  have mx2: "mx2 = (if emits_event io True True
      then push_event (written_event io now True (finished_item (next_item p i))) (put_endpoint a ep2 (update_pending ep2 mx1))
      else put_endpoint a ep2 (update_pending ep2 mx1))"
  proof -
    have "io_generation io = en_generation ep1" "io_instance io = en_instance ep1" using io by (simp_all add: de)
    then show ?thesis
      using carry io(5) settle by (simp add: mx2_def notify_mouse_report_written_def e1 Let_def count)
  qed
  have sel: "mx_selected mx2 = mx_selected mx" by (simp add: mx2 mx1_def)
  have events: "mx_events mx2 = [written_event io now True (finished_item (next_item p i))]"
    if "transaction (si_kind i)" "mx_events mx = []"
    using that own(1) by (simp add: mx2 emits_event_def push_event_def mx1_def MAX_WRITER_EVENTS_def)
  have "en_synthetic ep2 = dropWhile finished_item (next_item p i # tl (en_synthetic ep))"
    unfolding ep2_def count using io(1,8)
    by (simp add: settle_front_def commit_front_def remove_finished_front_def Let_def de syn next_item_def sub_motion_def
        says_def)
  moreover have "en_latest ep2 = en_latest ep" "en_profile ep2 = en_profile ep" "\<not> en_inflight ep2" "en_info ep2 = en_info ep"
    "en_activity ep2 = en_activity ep"
    unfolding ep2_def count by (simp_all add: de settle_front_def commit_front_def remove_finished_front_def Let_def)
  moreover have "layout_known ep2"
    using e(2,4) unfolding ep2_def count by (simp add: layout_known_def de)
  moreover have "en_persistent ep2 = si_persistent i" "en_scheduled ep2 = si_scheduled i"
    unfolding ep2_def count settled_masks using io by simp_all
  moreover have "th_queue (mx_threads mx2 (en_info ep2)) = []"
    using n e(3) take(2) calculation(5) by (simp add: de mx1_def)
  moreover have "map_of (mx_endpoints mx2) a = Some ep2" using n by simp
  moreover have "write_cycle a now mx = Some (io, mx2)" using take(1) by (simp add: write_cycle_def mx2_def mx1_def)
  moreover have "en_generation ep2 = en_generation ep" "en_next_item ep2 = en_next_item ep"
    unfolding ep2_def count by (simp_all add: de)
  ultimately show ?thesis using that io(1-3,6) own sel events by blast
qed

subsection \<open>An undisturbed writer delivers an item\<close>

text \<open>What is left of a split command splits into the rest of its parts.\<close>

lemma split_loop_more: "split_loop m c k = Some parts \<Longrightarrow> split_loop m c (Suc k) = Some parts"
proof (induction m c k arbitrary: parts rule: split_loop.induct)
  case (2 m c k)
  then show ?case
    by (cases "take_report m c") (auto split: if_splits prod.splits simp del: split_loop.simps(2)
      simp: split_loop.simps(2) [of m _ k] split_loop.simps(2) [of m _ "Suc k"])
qed simp

definition less_command :: "mouse_command \<Rightarrow> mouse_command \<Rightarrow> mouse_command" where
  "less_command c p = c\<lparr>cmd_x := cmd_x c - cmd_x p, cmd_y := cmd_y c - cmd_y p,
     cmd_wheel := cmd_wheel c - cmd_wheel p, cmd_pan := cmd_pan c - cmd_pan p\<rparr>"

lemma take_report_less: "take_report m c = Some (p, c') \<Longrightarrow> c' = less_command c p"
  by (auto simp: take_report_def less_command_def split: option.splits dest!: take_axis_sum)

lemma split_loop_step:
  assumes "split_loop m c k = Some (p # ps)"
  shows "ps = [] \<Longrightarrow> no_motion (less_command c p)"
    and "ps \<noteq> [] \<Longrightarrow> \<not> no_motion (less_command c p) \<and> split_loop m (less_command c p) k = Some ps"
proof -
  obtain j c' where k: "k = Suc j" and t: "take_report m c = Some (p, c')"
    using assms by (cases k) (auto split: option.splits if_splits)
  have c': "c' = less_command c p" by (rule take_report_less [OF t])
  have c: "if no_motion c' then ps = [] else split_loop m c' j = Some ps"
    using assms t by (auto simp: k split: if_splits)
  then show "ps = [] \<Longrightarrow> no_motion (less_command c p)"
    using split_loop_sums(6) [of m c' j ps] c' by (auto split: if_splits)
  show "\<not> no_motion (less_command c p) \<and> split_loop m (less_command c p) k = Some ps" if "ps \<noteq> []"
    using c that c' split_loop_more [of m c' j ps] by (auto simp: k split: if_splits simp del: split_loop.simps)
qed

lemma split_step:
  assumes "split_mouse_command m c = p # ps"
  shows "ps = [] \<Longrightarrow> no_motion (less_command c p)"
    and "ps \<noteq> [] \<Longrightarrow> \<not> no_motion (less_command c p) \<and> split_mouse_command m (less_command c p) = ps"
proof -
  have b: "(cmd_buttons c AND NOT (supported_mask m)) = 0" and l: "split_loop m c 32 = Some (p # ps)"
    using assms by (auto simp: split_mouse_command_def split: if_splits option.splits)
  note st = split_loop_step [OF l]
  have "cmd_buttons (less_command c p) = cmd_buttons c" by (simp add: less_command_def)
  then show "ps = [] \<Longrightarrow> no_motion (less_command c p)"
    "ps \<noteq> [] \<Longrightarrow> \<not> no_motion (less_command c p) \<and> split_mouse_command m (less_command c p) = ps"
    using st b by (simp_all add: split_mouse_command_def del: split_loop.simps)
qed

lemma next_item_command: "item_command (next_item p i) = less_command (item_command i) p"
  by (simp add: item_command_def next_item_def less_command_def)

lemma next_item_fields [simp]:
  "si_id (next_item p i) = si_id i" "si_guard (next_item p i) = si_guard i"
  "si_deadline (next_item p i) = si_deadline i" "si_committed (next_item p i)"
  "si_persistent (next_item p i) = si_persistent i" "si_scheduled (next_item p i) = si_scheduled i"
  by (simp_all add: next_item_def)

lemma no_motion_item [simp]: "no_motion (item_command i) = no_motion (si_remaining i)"
  by (simp add: no_motion_def item_command_def)

lemma deliver:
  assumes "waiting mx a ep i" and "\<forall>t\<in>set ts. unexpired i t" and "\<not> no_motion (si_remaining i)"
    and "split_mouse_command (en_profile ep) (item_command i) = parts" and "length ts = length parts" and "parts \<noteq> []"
  shows "\<exists>ios mx' ep'. write_cycles a ts mx = Some (ios, mx') \<and> list_all2 says ios parts
    \<and> (\<forall>io\<in>set ios. faithful (en_profile ep) io \<and> \<not> io_physical io)
    \<and> map_of (mx_endpoints mx') a = Some ep' \<and> \<not> en_inflight ep'
    \<and> en_synthetic ep' = dropWhile finished_item (tl (en_synthetic ep))
    \<and> en_persistent ep' = si_persistent i \<and> en_scheduled ep' = si_scheduled i"
  using assms
proof (induction parts arbitrary: mx ep i ts)
  case (Cons p ps)
  obtain t us where ts: "ts = t # us" "length us = length ps" using Cons.prems(5) by (cases ts) auto
  have un: "unexpired i t" using Cons.prems(2) ts by simp
  from write_cycle_waiting [OF Cons.prems(1) un Cons.prems(3,4)]
  obtain io mx' ep' where w: "write_cycle a t mx = Some (io, mx')" "says io p" "faithful (en_profile ep) io"
    "\<not> io_physical io" "map_of (mx_endpoints mx') a = Some ep'"
    "en_synthetic ep' = dropWhile finished_item (next_item p i # tl (en_synthetic ep))"
    "\<not> en_inflight ep'" "th_queue (mx_threads mx' (en_info ep')) = []" "en_latest ep' = en_latest ep"
    "en_profile ep' = en_profile ep" "layout_known ep'" "en_activity ep' = en_activity ep"
    "en_persistent ep' = si_persistent i" "en_scheduled ep' = si_scheduled i" by blast
  note st = split_step [OF Cons.prems(4)]
  show ?case
  proof (cases "ps = []")
    case True
    then have "no_motion (si_remaining (next_item p i))"
      using st(1) no_motion_item [of "next_item p i"] by (simp add: next_item_command)
    then have "finished_item (next_item p i)" by (simp add: finished_item_def)
    with w True show ?thesis by (simp add: ts(1) ts(2) [unfolded True, simplified])
  next
    case False
    have mov: "\<not> no_motion (si_remaining (next_item p i))"
      using st(2) [OF False] no_motion_item [of "next_item p i"] by (simp add: next_item_command)
    then have syn: "en_synthetic ep' = next_item p i # tl (en_synthetic ep)"
      using w(6) by (simp add: finished_item_def)
    have guard: "si_guard i = UINT64_MAX \<or> si_guard i = en_activity ep" "si_id i \<noteq> 0" "en_latest ep \<noteq> []"
      using Cons.prems(1) by (auto simp: waiting_def ready_front_def split: list.splits if_splits)
    have "waiting mx' a ep' (next_item p i)"
      using w guard by (auto simp: waiting_def ready_front_def syn)
    moreover have "\<forall>t\<in>set us. unexpired (next_item p i) t" using Cons.prems(2) by (auto simp: ts unexpired_def)
    moreover have "split_mouse_command (en_profile ep') (item_command (next_item p i)) = ps"
      using st(2) [OF False] by (simp add: w(10) next_item_command)
    ultimately obtain ios mx'' ep'' where r: "write_cycles a us mx' = Some (ios, mx'')" "list_all2 says ios ps"
      "\<forall>io\<in>set ios. faithful (en_profile ep') io \<and> \<not> io_physical io"
      "map_of (mx_endpoints mx'') a = Some ep''" "\<not> en_inflight ep''"
      "en_synthetic ep'' = dropWhile finished_item (tl (en_synthetic ep'))"
      "en_persistent ep'' = si_persistent i" "en_scheduled ep'' = si_scheduled i"
      using Cons.IH [OF _ _ mov _ ts(2) False, of mx' ep'] by auto
    then show ?thesis using w by (auto simp: ts syn)
  qed
qed simp

text \<open>The delivered reports add up to the item's motion.\<close>

lemma says_sums:
  assumes "list_all2 says ios parts"
  shows "(\<Sum>io\<leftarrow>ios. io_synthetic_x io) = (\<Sum>p\<leftarrow>parts. cmd_x p)"
    "(\<Sum>io\<leftarrow>ios. io_synthetic_y io) = (\<Sum>p\<leftarrow>parts. cmd_y p)"
    "(\<Sum>io\<leftarrow>ios. io_synthetic_wheel io) = (\<Sum>p\<leftarrow>parts. cmd_wheel p)"
    "(\<Sum>io\<leftarrow>ios. io_synthetic_pan io) = (\<Sum>p\<leftarrow>parts. cmd_pan p)"
  using assms by (induction rule: list_all2_induct) (simp_all add: says_def)

lemma split_sums:
  assumes "split_mouse_command m c = parts" and "parts \<noteq> []"
  shows "(\<Sum>p\<leftarrow>parts. cmd_x p) = cmd_x c" "(\<Sum>p\<leftarrow>parts. cmd_y p) = cmd_y c"
    "(\<Sum>p\<leftarrow>parts. cmd_wheel p) = cmd_wheel c" "(\<Sum>p\<leftarrow>parts. cmd_pan p) = cmd_pan c"
  using assms split_loop_sums [of m c 32 parts]
  by (auto simp: split_mouse_command_def split: if_splits option.splits)

end
