(* ===== verification/Move_Delivery.thy ===== *)
theory Move_Delivery
  imports Move_Facts Mixer_Delivery
begin

text \<open>
  The executor on top of the mixer: the report it queues is written and every event of it comes
  back, so the motion it accounts for is the motion the host has seen.
\<close>

text \<open>One round of an undisturbed writer and server: a report is written and its events are processed.\<close>

definition pump_once :: "int \<Rightarrow> u64 \<Rightarrow> mover \<times> mixer \<Rightarrow> (mover \<times> mixer) option" where
  "pump_once a now = (\<lambda>(m, mx).
     case write_cycle a now mx of None \<Rightarrow> None
     | Some (io, mx) \<Rightarrow> let (evs, mx) = take_writer_events mx in Some (fold mover_event evs m, mx))"

fun pump :: "int \<Rightarrow> u64 list \<Rightarrow> mover \<times> mixer \<Rightarrow> (mover \<times> mixer) option" where
  "pump a [] s = Some s"
| "pump a (t # ts) s = (case pump_once a t s of None \<Rightarrow> None | Some s \<Rightarrow> pump a ts s)"

definition motion_kind :: "report_kind \<Rightarrow> bool" where
  "motion_kind k \<longleftrightarrow> k = RK_TransactionOut \<or> k = RK_TransactionReturn"

text \<open>The executor after its report of kind \<open>k\<close> and motion \<open>(x, y)\<close> was written in full.\<close>

definition accounted :: "report_kind \<Rightarrow> int \<Rightarrow> int \<Rightarrow> mover \<Rightarrow> mover \<Rightarrow> bool" where
  "accounted k x y m m' \<longleftrightarrow> mv_request m' = mv_request m \<and> \<not> mv_pending m' \<and> mv_cancelled m' = mv_cancelled m
     \<and> (k = RK_TransactionOut \<longrightarrow> mv_stage m' = St_Settle \<and> mover_active m'
          \<and> ma_out_x (mv_ack m') = ma_out_x (mv_ack m) + x \<and> ma_out_y (mv_ack m') = ma_out_y (mv_ack m) + y)
     \<and> (k = RK_TransactionReturn \<longrightarrow> mv_stage m' = St_Done \<and> ma_status (mv_ack m') = done_status m
          \<and> ma_out_x (mv_ack m') = ma_out_x (mv_ack m) \<and> ma_out_y (mv_ack m') = ma_out_y (mv_ack m)
          \<and> ma_return_x (mv_ack m') = ma_return_x (mv_ack m) + x \<and> ma_return_y (mv_ack m') = ma_return_y (mv_ack m) + y)
     \<and> ma_residual_x (mv_ack m') = ma_out_x (mv_ack m') + ma_return_x (mv_ack m')
     \<and> ma_residual_y (mv_ack m') = ma_out_y (mv_ack m') + ma_return_y (mv_ack m')"

definition its_event :: "mover \<Rightarrow> report_kind \<Rightarrow> writer_event \<Rightarrow> bool" where
  "its_event m k e \<longleftrightarrow> we_session e = mr_session (mv_request m) \<and> we_command e = mr_command (mv_request m)
     \<and> we_generation e = mr_generation (mv_request m) \<and> we_success e \<and> we_kind e = k"

lemma pending_frame [simp]: "mv_stage (m\<lparr>mv_pending := p\<rparr>) = mv_stage m"
  by simp

lemma last_event:
  assumes "its_event m k e" and "motion_kind k" and "mover_active m" and "we_finished e"
  shows "accounted k (we_dx e) (we_dy e) m (mover_event e m)"
proof -
  have k: "transaction (we_kind e)" "we_kind e = k" using assms(1,2) by (auto simp: its_event_def motion_kind_def transaction_def)
  have ev: "mover_event e m = step_finished e (add_motion e m)"
    using assms k by (simp add: mover_event_def its_event_def Let_def)
  have act: "ma_status (mv_ack (add_motion e m)) = ma_status (mv_ack m)" by simp
  show ?thesis
    using assms(2,3) k(2) unfolding ev
    by (auto simp: step_finished_def Let_def accounted_def motion_kind_def done_status_def)
qed

lemma middle_event:
  assumes "its_event m k e" and "motion_kind k" and "mover_active m" and "\<not> we_finished e"
  shows "mover_event e m = add_motion e m"
proof -
  have "transaction (we_kind e)" using assms(1,2) by (auto simp: its_event_def motion_kind_def transaction_def)
  then show ?thesis using assms by (simp add: mover_event_def its_event_def Let_def)
qed

lemma accounted_add:
  assumes "accounted k x y (add_motion e m) m'" and "motion_kind k" and "we_kind e = k"
  shows "accounted k (we_dx e + x) (we_dy e + y) m m'"
  using assms by (auto simp: accounted_def motion_kind_def done_status_def)

lemma pump_delivers:
  assumes "waiting mx a ep i" and "\<forall>t\<in>set ts. unexpired i t" and "\<not> no_motion (si_remaining i)"
    and "split_mouse_command (en_profile ep) (item_command i) = parts" and "length ts = length parts" and "parts \<noteq> []"
    and "mx_events mx = []" and "motion_kind (si_kind i)" and "mover_active m"
    and "si_session i = mr_session (mv_request m)" and "si_command i = mr_command (mv_request m)"
    and "en_generation ep = mr_generation (mv_request m)"
  shows "\<exists>m' mx' ep'. pump a ts (m, mx) = Some (m', mx')
    \<and> accounted (si_kind i) (cmd_x (si_remaining i)) (cmd_y (si_remaining i)) m m'
    \<and> mx_events mx' = [] \<and> mx_selected mx' = mx_selected mx \<and> map_of (mx_endpoints mx') a = Some ep' \<and> \<not> en_inflight ep'
    \<and> en_synthetic ep' = dropWhile finished_item (tl (en_synthetic ep))
    \<and> en_profile ep' = en_profile ep \<and> en_generation ep' = en_generation ep \<and> en_activity ep' = en_activity ep
    \<and> en_latest ep' = en_latest ep \<and> layout_known ep' \<and> en_next_item ep' = en_next_item ep
    \<and> th_queue (mx_threads mx' (en_info ep')) = []"
  using assms
proof (induction parts arbitrary: mx ep i ts m)
  case (Cons p ps)
  obtain t us where ts: "ts = t # us" "length us = length ps" using Cons.prems(5) by (cases ts) auto
  have un: "unexpired i t" using Cons.prems(2) ts by simp
  have tr: "transaction (si_kind i)" using Cons.prems(8) by (auto simp: motion_kind_def transaction_def)
  let ?fin = "finished_item (next_item p i)"
  from write_cycle_waiting [OF Cons.prems(1) un Cons.prems(3,4)]
  obtain io mx' ep' where w: "write_cycle a t mx = Some (io, mx')" "says io p"
    "map_of (mx_endpoints mx') a = Some ep'"
    "en_synthetic ep' = dropWhile finished_item (next_item p i # tl (en_synthetic ep))"
    "\<not> en_inflight ep'" "th_queue (mx_threads mx' (en_info ep')) = []" "en_latest ep' = en_latest ep"
    "en_profile ep' = en_profile ep" "layout_known ep'" "en_activity ep' = en_activity ep"
    "en_generation ep' = en_generation ep" "en_next_item ep' = en_next_item ep" "mx_selected mx' = mx_selected mx"
    and ev: "mx_events mx' = [written_event io t True ?fin]"
    and own: "io_kind io = si_kind i" "io_session io = si_session i" "io_command io = si_command i" "io_generation io = en_generation ep"
    using tr Cons.prems(7) by metis
  let ?e = "written_event io t True ?fin"
  let ?mx = "mx'\<lparr>mx_events := []\<rparr>"
  have e: "its_event m (si_kind i) ?e" "we_dx ?e = cmd_x p" "we_dy ?e = cmd_y p" "we_finished ?e = ?fin" "we_kind ?e = si_kind i"
    using own Cons.prems(10-12) w(2) by (simp_all add: its_event_def written_event_def says_def)
  have once: "pump_once a t (m, mx) = Some (mover_event ?e m, ?mx)"
    using w(1) ev by (simp add: pump_once_def take_writer_events_def)
  note st = split_step [OF Cons.prems(4)]
  have rem: "cmd_x (si_remaining (next_item p i)) = cmd_x (si_remaining i) - cmd_x p"
    "cmd_y (si_remaining (next_item p i)) = cmd_y (si_remaining i) - cmd_y p" by (simp_all add: next_item_def)
  show ?case
  proof (cases "ps = []")
    case True
    then have nm: "no_motion (si_remaining (next_item p i))"
      using st(1) no_motion_item [of "next_item p i"] by (simp add: next_item_command)
    then have fin: ?fin by (simp add: finished_item_def)
    have acc: "accounted (si_kind i) (cmd_x (si_remaining i)) (cmd_y (si_remaining i)) m (mover_event ?e m)"
      using last_event [OF e(1) Cons.prems(8,9)] fin e(2-4) rem nm by (simp add: no_motion_def)
    have us: "us = []" using ts(2) True by simp
    have "pump a ts (m, mx) = Some (mover_event ?e m, ?mx)" by (simp add: ts(1) us once)
    with acc w fin show ?thesis by (intro exI [of _ "mover_event ?e m"] exI [of _ ?mx] exI [of _ ep']) simp
  next
    case False
    have mov: "\<not> no_motion (si_remaining (next_item p i))"
      using st(2) [OF False] no_motion_item [of "next_item p i"] by (simp add: next_item_command)
    then have fin: "\<not> ?fin" by (simp add: finished_item_def)
    then have syn: "en_synthetic ep' = next_item p i # tl (en_synthetic ep)" using w(4) by simp
    have step: "mover_event ?e m = add_motion ?e m" by (rule middle_event [OF e(1) Cons.prems(8,9)]) (simp add: written_event_def fin)
    have guard: "si_guard i = UINT64_MAX \<or> si_guard i = en_activity ep" "si_id i \<noteq> 0" "en_latest ep \<noteq> []"
      using Cons.prems(1) by (auto simp: waiting_def ready_front_def split: list.splits if_splits)
    have "waiting ?mx a ep' (next_item p i)"
      using w guard by (auto simp: waiting_def ready_front_def syn)
    moreover have "\<forall>t\<in>set us. unexpired (next_item p i) t" using Cons.prems(2) by (auto simp: ts unexpired_def)
    moreover have "split_mouse_command (en_profile ep') (item_command (next_item p i)) = ps"
      using st(2) [OF False] by (simp add: w(8) next_item_command)
    moreover have "si_kind (next_item p i) = si_kind i" "si_session (next_item p i) = si_session i"
      "si_command (next_item p i) = si_command i" by (simp_all add: next_item_def)
    ultimately obtain m' mx'' ep'' where r: "pump a us (add_motion ?e m, ?mx) = Some (m', mx'')"
      "accounted (si_kind i) (cmd_x (si_remaining i) - cmd_x p) (cmd_y (si_remaining i) - cmd_y p) (add_motion ?e m) m'"
      "mx_events mx'' = []" "mx_selected mx'' = mx_selected mx" "map_of (mx_endpoints mx'') a = Some ep''" "\<not> en_inflight ep''"
      "en_synthetic ep'' = dropWhile finished_item (tl (en_synthetic ep))"
      "en_profile ep'' = en_profile ep" "en_generation ep'' = en_generation ep" "en_activity ep'' = en_activity ep"
      "en_latest ep'' = en_latest ep" "layout_known ep''" "en_next_item ep'' = en_next_item ep"
      "th_queue (mx_threads mx'' (en_info ep'')) = []"
      using Cons.IH [of ?mx ep' "next_item p i" us "add_motion ?e m"] mov ts(2) False Cons.prems(8-12) w(7,8,10-13) syn rem
      by auto
    have "accounted (si_kind i) (cmd_x (si_remaining i)) (cmd_y (si_remaining i)) m m'"
      using accounted_add [OF r(2) Cons.prems(8) e(5)] by (simp add: e)
    moreover have "pump a ts (m, mx) = Some (m', mx'')" using r(1) by (simp add: ts(1) once step)
    ultimately show ?thesis using r by blast
  qed
qed simp

text \<open>The executor may queue its next report: the endpoint is idle, and the snapshot is of it.\<close>

definition at_rest :: "mixer \<Rightarrow> int \<Rightarrow> endpoint \<Rightarrow> bool" where
  "at_rest mx a ep \<longleftrightarrow> mx_selected mx = a \<and> map_of (mx_endpoints mx) a = Some ep \<and> en_synthetic ep = []
     \<and> \<not> en_inflight ep \<and> th_queue (mx_threads mx (en_info ep)) = [] \<and> en_latest ep \<noteq> [] \<and> layout_known ep
     \<and> en_next_item ep \<noteq> 0 \<and> mx_events mx = []"

definition undisturbed :: "snapshot \<Rightarrow> u64 \<Rightarrow> mover \<Rightarrow> endpoint \<Rightarrow> bool" where
  "undisturbed e now m ep \<longleftrightarrow> mover_active m \<and> \<not> mv_pending m \<and> es_ready e
     \<and> es_generation e = mr_generation (mv_request m) \<and> es_activity e = mv_activity m
     \<and> en_generation ep = mr_generation (mv_request m) \<and> en_activity ep = mv_activity m \<and> now < mv_deadline m"

lemma enqueue_at_rest:
  assumes rest: "at_rest mx a ep" and gen: "en_generation ep = g" "en_activity ep = act"
    and split: "split_mouse_command (en_profile ep) (c\<lparr>cmd_buttons := p OR sch\<rparr>) \<noteq> []"
    and i: "i = new_item ep c p sch kind False session cid index button act now"
  shows "\<exists>mx' ep'. enqueue_report c p sch kind False session cid index button act g now mx = (ER_Ok, mx')
    \<and> waiting mx' a ep' i \<and> mx_events mx' = [] \<and> mx_selected mx' = a \<and> en_profile ep' = en_profile ep
    \<and> en_generation ep' = en_generation ep \<and> en_activity ep' = en_activity ep \<and> en_synthetic ep' = [i]
    \<and> en_next_item ep' = en_next_item ep + 1"
proof -
  have e: "map_of (mx_endpoints mx) (mx_selected mx) = Some ep" and f: "en_latest ep \<noteq> []" "en_synthetic ep = []"
    "mx_selected mx = a" "\<not> en_inflight ep" "th_queue (mx_threads mx (en_info ep)) = []" "layout_known ep"
    "en_next_item ep \<noteq> 0" "mx_events mx = []"
    using rest by (simp_all add: at_rest_def)
  have kept: "kept_items ep p False = []" by (simp add: kept_items_def f)
  let ?ep = "ep\<lparr>en_synthetic := [i], en_next_item := en_next_item ep + 1, en_superseded := superseded_count ep p False\<rparr>"
  have q: "enqueue_report c p sch kind False session cid index button act g now mx
      = (ER_Ok, update_pending ?ep (put_endpoint a ?ep mx))"
    by (subst enqueue_admitted [OF e f(1) _ _ split])
      (use gen in \<open>simp_all add: kept MAX_SYNTHETIC_ITEMS_def Let_def f i\<close>)
  have "waiting (update_pending ?ep (put_endpoint a ?ep mx)) a ?ep i"
    using f gen by (auto simp: waiting_def ready_front_def i new_item_def layout_known_def)
  with q show ?thesis using f(3,8) by (intro exI [of _ "update_pending ?ep (put_endpoint a ?ep mx)"] exI [of _ ?ep]) simp
qed

definition step_motion :: "mover \<Rightarrow> mouse_command" where
  "step_motion m = (if mv_stage m = St_Out
     then no_command\<lparr>cmd_x := mr_dx (mv_request m), cmd_y := mr_dy (mv_request m)\<rparr>
     else no_command\<lparr>cmd_x := - ma_residual_x (mv_ack m), cmd_y := - ma_residual_y (mv_ack m)\<rparr>)"

lemma tick_moves:
  assumes rest: "at_rest mx a ep" and un: "undisturbed e now m ep" and st: "mv_stage m = St_Out \<or> mv_stage m = St_Return"
    and c: "\<not> (mv_cancelled m \<and> mv_stage m = St_Out)" and mov: "\<not> no_motion (step_motion m)"
    and split: "split_mouse_command (en_profile ep) (step_motion m) = parts" "parts \<noteq> []" and len: "length ts = length parts"
    and room: "en_next_item ep + 1 \<noteq> 0"
  shows "\<exists>m1 mx1 m2 mx2 ep2. mover_tick e now m mx = (False, m1, mx1) \<and> pump a ts (m1, mx1) = Some (m2, mx2)
    \<and> accounted (the (stage_kind (mv_stage m))) (cmd_x (step_motion m)) (cmd_y (step_motion m)) m m2
    \<and> at_rest mx2 a ep2"
proof -
  let ?k = "the (stage_kind (mv_stage m))"
  let ?r = "mv_request m"
  have k: "motion_kind ?k" using st by (auto simp: motion_kind_def)
  have b: "(step_motion m)\<lparr>cmd_buttons := 0 OR 0\<rparr> = step_motion m" by (simp add: step_motion_def no_command_def)
  have sp: "split_mouse_command (en_profile ep) ((step_motion m)\<lparr>cmd_buttons := 0 OR 0\<rparr>) \<noteq> []"
    unfolding b using split by simp
  define i where "i = new_item ep (step_motion m) 0 0 ?k False (mr_session ?r) (mr_command ?r) 0 (mr_button ?r) (mv_activity m) now"
  have g: "en_generation ep = mr_generation ?r" "en_activity ep = mv_activity m" using un by (simp_all add: undisturbed_def)
  have act: "mover_active m" using un by (simp add: undisturbed_def)
  obtain mx1 ep1 where q: "enqueue_report (step_motion m) 0 0 ?k False (mr_session ?r) (mr_command ?r) 0 (mr_button ?r)
        (mv_activity m) (mr_generation ?r) now mx = (ER_Ok, mx1)"
    and w: "waiting mx1 a ep1 i" "mx_events mx1 = []" "mx_selected mx1 = a" "en_profile ep1 = en_profile ep"
      "en_generation ep1 = en_generation ep" "en_activity ep1 = en_activity ep" "en_synthetic ep1 = [i]"
      "en_next_item ep1 = en_next_item ep + 1"
    using enqueue_at_rest [OF rest g sp i_def] by (elim exE conjE)
  have leave: "leave_if_cancelled now m = m" using st c by (cases "mv_stage m") (simp_all add: leave_if_cancelled_def)
  have out: "mr_dx ?r \<noteq> 0 \<or> mr_dy ?r \<noteq> 0" if "mv_stage m = St_Out"
    using mov that by (simp add: step_motion_def no_motion_def no_command_def)
  have "stage_step now m = Inr (step_motion m, ?k, 0)"
    using st
  proof
    assume s: "mv_stage m = St_Out"
    with out show ?thesis by (auto simp: stage_step_def Let_def step_motion_def)
  next
    assume s: "mv_stage m = St_Return"
    then show ?thesis by (simp add: stage_step_def Let_def step_motion_def)
  qed
  moreover have "es_ready e" "es_generation e = mr_generation ?r" "es_activity e = mv_activity m" "\<not> mv_deadline m \<le> now"
    "\<not> mv_pending m" using un by (simp_all add: undisturbed_def not_le)
  ultimately have tick: "mover_tick e now m mx = (False, m\<lparr>mv_pending := True\<rparr>, mx1)"
    using q act by (simp add: mover_tick_def Let_def leave)
  have item: "item_command i = step_motion m" "si_remaining i = step_motion m" "si_kind i = ?k" "unexpired i t"
    "si_session i = mr_session ?r" "si_command i = mr_command ?r" for t
    using b by (simp_all add: i_def new_item_def item_command_def unexpired_def)
  have pre: "\<forall>t\<in>set ts. unexpired i t" "\<not> no_motion (si_remaining i)"
    "split_mouse_command (en_profile ep1) (item_command i) = parts" "motion_kind (si_kind i)"
    using item k mov split(1) w(4) by simp_all
  have ids: "mover_active (m\<lparr>mv_pending := True\<rparr>)" "si_session i = mr_session (mv_request (m\<lparr>mv_pending := True\<rparr>))"
    "si_command i = mr_command (mv_request (m\<lparr>mv_pending := True\<rparr>))"
    "en_generation ep1 = mr_generation (mv_request (m\<lparr>mv_pending := True\<rparr>))"
    using item act g(1) w(5) by simp_all
  note pump_delivers [OF w(1) pre(1-3) len split(2) w(2) pre(4) ids]
  then obtain m2 mx2 ep2 where p: "pump a ts (m\<lparr>mv_pending := True\<rparr>, mx1) = Some (m2, mx2)"
    "accounted ?k (cmd_x (step_motion m)) (cmd_y (step_motion m)) (m\<lparr>mv_pending := True\<rparr>) m2"
    "mx_events mx2 = []" "mx_selected mx2 = a" "map_of (mx_endpoints mx2) a = Some ep2" "\<not> en_inflight ep2"
    "en_synthetic ep2 = []" "en_latest ep2 = en_latest ep1" "layout_known ep2" "en_next_item ep2 = en_next_item ep + 1"
    "th_queue (mx_threads mx2 (en_info ep2)) = []"
    unfolding item(2,3) w(3,7,8) by auto
  have "accounted ?k (cmd_x (step_motion m)) (cmd_y (step_motion m)) m m2"
    using p(2) by (auto simp: accounted_def done_status_def)
  moreover have "at_rest mx2 a ep2"
    using p w(1) room by (simp add: at_rest_def waiting_def)
  ultimately show ?thesis using tick p(1) by blast
qed

end
