(* ===== verification/Boot_Mouse.thy ===== *)
theory Boot_Mouse
  imports Mouse_Layout
begin

text \<open>
  A three-button wheel mouse, the report descriptor such devices ship: evaluating the parser
  on it gives the profile below, on which the statements about profiles are exercised.
\<close>

definition boot_descriptor :: bytes where
  "boot_descriptor = [0x05, 0x01, 0x09, 0x02, 0xa1, 0x01,
     0x05, 0x09, 0x19, 0x01, 0x29, 0x03, 0x15, 0x00, 0x25, 0x01, 0x95, 0x03, 0x75, 0x01, 0x81, 0x02,
     0x95, 0x01, 0x75, 0x05, 0x81, 0x03,
     0x05, 0x01, 0x09, 0x30, 0x09, 0x31, 0x09, 0x38, 0x15, 0x81, 0x25, 0x7f, 0x75, 0x08, 0x95, 0x03,
     0x81, 0x06, 0xc0]"

definition boot_button :: "nat \<Rightarrow> hid_field" where
  "boot_button k = \<lparr>hf_offset = k, hf_bits = 1, hf_min = 0, hf_max = 1\<rparr>"

definition boot_axis :: "nat \<Rightarrow> hid_field" where
  "boot_axis k = \<lparr>hf_offset = k, hf_bits = 8, hf_min = -127, hf_max = 127\<rparr>"

definition boot_profile :: mouse_profile where
  "boot_profile = \<lparr>mp_id = 0, mp_size = 4, mp_x = boot_axis 8, mp_y = boot_axis 16,
     mp_wheel = boot_axis 24, mp_pan = no_field,
     mp_buttons = [(1, boot_button 0), (2, boot_button 1), (3, boot_button 2)],
     mp_relative = [boot_axis 8, boot_axis 16, boot_axis 24]\<rparr>"

lemmas boot_defs = boot_profile_def boot_axis_def boot_button_def no_field_def

lemmas parser_eval = parse_item_def parse_global_def parse_local_def parse_main_def item_data_def
  item_signed_def parse_input_def input_field_def assign_usage_def field_usage_def injectable_def
  smap_at_def upt_conv_Cons Let_def

lemma boot_parsed: "parse_mouse_descriptor boot_descriptor = [boot_profile]"
  by (simp add: boot_descriptor_def parse_mouse_descriptor_def parser_init_def parser_eval
      no_profile_def boot_defs)

lemma boot_profile_ok [simp]: "profile_ok boot_profile"
  by (rule parsed_profile_ok [of _ boot_descriptor]) (simp add: boot_parsed)

lemma boot_binary [simp]: "binary_buttons boot_profile"
  by (simp add: binary_buttons_def boot_defs)

lemma boot_fields [simp]:
  "mp_id boot_profile = 0" "mp_size boot_profile = 4"
  "mp_x boot_profile = boot_axis 8" "mp_y boot_profile = boot_axis 16"
  "mp_wheel boot_profile = boot_axis 24" "mp_pan boot_profile = no_field"
  "mp_relative boot_profile = [boot_axis 8, boot_axis 16, boot_axis 24]"
  "mp_buttons boot_profile = [(1, boot_button 0), (2, boot_button 1), (3, boot_button 2)]"
  "hf_bits no_field = 0" "hf_bits (boot_axis k) = 8" "hf_offset (boot_axis k) = k"
  "hf_min (boot_axis k) = -127" "hf_max (boot_axis k) = 127"
  by (simp_all add: boot_profile_def boot_axis_def no_field_def)

lemma boot_fits: "command_fits boot_profile c \<longleftrightarrow> \<bar>cmd_x c\<bar> \<le> 127 \<and> \<bar>cmd_y c\<bar> \<le> 127
    \<and> \<bar>cmd_wheel c\<bar> \<le> 127 \<and> cmd_pan c = 0"
  by (auto simp: command_fits_def axis_fits_def in_range_def)

lemma boot_supported [simp]: "supported_mask boot_profile = 7"
  by (simp add: supported_mask_def boot_defs)

end
