(* ===== verification/Mixer_Example.thy ===== *)
theory Mixer_Example
  imports Move_Delivery Boot_Mouse
begin

text \<open>
  A concrete run of the mixer, used to instantiate the theorems: the boot-mouse descriptor is learnt, an
  endpoint is attached at address 0x81 and seeded, and a movement is enqueued.
\<close>

definition demo_threads :: "nat \<Rightarrow> mouse_thread" where
  "demo_threads i = \<lparr>th_ep_num = 0, th_address = 0, th_queue = [], th_poll_us = 0, th_mouse = False, th_pending = None\<rparr>"

definition demo_learnt :: mouse_system where
  "demo_learnt = (let s = system_init demo_threads
     in s\<lparr>ms_mixer := learn_mouse_descriptor 0 boot_descriptor (ms_mixer s)\<rparr>)"

definition demo_attached :: mouse_system where
  "demo_attached = (let s = demo_learnt in s\<lparr>ms_mixer := register_mouse_endpoint 0 0 ((ms_mixer s)
     \<lparr>mx_threads := (mx_threads (ms_mixer s))(0 := fresh_thread 1 129 1000)\<rparr>)\<rparr>)"

definition demo_seeded :: mouse_system where
  "demo_seeded = (let s = demo_attached
     in s\<lparr>ms_mixer := snd (seed_mouse_report 129 (read_report 0 [0, 0, 0, 0]) (ms_mixer s))\<rparr>)"

definition demo_move :: mouse_command where
  "demo_move = \<lparr>cmd_x = 300, cmd_y = -5, cmd_wheel = 0, cmd_pan = 0, cmd_buttons = 0\<rparr>"

definition demo_queued :: mouse_system where
  "demo_queued = (let s = demo_seeded in s\<lparr>ms_mixer := snd (enqueue_report demo_move 1 0 RK_Movement False 7 9 0 0
     UINT64_MAX 0 100 (ms_mixer s))\<rparr>)"

definition demo_profiles :: "(int \<times> mouse_profile list) list" where
  "demo_profiles = [(0, [boot_profile])]"

lemma demo_learnt_mixer: "ms_mixer demo_learnt = (ms_mixer (system_init demo_threads))
    \<lparr>mx_descriptors := demo_profiles, mx_reports := demo_profiles\<rparr>"
  by (simp add: demo_learnt_def system_init_def learn_mouse_descriptor_def invalidate_interface_def boot_parsed
      smap_at_def demo_profiles_def Let_def)

definition demo_endpoint :: endpoint where
  "demo_endpoint = no_endpoint\<lparr>en_info := 0, en_interface := 0, en_generation := 1, en_instance := 1\<rparr>"

lemma demo_attached_mixer:
  "mx_endpoints (ms_mixer demo_attached) = [(129, demo_endpoint)]"
  "mx_descriptors (ms_mixer demo_attached) = demo_profiles"
  "mx_selected (ms_mixer demo_attached) = -1" "mx_next_generation (ms_mixer demo_attached) = 1"
  "th_queue (mx_threads (ms_mixer demo_attached) 0) = []"
  by (simp_all add: demo_attached_def demo_learnt_mixer register_mouse_endpoint_def Let_def put_endpoint_def
      system_init_def demo_endpoint_def fresh_thread_def)

definition demo_template :: bytes where
  "demo_template = put_buttons boot_profile (clear_relative boot_profile (take 4 (io_data (read_report 0 [0, 0, 0, 0])))) 0"

lemma demo_template_length [simp]: "length demo_template = 4"
  by (simp add: demo_template_def read_report_def MAX_TRANSFER_SIZE_def)

lemma demo_template_ne [simp]: "demo_template \<noteq> []"
  by (metis demo_template_length list.size(3) zero_neq_numeral)

definition demo_endpoint' :: endpoint where
  "demo_endpoint' = demo_endpoint\<lparr>en_profile := boot_profile, en_latest := demo_template,
     en_template := demo_template, en_physical := 0, en_submitted := 0\<rparr>"

lemma demo_matching: "matching_profile (ms_mixer demo_attached) demo_endpoint p 4 = Some boot_profile"
  by (simp add: matching_profile_def demo_attached_mixer demo_profiles_def smap_at_def demo_endpoint_def no_endpoint_def
      matches_def)

lemma demo_seeded_mixer:
  "mx_endpoints (ms_mixer demo_seeded) = [(129, demo_endpoint')]"
  "mx_selected (ms_mixer demo_seeded) = 129" "mx_next_generation (ms_mixer demo_seeded) = 1"
  "th_queue (mx_threads (ms_mixer demo_seeded) 0) = []"
proof -
  have io: "io_length (read_report 0 [0, 0, 0, 0]) = 4" by (simp add: read_report_def)
  have "ms_mixer demo_seeded = select_if_none 129 (put_endpoint 129 demo_endpoint' (ms_mixer demo_attached))"
    unfolding demo_seeded_def seed_mouse_report_def
    by (simp add: demo_attached_mixer io demo_matching Let_def demo_endpoint'_def demo_template_def)
  then show "mx_endpoints (ms_mixer demo_seeded) = [(129, demo_endpoint')]"
    "mx_selected (ms_mixer demo_seeded) = 129" "mx_next_generation (ms_mixer demo_seeded) = 1"
    "th_queue (mx_threads (ms_mixer demo_seeded) 0) = []"
    by (simp_all add: demo_attached_mixer select_if_none_def)
qed

definition demo_item :: synthetic_item where
  "demo_item = new_item demo_endpoint' demo_move 1 0 RK_Movement False 7 9 0 0 UINT64_MAX 100"

definition demo_endpoint'' :: endpoint where
  "demo_endpoint'' = demo_endpoint'\<lparr>en_synthetic := [demo_item], en_next_item := 2\<rparr>"

definition demo_parts :: "mouse_command list" where
  "demo_parts = [\<lparr>cmd_x = 127, cmd_y = -5, cmd_wheel = 0, cmd_pan = 0, cmd_buttons = 1\<rparr>,
     \<lparr>cmd_x = 127, cmd_y = 0, cmd_wheel = 0, cmd_pan = 0, cmd_buttons = 1\<rparr>,
     \<lparr>cmd_x = 46, cmd_y = 0, cmd_wheel = 0, cmd_pan = 0, cmd_buttons = 1\<rparr>]"

lemma demo_split: "split_mouse_command boot_profile (demo_move\<lparr>cmd_buttons := 1\<rparr>) = demo_parts"
  by (simp add: split_mouse_command_def demo_move_def demo_parts_def take_report_def take_axis_def no_motion_def
      numeral_eq_Suc [of "num.Bit0 num.One"] eval_nat_numeral)

lemma demo_queued_mixer:
  "map_of (mx_endpoints (ms_mixer demo_queued)) 129 = Some demo_endpoint''"
  "mx_next_generation (ms_mixer demo_queued) = 1" "mx_selected (ms_mixer demo_queued) = 129"
  "th_queue (mx_threads (ms_mixer demo_queued) 0) = []"
proof -
  have e: "map_of (mx_endpoints (ms_mixer demo_seeded)) (mx_selected (ms_mixer demo_seeded)) = Some demo_endpoint'"
    by (simp add: demo_seeded_mixer)
  have f: "en_latest demo_endpoint' \<noteq> []" "en_profile demo_endpoint' = boot_profile" "en_synthetic demo_endpoint' = []"
    "en_next_item demo_endpoint' = 1" "en_info demo_endpoint' = 0"
    by (simp_all add: demo_endpoint'_def demo_endpoint_def no_endpoint_def)
  have kept: "kept_items demo_endpoint' 1 False = []" by (simp add: kept_items_def f)
  have "superseded_count demo_endpoint' 1 False = en_superseded demo_endpoint'" by (simp add: superseded_count_def)
  then have q: "snd (enqueue_report demo_move 1 0 RK_Movement False 7 9 0 0 UINT64_MAX 0 100 (ms_mixer demo_seeded))
      = update_pending demo_endpoint'' (put_endpoint 129 demo_endpoint'' (ms_mixer demo_seeded))"
    using f by (subst enqueue_admitted [OF e f(1)])
      (simp_all add: f demo_split demo_parts_def kept MAX_SYNTHETIC_ITEMS_def Let_def demo_endpoint''_def demo_item_def
        demo_seeded_mixer)
  have "en_info demo_endpoint'' = 0" by (simp add: demo_endpoint''_def f)
  then show "map_of (mx_endpoints (ms_mixer demo_queued)) 129 = Some demo_endpoint''"
    "mx_next_generation (ms_mixer demo_queued) = 1" "mx_selected (ms_mixer demo_queued) = 129"
    "th_queue (mx_threads (ms_mixer demo_queued) 0) = []"
    by (simp_all add: demo_queued_def q demo_seeded_mixer)
qed

lemma demo_idle: "ms_reader demo_queued a = None" "ms_writer demo_queued a = None"
  by (simp_all add: demo_queued_def demo_seeded_def demo_attached_def demo_learnt_def system_init_def Let_def)

lemma demo_reach_learnt: "mouse_reach demo_learnt"
  unfolding demo_learnt_def Let_def
  by (rule mouse_reach.step [OF mouse_reach.start mouse_step.learn]) (simp add: counters_low_def system_init_def)

lemma demo_reach_attached: "mouse_reach demo_attached"
  unfolding demo_attached_def Let_def
  by (rule mouse_reach.step [OF demo_reach_learnt mouse_step.attach])
    (simp_all add: demo_learnt_mixer counters_low_def system_init_def, simp_all add: demo_learnt_def system_init_def Let_def)

lemma demo_reach_seeded: "mouse_reach demo_seeded"
  unfolding demo_seeded_def Let_def
  by (rule mouse_reach.step [OF demo_reach_attached mouse_step.seed]) (simp add: MAX_TRANSFER_SIZE_def)

lemma demo_reach: "mouse_reach demo_queued"
  unfolding demo_queued_def Let_def
  by (rule mouse_reach.step [OF demo_reach_seeded mouse_step.enqueue [OF _ surjective_pairing]])
    (simp add: counters_low_def demo_seeded_mixer demo_endpoint'_def demo_endpoint_def no_endpoint_def UINT64_MAX_def)

lemma demo_waiting: "waiting (ms_mixer demo_queued) 129 demo_endpoint'' demo_item"
  by (simp add: waiting_def demo_queued_mixer demo_endpoint''_def demo_endpoint'_def demo_endpoint_def no_endpoint_def
      ready_front_def layout_known_def MAX_TRANSFER_SIZE_def demo_item_def new_item_def)

lemma demo_item_facts:
  "item_command demo_item = demo_move\<lparr>cmd_buttons := 1\<rparr>" "\<not> no_motion (si_remaining demo_item)"
  "unexpired demo_item t" "en_profile demo_endpoint'' = boot_profile" "si_remaining demo_item = demo_move\<lparr>cmd_buttons := 1\<rparr>"
  by (simp_all add: item_command_def demo_item_def new_item_def demo_move_def no_motion_def unexpired_def
      demo_endpoint''_def demo_endpoint'_def)

lemma demo_split_item: "split_mouse_command (en_profile demo_endpoint'') (item_command demo_item) = demo_parts"
  by (simp add: demo_item_facts demo_split)

text \<open>The writer takes the first report of the movement.\<close>

lemma demo_taken:
  obtains s io ep where "mouse_reach s" "ms_writer s 129 = Some io" "map_of (mx_endpoints (ms_mixer s)) 129 = Some ep"
    "current_report ep io" "en_inflight ep" "en_profile ep = boot_profile" "carries_front io True ep"
    "io_physical_x io = 0" "io_synthetic_x io = 127" "io_managed io" "io_instance io = en_instance ep"
    "io_generation io = en_generation ep" "en_synthetic ep = [demo_item]"
proof -
  from take_waiting [OF demo_waiting demo_item_facts(3) [of 0] demo_item_facts(2) demo_split_item [unfolded demo_parts_def], of no_io]
  obtain io ep1 where
    take: "take_mouse_report 129 no_io 0 (ms_mixer demo_queued)
        = (True, io, put_endpoint 129 ep1 (refreshed 129 demo_endpoint'' 0 (ms_mixer demo_queued)))"
    and de: "ep1 = demo_endpoint''\<lparr>en_inflight := True, en_inflight_id := si_id demo_item\<rparr>"
    and io: "says io \<lparr>cmd_x = 127, cmd_y = -5, cmd_wheel = 0, cmd_pan = 0, cmd_buttons = 1\<rparr>"
      "\<not> io_physical io" "io_managed io" "io_generation io = en_generation demo_endpoint''"
      "io_instance io = en_instance demo_endpoint''" "carries_front io True ep1"
      "io_physical_x io = 0"
    by blast
  define mx where "mx = put_endpoint 129 ep1 (refreshed 129 demo_endpoint'' 0 (ms_mixer demo_queued))"
  define s where "s = demo_queued\<lparr>ms_mixer := mx, ms_writer := (ms_writer demo_queued)(129 := Some io)\<rparr>"
  have "mouse_step demo_queued (demo_queued\<lparr>ms_mixer := mx, ms_writer := (ms_writer demo_queued)(129 := if True then Some io else None)\<rparr>)"
    by (rule mouse_step.take [OF demo_idle(2) take [folded mx_def]])
  then have r: "mouse_reach s" using mouse_reach.step [OF demo_reach] by (simp add: s_def)
  have "ms_writer s 129 = Some io" "map_of (mx_endpoints (ms_mixer s)) 129 = Some ep1" by (simp_all add: s_def mx_def)
  moreover have "en_synthetic ep1 = [demo_item]" by (simp add: de demo_endpoint''_def)
  moreover have "current_report ep1 io" using io by (simp add: current_report_def de)
  ultimately show ?thesis using that [OF r, of io ep1] io by (simp add: de demo_item_facts says_def)
qed

text \<open>A transaction on the seeded endpoint.\<close>

definition demo_request :: move_request where
  "demo_request = \<lparr>mr_operation = MO_Execute, mr_flags = 0, mr_button = 1, mr_session = 7, mr_command = 9, mr_epoch = 3,
     mr_generation = 1, mr_dx = 300, mr_dy = -5, mr_settle_us = 1000, mr_press_us = 10000, mr_return_us = 0,
     mr_budget_us = 2000000, mr_wait_us = 1000000\<rparr>"

definition demo_snapshot :: snapshot where
  "demo_snapshot = no_snapshot\<lparr>es_ready := True, es_generation := 1\<rparr>"

definition demo_mover :: mover where
  "demo_mover = mover_start demo_request demo_snapshot 5"

lemma demo_seeded_events: "mx_events (ms_mixer demo_seeded) = []"
  by (simp add: demo_seeded_def demo_attached_def demo_learnt_mixer register_mouse_endpoint_def Let_def system_init_def
      seed_mouse_report_def split: option.split)

lemma demo_at_rest: "at_rest (ms_mixer demo_seeded) 129 demo_endpoint'"
  by (simp add: at_rest_def demo_seeded_mixer demo_seeded_events)
    (simp add: demo_endpoint'_def demo_endpoint_def no_endpoint_def layout_known_def MAX_TRANSFER_SIZE_def demo_seeded_mixer)

lemma demo_undisturbed: "undisturbed demo_snapshot 6 demo_mover demo_endpoint'"
  by (simp add: undisturbed_def demo_mover_def mover_start_def demo_snapshot_def no_snapshot_def demo_request_def
      mover_active_def no_ack_def demo_endpoint'_def demo_endpoint_def no_endpoint_def us_def)

lemma demo_mover_facts:
  "mv_stage demo_mover = St_Out" "\<not> mv_cancelled demo_mover"
  "step_motion demo_mover = no_command\<lparr>cmd_x := 300, cmd_y := -5\<rparr>"
  "mv_request demo_mover = demo_request" "ma_out_x (mv_ack demo_mover) = 0"
  by (simp_all add: demo_mover_def mover_start_def step_motion_def demo_request_def no_ack_def)

lemma demo_transaction_split:
  "split_mouse_command (en_profile demo_endpoint') (step_motion demo_mover) =
    [no_command\<lparr>cmd_x := 127, cmd_y := -5\<rparr>, no_command\<lparr>cmd_x := 127\<rparr>, no_command\<lparr>cmd_x := 46\<rparr>]"
  by (simp add: demo_mover_facts split_mouse_command_def no_command_def take_report_def take_axis_def no_motion_def
      demo_endpoint'_def eval_nat_numeral)

end
