(* ===== verification/Usb_Capture.thy ===== *)
theory Usb_Capture
  imports Proxy_Prelude
begin

text \<open>
  \<open>usb_capture.cpp\<close>: the recorder of host enumeration and mouse reports. A line of the file is
  one JSON value. The JSON library (jsoncpp) is not part of the repository: it is the argument
  \<open>L\<close> of every definition that builds or reads a value, and \<open>json_lawful\<close> states what the program
  relies on. \<open>None\<close> stands for an accessor that throws.
\<close>

record 'j json_library =
  jl_null :: 'j
  jl_is_null :: "'j \<Rightarrow> bool"
  jl_get :: "'j \<Rightarrow> string \<Rightarrow> 'j option"
  jl_set :: "'j \<Rightarrow> string \<Rightarrow> 'j \<Rightarrow> 'j"
  jl_of_int :: "int \<Rightarrow> 'j"
  jl_of_string :: "string \<Rightarrow> 'j"
  jl_int :: "'j \<Rightarrow> int option"
  jl_string :: "'j \<Rightarrow> string option"
  jl_bool :: "'j \<Rightarrow> bool option"
  jl_size :: "'j \<Rightarrow> nat"
  jl_at :: "'j \<Rightarrow> nat \<Rightarrow> 'j"

text \<open>
  The documented behaviour of objects, integers and strings: an absent member reads as null, null
  converts to zero and to the empty string, and what was stored is read back. Only values built
  by storing members into null are claimed to be objects.
\<close>

definition json_lawful :: "'j json_library \<Rightarrow> ('j \<Rightarrow> bool) \<Rightarrow> bool" where
  "json_lawful L obj \<longleftrightarrow> obj (jl_null L) \<and> (\<forall>k. jl_get L (jl_null L) k = Some (jl_null L))
    \<and> (\<forall>j k v. obj j \<longrightarrow> obj (jl_set L j k v) \<and> \<not> jl_is_null L (jl_set L j k v))
    \<and> (\<forall>j k v k'. obj j \<longrightarrow> jl_get L (jl_set L j k v) k' = (if k' = k then Some v else jl_get L j k'))
    \<and> (\<forall>n. jl_int L (jl_of_int L n) = Some n) \<and> (\<forall>s. jl_string L (jl_of_string L s) = Some s)
    \<and> jl_int L (jl_null L) = Some 0 \<and> jl_string L (jl_null L) = Some [] \<and> jl_is_null L (jl_null L)"

lemma json_lawfulD:
  assumes "json_lawful L obj"
  shows "obj (jl_null L)" "jl_get L (jl_null L) k = Some (jl_null L)"
    "obj j \<Longrightarrow> obj (jl_set L j k v)" "obj j \<Longrightarrow> \<not> jl_is_null L (jl_set L j k v)"
    "obj j \<Longrightarrow> jl_get L (jl_set L j k v) k' = (if k' = k then Some v else jl_get L j k')"
    "jl_int L (jl_of_int L n) = Some n" "jl_string L (jl_of_string L s) = Some s"
    "jl_int L (jl_null L) = Some 0" "jl_string L (jl_null L) = Some []" "jl_is_null L (jl_null L)"
  using assms by (simp_all add: json_lawful_def)

subsection \<open>Hexadecimal text\<close>

definition hex_digits :: string where
  "hex_digits = ''0123456789abcdef''"

definition hex_byte :: "u8 \<Rightarrow> string" where
  "hex_byte b = [hex_digits ! unat (drop_bit 4 b), hex_digits ! unat (b AND 15)]"

definition hex :: "bytes \<Rightarrow> string" where
  "hex data = concat (map hex_byte data)"

lemma length_hex [simp]: "length (hex data) = 2 * length data"
  by (induction data) (simp_all add: hex_def hex_byte_def)

lemma hex_Cons: "hex (b # bs) = hex_digits ! unat (drop_bit 4 b) # hex_digits ! unat (b AND 15) # hex bs"
  by (simp add: hex_def hex_byte_def)

subsection \<open>The recorder\<close>

text \<open>
  \<open>rc_pending\<close> is the setup packet of the control event not answered yet, or null. The file is
  \<open>rc_lines\<close>, one value a line. The flag \<open>ok\<close> says whether the stream accepted a line; time
  is in microseconds.
\<close>

record 'j recorder =
  rc_enabled :: bool
  rc_pending :: 'j
  rc_started :: int
  rc_lines :: "'j list"

record capture_setup =
  su_type :: nat
  su_request :: nat
  su_value :: nat
  su_index :: nat
  su_length :: nat

definition record_line :: "'j json_library \<Rightarrow> int \<Rightarrow> bool \<Rightarrow> 'j \<Rightarrow> 'j recorder \<Rightarrow> 'j recorder" where
  "record_line L now ok line rc =
    (if ok then rc\<lparr>rc_lines := rc_lines rc @ [jl_set L line ''us'' (jl_of_int L (now - rc_started rc))]\<rparr>
     else rc\<lparr>rc_enabled := False\<rparr>)"

definition json_of_kind :: "'j json_library \<Rightarrow> string \<Rightarrow> 'j" where
  "json_of_kind L kind = jl_set L (jl_null L) ''kind'' (jl_of_string L kind)"

definition set_int :: "'j json_library \<Rightarrow> string \<Rightarrow> int \<Rightarrow> 'j \<Rightarrow> 'j" where
  "set_int L k n j = jl_set L j k (jl_of_int L n)"

definition set_string :: "'j json_library \<Rightarrow> string \<Rightarrow> string \<Rightarrow> 'j \<Rightarrow> 'j" where
  "set_string L k s j = jl_set L j k (jl_of_string L s)"

definition capture_open ::
    "'j json_library \<Rightarrow> int \<Rightarrow> bool \<Rightarrow> bool \<Rightarrow> bool \<Rightarrow> 'j recorder \<Rightarrow> bool \<times> 'j recorder" where
  "capture_open L now existing opened ok rc =
    (if rc_enabled rc then (False, rc)
     else if existing then (False, rc)
     else if \<not> opened then (False, rc)
     else let rc = rc\<lparr>rc_lines := [], rc_started := now, rc_enabled := True\<rparr>
     in (ok, record_line L now ok (set_int L ''version'' 1 (json_of_kind L ''format'')) rc))"

definition capture_close :: "'j json_library \<Rightarrow> 'j recorder \<Rightarrow> 'j recorder" where
  "capture_close L rc = rc\<lparr>rc_enabled := False, rc_pending := jl_null L\<rparr>"

definition capture_speed :: "'j json_library \<Rightarrow> int \<Rightarrow> bool \<Rightarrow> int \<Rightarrow> 'j recorder \<Rightarrow> 'j recorder" where
  "capture_speed L now ok speed rc =
    (if \<not> rc_enabled rc then rc
     else record_line L now ok (set_int L ''value'' speed (json_of_kind L ''speed'')) rc)"

definition json_of_setup :: "'j json_library \<Rightarrow> capture_setup \<Rightarrow> 'j" where
  "json_of_setup L s =
    set_int L ''length'' (int (su_length s)) (set_int L ''index'' (int (su_index s))
      (set_int L ''value'' (int (su_value s)) (set_int L ''request'' (int (su_request s))
        (set_int L ''type'' (int (su_type s)) (jl_null L)))))"

definition capture_event ::
    "'j json_library \<Rightarrow> int \<Rightarrow> bool \<Rightarrow> nat \<Rightarrow> capture_setup option \<Rightarrow> 'j recorder \<Rightarrow> 'j recorder" where
  "capture_event L now ok ty request rc =
    (if \<not> rc_enabled rc then rc
     else let line = set_int L ''type'' (int ty) (json_of_kind L ''event'');
              rc = rc\<lparr>rc_pending := jl_null L\<rparr>
     in case request of
          None \<Rightarrow> record_line L now ok line rc
        | Some s \<Rightarrow>
            (let rc = rc\<lparr>rc_pending := json_of_setup L s\<rparr>
             in record_line L now ok (jl_set L line ''setup'' (rc_pending rc)) rc))"

definition control_line :: "'j json_library \<Rightarrow> 'j \<Rightarrow> string \<Rightarrow> bytes \<Rightarrow> 'j" where
  "control_line L setup status data =
    set_string L ''data'' (hex data) (set_string L ''status'' status
      (jl_set L (json_of_kind L ''control'') ''setup'' setup))"

definition capture_reply :: "'j json_library \<Rightarrow> int \<Rightarrow> bool \<Rightarrow> string \<Rightarrow> bytes \<Rightarrow> 'j recorder \<Rightarrow> 'j recorder" where
  "capture_reply L now ok status data rc =
    (if \<not> rc_enabled rc then rc
     else if jl_is_null L (rc_pending rc) then rc
     else (record_line L now ok (control_line L (rc_pending rc) status data) rc)
            \<lparr>rc_pending := jl_null L\<rparr>)"

definition capture_report :: "'j json_library \<Rightarrow> int \<Rightarrow> bool \<Rightarrow> int \<Rightarrow> int \<Rightarrow> bytes \<Rightarrow> 'j recorder \<Rightarrow> 'j recorder" where
  "capture_report L now ok endpoint number data rc =
    (if \<not> rc_enabled rc then rc
     else record_line L now ok
       (set_string L ''data'' (hex data) (set_int L ''interface'' number
         (set_int L ''endpoint'' endpoint (json_of_kind L ''mouse_report'')))) rc)"

end
