(* ===== verification/Replay_Profile.thy ===== *)
theory Replay_Profile
  imports Usb_Capture Boot_Mouse
begin

text \<open>
  \<open>replay_profile.h\<close>: loading a recording into the profile of the device to be replayed. Each
  exception of the source is a constructor of \<open>replay_error\<close>.
\<close>

datatype replay_error = Invalid_Hex_Length | Invalid_Hex | Capture_Too_Large | Invalid_Json
  | Json_Exception | Unsupported_Version | Conflicting_Descriptors | Missing_Format
  | Incomplete_Device | Incomplete_Configuration | Invalid_Block | Not_Hid_Only | Invalid_Hid
  | Not_Interrupt | Invalid_Limits | Interface_Count | Incomplete_Interface | Truncated_Report
  | Ambiguous_Mouse | Report_Too_Long | No_Mouse | Invalid_Speed

text \<open>Reading the members of a JSON value, with an exception as an error.\<close>

definition thrown :: "'a option \<Rightarrow> replay_error + 'a" where
  "thrown r = (case r of None \<Rightarrow> Inl Json_Exception | Some a \<Rightarrow> Inr a)"

definition andthen :: "replay_error + 'a \<Rightarrow> ('a \<Rightarrow> replay_error + 'b) \<Rightarrow> replay_error + 'b" where
  "andthen r k = (case r of Inl e \<Rightarrow> Inl e | Inr a \<Rightarrow> k a)"

lemma andthen_simps [simp]: "andthen (Inl e) k = Inl e" "andthen (Inr a) k = k a"
  by (simp_all add: andthen_def)

lemma andthen_Inr: "andthen r k = Inr b \<longleftrightarrow> (\<exists>a. r = Inr a \<and> k a = Inr b)"
  by (cases r) simp_all

lemma thrown_simps [simp]: "thrown None = Inl Json_Exception" "thrown (Some a) = Inr a"
  by (simp_all add: thrown_def)

lemma thrown_Inr [simp]: "thrown r = Inr a \<longleftrightarrow> r = Some a"
  by (cases r) (simp_all add: thrown_def)

definition member_int :: "'j json_library \<Rightarrow> 'j \<Rightarrow> string \<Rightarrow> replay_error + int" where
  "member_int L j k = thrown (Option.bind (jl_get L j k) (jl_int L))"

definition member_string :: "'j json_library \<Rightarrow> 'j \<Rightarrow> string \<Rightarrow> replay_error + string" where
  "member_string L j k = thrown (Option.bind (jl_get L j k) (jl_string L))"

subsection \<open>Hexadecimal text\<close>

definition hex_value :: "char \<Rightarrow> nat option" where
  "hex_value c =
    (let n = of_char c in
     if 48 \<le> n \<and> n \<le> 57 then Some (n - 48)
     else if 97 \<le> n \<and> n \<le> 102 then Some (n - 97 + 10)
     else if 65 \<le> n \<and> n \<le> 70 then Some (n - 65 + 10)
     else None)"

fun unhex_loop :: "string \<Rightarrow> bytes option" where
  "unhex_loop (a # b # s) =
    (case (hex_value a, hex_value b) of
       (Some h, Some l) \<Rightarrow> map_option (Cons (of_nat (h * 16 + l))) (unhex_loop s)
     | _ \<Rightarrow> None)"
| "unhex_loop _ = Some []"

definition unhex :: "string \<Rightarrow> replay_error + bytes" where
  "unhex s =
    (if length s mod 2 \<noteq> 0 \<or> length s > 8192 then Inl Invalid_Hex_Length
     else case unhex_loop s of None \<Rightarrow> Inl Invalid_Hex | Some bs \<Rightarrow> Inr bs)"

subsection \<open>The profile\<close>

record replay_interface =
  ri_number :: nat
  ri_subclass :: nat
  ri_protocol :: nat
  ri_hid :: bytes
  ri_report :: bytes

record replay_endpoint =
  re_interface :: nat
  re_descriptor :: bytes

type_synonym descriptor_key = "int \<times> int \<times> int"

record replay_profile =
  rp_descriptors :: "descriptor_key \<rightharpoonup> bytes"
  rp_samples :: "int \<rightharpoonup> bytes"
  rp_interfaces :: "replay_interface list"
  rp_endpoints :: "replay_endpoint list"
  rp_device :: bytes
  rp_config :: bytes
  rp_speed :: int

definition no_replay :: replay_profile where
  "no_replay = \<lparr>rp_descriptors = Map.empty, rp_samples = Map.empty, rp_interfaces = [],
     rp_endpoints = [], rp_device = [], rp_config = [], rp_speed = 0\<rparr>"

subsection \<open>The lines of the recording\<close>

text \<open>
  The loop over the lines. A line is its length and what the reader makes of it (\<open>None\<close> where
  it does not parse); the state is the profile, the flag \<open>format\<close> and the size so far.
\<close>

definition store_descriptor :: "descriptor_key \<Rightarrow> bytes \<Rightarrow> replay_profile \<Rightarrow> replay_error + replay_profile" where
  "store_descriptor key data p =
    (let stored = (case rp_descriptors p key of None \<Rightarrow> [] | Some d \<Rightarrow> d);
         n = min (length stored) (length data)
     in if take n stored \<noteq> take n data then Inl Conflicting_Descriptors
        else Inr (p\<lparr>rp_descriptors := (rp_descriptors p)
               (key \<mapsto> (if length data > length stored then data else stored))\<rparr>))"

definition load_control :: "'j json_library \<Rightarrow> 'j \<Rightarrow> replay_profile \<Rightarrow> replay_error + replay_profile" where
  "load_control L r p =
    andthen (member_string L r ''status'') (\<lambda>status.
    if status \<noteq> ''ack'' then Inr p
    else andthen (thrown (jl_get L r ''setup'')) (\<lambda>s.
    andthen (member_int L s ''type'') (\<lambda>ty.
    if ty \<noteq> 0x80 \<and> ty \<noteq> 0x81 then Inr p
    else andthen (member_int L s ''request'') (\<lambda>request.
    if request \<noteq> 6 then Inr p
    else andthen (member_string L r ''data'') (\<lambda>text.
    andthen (unhex text) (\<lambda>data.
    andthen (member_int L s ''value'') (\<lambda>v.
    andthen (member_int L s ''index'') (\<lambda>i.
    store_descriptor (ty, v, i) data p))))))))"

definition load_record ::
    "'j json_library \<Rightarrow> 'j \<Rightarrow> replay_profile \<times> bool \<Rightarrow> replay_error + (replay_profile \<times> bool)" where
  "load_record L r = (\<lambda>(p, format).
    andthen (member_string L r ''kind'') (\<lambda>kind.
    andthen (if kind = ''format''
             then andthen (member_int L r ''version'') (\<lambda>v.
                    if v \<noteq> 1 then Inl Unsupported_Version else Inr True)
             else Inr format) (\<lambda>format.
    andthen (if kind = ''speed''
             then andthen (member_int L r ''value'') (\<lambda>v. Inr (p\<lparr>rp_speed := v\<rparr>))
             else Inr p) (\<lambda>p.
    andthen (if kind = ''mouse_report''
             then andthen (member_string L r ''data'') (\<lambda>text.
                  andthen (unhex text) (\<lambda>data.
                  andthen (member_int L r ''endpoint'') (\<lambda>e.
                  Inr (p\<lparr>rp_samples := (rp_samples p)(e \<mapsto> data)\<rparr>))))
             else Inr p) (\<lambda>p.
    if kind \<noteq> ''control'' then Inr (p, format)
    else andthen (load_control L r p) (\<lambda>p. Inr (p, format)))))))"

definition MAX_CAPTURE :: nat where
  "MAX_CAPTURE = 16777216"

definition MAX_LINE :: nat where
  "MAX_LINE = 32768"

fun load_lines ::
    "'j json_library \<Rightarrow> (nat \<times> 'j option) list \<Rightarrow> nat \<Rightarrow> replay_profile \<times> bool
     \<Rightarrow> replay_error + (replay_profile \<times> bool)" where
  "load_lines L [] so_far st = Inr st"
| "load_lines L ((n, parsed) # ls) so_far st =
    (let so_far = so_far + n in
     if so_far > MAX_CAPTURE \<or> n > MAX_LINE then Inl Capture_Too_Large
     else case parsed of
       None \<Rightarrow> Inl Invalid_Json
     | Some r \<Rightarrow> andthen (load_record L r st) (load_lines L ls so_far))"

subsection \<open>The configuration descriptor\<close>

definition le16 :: "bytes \<Rightarrow> nat \<Rightarrow> nat" where
  "le16 bs k = unat (bs ! k) + 256 * unat (bs ! (k + 1))"

text \<open>
  The locals of the walk: the interfaces (\<open>iface\<close> points to the last one), the endpoints, the
  maps \<open>expected\<close> and \<open>actual\<close>, and the addresses seen.
\<close>

record config_walk =
  cw_interfaces :: "replay_interface list"
  cw_endpoints :: "replay_endpoint list"
  cw_expected :: "nat \<rightharpoonup> nat"
  cw_actual :: "nat \<Rightarrow> nat"
  cw_addresses :: "nat list"

definition walk_start :: config_walk where
  "walk_start = \<lparr>cw_interfaces = [], cw_endpoints = [], cw_expected = Map.empty,
     cw_actual = (\<lambda>_. 0), cw_addresses = []\<rparr>"

definition walk_interface :: "bytes \<Rightarrow> config_walk \<Rightarrow> replay_error + config_walk" where
  "walk_interface b w =
    (if length b \<noteq> 9 \<or> b ! 3 \<noteq> 0 \<or> b ! 5 \<noteq> 3 \<or> cw_expected w (unat (b ! 2)) \<noteq> None then Inl Not_Hid_Only
     else Inr (w\<lparr>cw_interfaces := cw_interfaces w @ [\<lparr>ri_number = unat (b ! 2), ri_subclass = unat (b ! 6),
                   ri_protocol = unat (b ! 7), ri_hid = [], ri_report = []\<rparr>],
                 cw_expected := (cw_expected w)(unat (b ! 2) \<mapsto> unat (b ! 4))\<rparr>))"

definition walk_hid :: "bytes \<Rightarrow> config_walk \<Rightarrow> replay_error + config_walk" where
  "walk_hid b w =
    (if cw_interfaces w = [] \<or> length b < 9 then Inl Invalid_Hid
     else Inr (w\<lparr>cw_interfaces := butlast (cw_interfaces w) @ [(last (cw_interfaces w))\<lparr>ri_hid := b\<rparr>]\<rparr>))"

definition walk_endpoint :: "bytes \<Rightarrow> config_walk \<Rightarrow> replay_error + config_walk" where
  "walk_endpoint b w =
    (if cw_interfaces w = [] \<or> length b \<noteq> 7 \<or> (b ! 3 AND 3) \<noteq> 3 \<or> (b ! 2 AND 15) = 0
        \<or> unat (b ! 2) \<in> set (cw_addresses w) then Inl Not_Interrupt
     else if le16 b 4 < 1 \<or> le16 b 4 > 1024 \<or> b ! 6 = 0 then Inl Invalid_Limits
     else let n = ri_number (last (cw_interfaces w))
     in Inr (w\<lparr>cw_addresses := unat (b ! 2) # cw_addresses w,
               cw_actual := (cw_actual w)(n := cw_actual w n + 1),
               cw_endpoints := cw_endpoints w @ [\<lparr>re_interface = n, re_descriptor = b\<rparr>]\<rparr>))"

definition walk_block :: "bytes \<Rightarrow> config_walk \<Rightarrow> replay_error + config_walk" where
  "walk_block b w =
    (if b ! 1 = 4 then walk_interface b w
     else if b ! 1 = 0x21 then walk_hid b w
     else if b ! 1 = 5 then walk_endpoint b w
     else Inr w)"

text \<open>The loop: each block is at least two bytes long, so the rest of the descriptor shrinks.\<close>

function walk_config :: "bytes \<Rightarrow> config_walk \<Rightarrow> replay_error + config_walk" where
  "walk_config [] w = Inr w"
| "walk_config (b # bs) w =
    (let size = unat b in
     if size < 2 \<or> size > length (b # bs) then Inl Invalid_Block
     else andthen (walk_block (take size (b # bs)) w) (walk_config (drop size (b # bs))))"
  by pat_completeness auto
termination
  by (relation "measure (\<lambda>(bs, w). length bs)") auto

declare walk_config.simps(2) [simp del]

subsection \<open>Interfaces\<close>

text \<open>The report length a HID descriptor announces: the last of its report entries.\<close>

definition hid_report_length :: "bytes \<Rightarrow> nat" where
  "hid_report_length h =
    fold (\<lambda>k len. if h ! k = 0x22 then le16 h (k + 1) else len)
      (filter (\<lambda>k. k + 2 < length h) (map (\<lambda>i. 6 + 3 * i) [0..<length h])) 0"

definition mouse_inputs :: "replay_interface \<Rightarrow> replay_endpoint list \<Rightarrow> replay_endpoint list" where
  "mouse_inputs i es =
    filter (\<lambda>e. re_interface e = ri_number i \<and> (re_descriptor e ! 2 AND 0x80) \<noteq> 0) es"

definition check_mouse :: "mouse_profile list \<Rightarrow> replay_endpoint list \<Rightarrow> replay_error + unit" where
  "check_mouse profiles inputs =
    (if length inputs \<noteq> 1 then Inl Ambiguous_Mouse
     else if list_ex (\<lambda>e. list_ex (\<lambda>m. mp_size m > le16 (re_descriptor e) 4) profiles) inputs
     then Inl Report_Too_Long else Inr ())"

definition load_interface ::
    "config_walk \<Rightarrow> replay_interface \<Rightarrow> replay_profile \<times> bool \<Rightarrow> replay_error + (replay_profile \<times> bool)" where
  "load_interface w i = (\<lambda>(p, mouse).
    case rp_descriptors p (0x81, 0x2200, int (ri_number i)) of
      None \<Rightarrow> Inl Incomplete_Interface
    | Some report \<Rightarrow>
        if length (ri_hid i) < 9 \<or> report = []
           \<or> the (cw_expected w (ri_number i)) \<noteq> cw_actual w (ri_number i) then Inl Incomplete_Interface
        else if length report \<noteq> hid_report_length (ri_hid i) then Inl Truncated_Report
        else let profiles = parse_mouse_descriptor report
        in andthen (if profiles \<noteq> [] then check_mouse profiles (mouse_inputs i (cw_endpoints w)) else Inr ())
             (\<lambda>_. Inr (p\<lparr>rp_interfaces := rp_interfaces p @ [i\<lparr>ri_report := report\<rparr>],
                         rp_descriptors := (rp_descriptors p)((0x81, 0x2100, int (ri_number i)) \<mapsto> ri_hid i)\<rparr>,
                       mouse \<or> profiles \<noteq> [])))"

fun load_interfaces ::
    "config_walk \<Rightarrow> replay_interface list \<Rightarrow> replay_profile \<times> bool \<Rightarrow> replay_error + (replay_profile \<times> bool)" where
  "load_interfaces w [] st = Inr st"
| "load_interfaces w (i # is) st = andthen (load_interface w i st) (load_interfaces w is)"

text \<open>What \<open>load\<close> does after the last line.\<close>

definition device_ok :: "bytes \<Rightarrow> bool" where
  "device_ok d \<longleftrightarrow> length d = 18 \<and> d ! 0 = 18 \<and> d ! 1 = 1 \<and> d ! 17 = 1"

definition config_ok :: "bytes \<Rightarrow> bool" where
  "config_ok c \<longleftrightarrow> length c \<ge> 9 \<and> c ! 0 = 9 \<and> c ! 1 = 2 \<and> c ! 5 \<noteq> 0 \<and> le16 c 2 = length c"

definition finish_load :: "replay_profile \<times> bool \<Rightarrow> replay_error + replay_profile" where
  "finish_load = (\<lambda>(p, format).
    if \<not> format then Inl Missing_Format
    else case rp_descriptors p (0x80, 0x100, 0) of None \<Rightarrow> Inl Incomplete_Device | Some device \<Rightarrow>
    if \<not> device_ok device then Inl Incomplete_Device
    else case rp_descriptors p (0x80, 0x200, 0) of None \<Rightarrow> Inl Incomplete_Configuration | Some config \<Rightarrow>
    if \<not> config_ok config then Inl Incomplete_Configuration
    else andthen (walk_config (drop 9 config) walk_start) (\<lambda>w.
    let p = p\<lparr>rp_device := device, rp_config := config, rp_endpoints := cw_endpoints w\<rparr> in
    if length (cw_interfaces w) \<noteq> unat (config ! 4) then Inl Interface_Count
    else andthen (load_interfaces w (cw_interfaces w) (p, False)) (\<lambda>(p, mouse).
    if \<not> mouse then Inl No_Mouse
    else if rp_speed p < 1 \<or> rp_speed p > 3 then Inl Invalid_Speed
    else Inr p)))"

definition load_profile :: "'j json_library \<Rightarrow> (nat \<times> 'j option) list \<Rightarrow> replay_error + replay_profile" where
  "load_profile L ls = andthen (load_lines L ls 0 (no_replay, False)) finish_load"

end
