(* ===== verification/Replay_Facts.thy ===== *)
theory Replay_Facts
  imports Replay_Profile
begin

text \<open>
  Facts about recordings: hexadecimal text is read back, the descriptor table holds the longest
  reply seen for each request and every other reply is a prefix of it, and a profile that
  loads is one the replaying program can use.
\<close>

subsection \<open>Hexadecimal text\<close>

lemma hex_value_digit [simp]:
  assumes "n < 16"
  shows "hex_value (hex_digits ! n) = Some n"
proof -
  have "list_all (\<lambda>k. hex_value (hex_digits ! k) = Some k) [0..<16]" by code_simp
  with assms show ?thesis by (simp add: list_all_iff)
qed

lemma nibbles: "of_nat (unat (drop_bit 4 b) * 16 + unat (b AND 15)) = (b :: u8)"
proof -
  have "of_nat (unat (drop_bit 4 b) * 16 + unat (b AND 15)) = push_bit 4 (drop_bit 4 b) + (b AND 15)"
    by (simp add: push_bit_eq_mult mult.commute)
  also have "\<dots> = push_bit 4 (drop_bit 4 b) + take_bit 4 b" by (simp add: take_bit_eq_mask mask_eq_decr_exp)
  also have "\<dots> = b" using bits_ident [of 4 b] by simp
  finally show ?thesis .
qed

lemma nibble_bounds [simp]: "unat (drop_bit 4 (b :: u8)) < 16" "unat (b AND 15) < 16"
proof -
  have "unat b < 2 ^ LENGTH(8)" by (rule unsigned_less)
  then show "unat (drop_bit 4 b) < 16" by (simp add: drop_bit_eq_div unat_div)
  have "b AND 15 \<le> 15" by (rule word_and_le1)
  then show "unat (b AND 15) < 16" by (simp add: word_le_nat_alt)
qed

lemma unhex_loop_hex [simp]: "unhex_loop (hex data) = Some data"
proof (induction data)
  case Nil
  then show ?case by (simp add: hex_def)
next
  case (Cons b data)
  then show ?case using nibbles [of b] by (simp add: hex_Cons)
qed

lemma unhex_hex: "length data \<le> 4096 \<Longrightarrow> unhex (hex data) = Inr data"
  by (simp add: unhex_def)

subsection \<open>The descriptor table\<close>

text \<open>The descriptor reply a line holds, and the laws of the table.\<close>

definition reply_of :: "'j json_library \<Rightarrow> 'j \<Rightarrow> (descriptor_key \<times> bytes) option" where
  "reply_of L r =
    (if member_string L r ''kind'' \<noteq> Inr ''control'' \<or> member_string L r ''status'' \<noteq> Inr ''ack'' then None
     else case jl_get L r ''setup'' of
       None \<Rightarrow> None
     | Some s \<Rightarrow>
         (case (member_int L s ''type'', member_int L s ''request'', member_int L s ''value'', member_int L s ''index'',
                andthen (member_string L r ''data'') unhex) of
            (Inr ty, Inr request, Inr v, Inr i, Inr data) \<Rightarrow>
              if (ty = 0x80 \<or> ty = 0x81) \<and> request = 6 then Some ((ty, v, i), data) else None
          | _ \<Rightarrow> None))"

definition is_prefix :: "'a list \<Rightarrow> 'a list \<Rightarrow> bool" where
  "is_prefix xs ys \<longleftrightarrow> take (length xs) ys = xs"

lemma is_prefix_refl [simp]: "is_prefix xs xs"
  by (simp add: is_prefix_def)

lemma is_prefix_trans: "is_prefix xs ys \<Longrightarrow> is_prefix ys zs \<Longrightarrow> is_prefix xs zs"
  unfolding is_prefix_def by (metis min.absorb1 nat_le_linear take_all take_take)

lemma store_descriptor_Inr:
  assumes "store_descriptor key data p = Inr p'"
  obtains d where "rp_descriptors p' = (rp_descriptors p)(key \<mapsto> d)" "is_prefix data d"
    "\<And>d0. rp_descriptors p key = Some d0 \<Longrightarrow> is_prefix d0 d" "d = data \<or> rp_descriptors p key = Some d"
    "p' = p\<lparr>rp_descriptors := rp_descriptors p'\<rparr>"
proof -
  define old where "old = (case rp_descriptors p key of None \<Rightarrow> [] | Some d \<Rightarrow> d)"
  define new where "new = (if length data > length old then data else old)"
  have s: "take (min (length old) (length data)) old = take (min (length old) (length data)) data"
    "p' = p\<lparr>rp_descriptors := (rp_descriptors p)(key \<mapsto> new)\<rparr>"
    using assms by (auto simp: store_descriptor_def Let_def old_def new_def split: if_splits)
  have "is_prefix data new" "is_prefix old new"
    using s(1) by (auto simp: is_prefix_def min_def new_def split: if_splits)
  moreover have "new = data \<or> rp_descriptors p key = Some new"
    by (cases "rp_descriptors p key") (auto simp: new_def old_def)
  moreover have "is_prefix d0 new" if "rp_descriptors p key = Some d0" for d0
    using calculation(2) that by (simp add: old_def)
  moreover have "p' = p\<lparr>rp_descriptors := rp_descriptors p'\<rparr>" using s(2) by simp
  ultimately show thesis using s(2) by (intro that [of new]) simp_all
qed

lemma load_control_Inr:
  assumes "load_control L r p = Inr p'" and "member_string L r ''kind'' = Inr ''control''"
  shows "(case reply_of L r of None \<Rightarrow> p' = p | Some (key, data) \<Rightarrow> store_descriptor key data p = Inr p')"
  using assms
  by (auto simp: load_control_def reply_of_def andthen_Inr split: if_splits option.splits sum.splits)

text \<open>What one line does to the table.\<close>

lemma load_record_table:
  assumes "load_record L r (p, f) = Inr (p', f')"
  shows "\<exists>q. rp_descriptors q = rp_descriptors p
    \<and> (case reply_of L r of None \<Rightarrow> rp_descriptors p' = rp_descriptors p
       | Some (key, data) \<Rightarrow> store_descriptor key data q = Inr p')"
proof -
  obtain kind where k: "member_string L r ''kind'' = Inr kind"
    using assms by (auto simp: load_record_def andthen_Inr)
  show ?thesis
  proof (cases "kind = ''control''")
    case True
    then have "load_control L r p = Inr p'" using assms k by (auto simp: load_record_def andthen_Inr)
    from load_control_Inr [OF this] k True show ?thesis
      by (intro exI [of _ p]) (auto split: option.splits)
  next
    case False
    then have "reply_of L r = None" using k by (simp add: reply_of_def)
    moreover have "rp_descriptors p' = rp_descriptors p"
      using assms k False by (auto simp: load_record_def andthen_Inr split: if_splits)
    ultimately show ?thesis by auto
  qed
qed

definition replies_in :: "'j json_library \<Rightarrow> (nat \<times> 'j option) list \<Rightarrow> (descriptor_key \<times> bytes) set" where
  "replies_in L ls = {reply. \<exists>n r. (n, Some r) \<in> set ls \<and> reply_of L r = Some reply}"

lemma load_lines_table:
  assumes "load_lines L ls so_far (p, f) = Inr (p', f')"
  shows "(\<forall>key d. rp_descriptors p key = Some d \<longrightarrow> (\<exists>d'. rp_descriptors p' key = Some d' \<and> is_prefix d d'))
    \<and> (\<forall>(key, data)\<in>replies_in L ls. \<exists>d. rp_descriptors p' key = Some d \<and> is_prefix data d)
    \<and> (\<forall>key d. rp_descriptors p' key = Some d \<longrightarrow> rp_descriptors p key = Some d \<or> (key, d) \<in> replies_in L ls)"
  using assms
proof (induction ls arbitrary: so_far p f)
  case Nil
  then show ?case by (auto simp: replies_in_def)
next
  case (Cons l ls)
  obtain n r where l: "l = (n, Some r)"
    using Cons.prems by (cases l; cases "snd l") (auto simp: Let_def split: if_splits)
  obtain p1 f1 where s: "load_record L r (p, f) = Inr (p1, f1)" "load_lines L ls (so_far + n) (p1, f1) = Inr (p', f')"
    using Cons.prems l by (auto simp: Let_def andthen_Inr split: if_splits)
  note IH = Cons.IH [OF s(2)]
  obtain q where q: "rp_descriptors q = rp_descriptors p"
    "case reply_of L r of None \<Rightarrow> rp_descriptors p1 = rp_descriptors p
       | Some (key, data) \<Rightarrow> store_descriptor key data q = Inr p1"
    using load_record_table [OF s(1)] by blast
  have split: "replies_in L (l # ls) = (case reply_of L r of None \<Rightarrow> {} | Some x \<Rightarrow> {x}) \<union> replies_in L ls"
    by (force simp: l replies_in_def split: option.splits)
  show ?case
  proof (cases "reply_of L r")
    case None
    then have "rp_descriptors p1 = rp_descriptors p" using q(2) by simp
    then show ?thesis using IH by (simp add: split None)
  next
    case (Some x)
    obtain key data where x: "x = (key, data)" by (cases x)
    then have "store_descriptor key data q = Inr p1" using q(2) Some by simp
    then obtain d where d: "rp_descriptors p1 = (rp_descriptors p)(key \<mapsto> d)" "is_prefix data d"
      "\<And>d0. rp_descriptors p key = Some d0 \<Longrightarrow> is_prefix d0 d" "d = data \<or> rp_descriptors p key = Some d"
      by (rule store_descriptor_Inr) (auto simp: q(1))
    have grow: "\<exists>d'. rp_descriptors p' k = Some d' \<and> is_prefix e d'" if "rp_descriptors p1 k = Some e" for k e
      using IH that by blast
    have "\<exists>d'. rp_descriptors p' k = Some d' \<and> is_prefix e d'" if "rp_descriptors p k = Some e" for k e
    proof (cases "k = key")
      case True
      then show ?thesis using grow [of key d] d(1) d(3) [of e] that is_prefix_trans by fastforce
    qed (use grow [of k e] d(1) that in simp)
    moreover have "\<exists>d'. rp_descriptors p' key = Some d' \<and> is_prefix data d'"
      using grow [of key d] d(1,2) is_prefix_trans by fastforce
    moreover have "rp_descriptors p k = Some e \<or> (k, e) \<in> replies_in L (l # ls)"
      if "rp_descriptors p' k = Some e" for k e
    proof -
      have "rp_descriptors p1 k = Some e \<or> (k, e) \<in> replies_in L ls" using IH that by blast
      then show ?thesis using d(1,4) by (auto simp: split Some x split: if_splits)
    qed
    ultimately show ?thesis using IH by (auto simp: split Some x)
  qed
qed

subsection \<open>The configuration descriptor\<close>

definition endpoint_address :: "replay_endpoint \<Rightarrow> nat" where
  "endpoint_address e = unat (re_descriptor e ! 2)"

definition endpoint_ok :: "replay_endpoint \<Rightarrow> bool" where
  "endpoint_ok e \<longleftrightarrow> length (re_descriptor e) = 7 \<and> (re_descriptor e ! 2 AND 15) \<noteq> 0
     \<and> (re_descriptor e ! 3 AND 3) = 3 \<and> 1 \<le> le16 (re_descriptor e) 4 \<and> le16 (re_descriptor e) 4 \<le> 1024
     \<and> re_descriptor e ! 6 \<noteq> 0"

definition walk_ok :: "config_walk \<Rightarrow> bool" where
  "walk_ok w \<longleftrightarrow> distinct (map ri_number (cw_interfaces w))
     \<and> dom (cw_expected w) = set (map ri_number (cw_interfaces w))
     \<and> (\<forall>e\<in>set (cw_endpoints w). endpoint_ok e \<and> re_interface e \<in> set (map ri_number (cw_interfaces w)))
     \<and> distinct (map endpoint_address (cw_endpoints w))
     \<and> cw_addresses w = rev (map endpoint_address (cw_endpoints w))
     \<and> (\<forall>n. cw_actual w n = length (filter (\<lambda>e. re_interface e = n) (cw_endpoints w)))"

lemma walk_start_ok [simp]: "walk_ok walk_start"
  by (simp add: walk_ok_def walk_start_def)

lemma map_butlast_last: "xs \<noteq> [] \<Longrightarrow> f y = f (last xs) \<Longrightarrow> map f (butlast xs @ [y]) = map f xs"
  by (cases xs rule: rev_cases) simp_all

lemma walk_ok_interfaces:
  "map ri_number xs = map ri_number (cw_interfaces w) \<Longrightarrow> walk_ok (w\<lparr>cw_interfaces := xs\<rparr>) = walk_ok w"
  by (simp add: walk_ok_def del: set_map)

lemma walk_block_ok:
  assumes "walk_ok w" and "walk_block b w = Inr w'"
  shows "walk_ok w'"
proof -
  have "walk_interface b w = Inr w' \<or> walk_hid b w = Inr w' \<or> walk_endpoint b w = Inr w' \<or> w' = w"
    using assms(2) unfolding walk_block_def by (simp split: if_split_asm)
  then consider (interface) "walk_interface b w = Inr w'" | (hid) "walk_hid b w = Inr w'"
    | (endpoint) "walk_endpoint b w = Inr w'" | (other) "w' = w" by blast
  then show ?thesis
  proof cases
    case interface
    then have i: "cw_expected w (unat (b ! 2)) = None"
      "w' = w\<lparr>cw_interfaces := cw_interfaces w @ [\<lparr>ri_number = unat (b ! 2), ri_subclass = unat (b ! 6),
                   ri_protocol = unat (b ! 7), ri_hid = [], ri_report = []\<rparr>],
                 cw_expected := (cw_expected w)(unat (b ! 2) \<mapsto> unat (b ! 4))\<rparr>"
      unfolding walk_interface_def by (simp_all split: if_split_asm)
    have "unat (b ! 2) \<notin> set (map ri_number (cw_interfaces w))" using assms(1) i(1) by (metis domIff walk_ok_def)
    then show ?thesis using assms(1) by (simp add: walk_ok_def i(2))
  next
    case hid
    then have "cw_interfaces w \<noteq> []"
      "w' = w\<lparr>cw_interfaces := butlast (cw_interfaces w) @ [(last (cw_interfaces w))\<lparr>ri_hid := b\<rparr>]\<rparr>"
      by (auto simp: walk_hid_def split: if_splits)
    moreover from this(1) have "map ri_number (butlast (cw_interfaces w) @ [(last (cw_interfaces w))\<lparr>ri_hid := b\<rparr>])
        = map ri_number (cw_interfaces w)" by (intro map_butlast_last) simp_all
    ultimately show ?thesis using assms(1) by (simp only: walk_ok_interfaces)
  next
    case endpoint
    let ?e = "\<lparr>re_interface = ri_number (last (cw_interfaces w)), re_descriptor = b\<rparr>"
    have e: "cw_interfaces w \<noteq> []" "endpoint_ok ?e" "endpoint_address ?e \<notin> set (cw_addresses w)"
      and w': "w' = w\<lparr>cw_addresses := endpoint_address ?e # cw_addresses w,
        cw_actual := (cw_actual w)(re_interface ?e := cw_actual w (re_interface ?e) + 1),
        cw_endpoints := cw_endpoints w @ [?e]\<rparr>"
      using endpoint by (auto simp: walk_endpoint_def endpoint_ok_def endpoint_address_def Let_def split: if_splits)
    have "re_interface ?e \<in> set (map ri_number (cw_interfaces w))" using e(1) by simp
    then show ?thesis using assms(1) e by (simp add: walk_ok_def w')
  qed (use assms in simp)
qed

lemma walk_config_ok: "walk_config bs w = Inr w' \<Longrightarrow> walk_ok w \<Longrightarrow> walk_ok w'"
proof (induction bs w rule: walk_config.induct)
  case (2 b bs w)
  then show ?case by (auto simp: walk_config.simps(2) Let_def andthen_Inr walk_block_ok split: if_splits)
qed simp

text \<open>The blocks of a descriptor, cut by their length bytes; \<open>None\<close> where one does not fit.\<close>

function blocks_of :: "bytes \<Rightarrow> bytes list option" where
  "blocks_of [] = Some []"
| "blocks_of (b # bs) =
    (if unat b < 2 \<or> unat b > length (b # bs) then None
     else map_option (Cons (take (unat b) (b # bs))) (blocks_of (drop (unat b) (b # bs))))"
  by pat_completeness auto
termination
  by (relation "measure length") auto

declare blocks_of.simps(2) [simp del]

fun walk_blocks :: "bytes list \<Rightarrow> config_walk \<Rightarrow> replay_error + config_walk" where
  "walk_blocks [] w = Inr w"
| "walk_blocks (b # bs) w = andthen (walk_block b w) (walk_blocks bs)"

lemma blocks_of_concat: "blocks_of bs = Some xs \<Longrightarrow> concat xs = bs"
proof (induction bs arbitrary: xs rule: blocks_of.induct)
  case (2 b bs)
  then show ?case by (auto simp: blocks_of.simps(2) split: if_splits)
qed simp

lemma walk_config_blocks:
  "walk_config bs w = Inr w' \<longleftrightarrow> (\<exists>xs. blocks_of bs = Some xs \<and> walk_blocks xs w = Inr w')"
proof (induction bs w rule: walk_config.induct)
  case (2 b bs w)
  show ?case
  proof (cases "unat b < 2 \<or> unat b > length (b # bs)")
    case False
    note IH = "2.IH" [OF refl False]
    have "walk_config (b # bs) w = Inr w' \<longleftrightarrow> (\<exists>w1. walk_block (take (unat b) (b # bs)) w = Inr w1
        \<and> walk_config (drop (unat b) (b # bs)) w1 = Inr w')"
      unfolding walk_config.simps(2) Let_def if_not_P [OF False] andthen_Inr ..
    also have "\<dots> \<longleftrightarrow> (\<exists>w1. walk_block (take (unat b) (b # bs)) w = Inr w1
        \<and> (\<exists>xs. blocks_of (drop (unat b) (b # bs)) = Some xs \<and> walk_blocks xs w1 = Inr w'))"
      using IH by blast
    also have "\<dots> \<longleftrightarrow> (\<exists>xs. blocks_of (b # bs) = Some xs \<and> walk_blocks xs w = Inr w')"
      unfolding blocks_of.simps(2) if_not_P [OF False] by (auto simp: andthen_Inr)
    finally show ?thesis .
  qed (auto simp: walk_config.simps(2) blocks_of.simps(2))
qed simp

subsection \<open>The loaded profile\<close>

definition interface_ok :: "replay_profile \<Rightarrow> replay_interface \<Rightarrow> bool" where
  "interface_ok p i \<longleftrightarrow> length (ri_hid i) \<ge> 9 \<and> ri_report i \<noteq> []
     \<and> length (ri_report i) = hid_report_length (ri_hid i)
     \<and> rp_descriptors p (0x81, 0x2200, int (ri_number i)) = Some (ri_report i)
     \<and> rp_descriptors p (0x81, 0x2100, int (ri_number i)) = Some (ri_hid i)"

definition mouse_ok :: "replay_profile \<Rightarrow> replay_interface \<Rightarrow> bool" where
  "mouse_ok p i \<longleftrightarrow> (parse_mouse_descriptor (ri_report i) \<noteq> [] \<longrightarrow>
     (\<exists>e. mouse_inputs i (rp_endpoints p) = [e]
        \<and> (\<forall>m\<in>set (parse_mouse_descriptor (ri_report i)). mp_size m \<le> le16 (re_descriptor e) 4)))"

definition replay_ok :: "replay_profile \<Rightarrow> bool" where
  "replay_ok p \<longleftrightarrow> device_ok (rp_device p) \<and> config_ok (rp_config p)
     \<and> length (rp_interfaces p) = unat (rp_config p ! 4) \<and> distinct (map ri_number (rp_interfaces p))
     \<and> (\<forall>e\<in>set (rp_endpoints p). endpoint_ok e \<and> re_interface e \<in> set (map ri_number (rp_interfaces p)))
     \<and> distinct (map endpoint_address (rp_endpoints p))
     \<and> (\<forall>i\<in>set (rp_interfaces p). interface_ok p i \<and> mouse_ok p i)
     \<and> (\<exists>i\<in>set (rp_interfaces p). parse_mouse_descriptor (ri_report i) \<noteq> [])
     \<and> 1 \<le> rp_speed p \<and> rp_speed p \<le> 3"

lemma load_interface_Inr:
  assumes "load_interface w i (p, mouse) = Inr (p', mouse')"
  obtains report where "rp_descriptors p (0x81, 0x2200, int (ri_number i)) = Some report"
    "p' = p\<lparr>rp_interfaces := rp_interfaces p @ [i\<lparr>ri_report := report\<rparr>],
       rp_descriptors := (rp_descriptors p)((0x81, 0x2100, int (ri_number i)) \<mapsto> ri_hid i)\<rparr>"
    "length (ri_hid i) \<ge> 9" "report \<noteq> []" "length report = hid_report_length (ri_hid i)"
    "mouse' \<longleftrightarrow> mouse \<or> parse_mouse_descriptor report \<noteq> []"
    "parse_mouse_descriptor report \<noteq> [] \<Longrightarrow>
       check_mouse (parse_mouse_descriptor report) (mouse_inputs i (cw_endpoints w)) = Inr ()"
proof -
  from assms obtain report where r: "rp_descriptors p (0x81, 0x2200, int (ri_number i)) = Some report"
    by (auto simp: load_interface_def split: option.splits)
  with assms show thesis
    by (intro that [of report]) (auto simp: load_interface_def Let_def andthen_Inr split: if_splits)
qed

lemma check_mouse_Inr:
  "check_mouse ms es = Inr u \<Longrightarrow> \<exists>e. es = [e] \<and> (\<forall>m\<in>set ms. mp_size m \<le> le16 (re_descriptor e) 4)"
  by (auto simp: check_mouse_def length_Suc_conv list_ex_iff split: if_splits)

text \<open>What the loop keeps of the interfaces it has passed.\<close>

definition loaded :: "replay_profile \<Rightarrow> bool \<Rightarrow> bool" where
  "loaded p mouse \<longleftrightarrow> (\<forall>i\<in>set (rp_interfaces p). interface_ok p i \<and> mouse_ok p i)
     \<and> (mouse \<longrightarrow> (\<exists>i\<in>set (rp_interfaces p). parse_mouse_descriptor (ri_report i) \<noteq> []))"

lemma load_interface_keeps:
  assumes "load_interface w i (p, mouse) = Inr (p', mouse')" and "loaded p mouse"
    and "rp_endpoints p = cw_endpoints w" and "ri_number i \<notin> set (map ri_number (rp_interfaces p))"
  shows "loaded p' mouse' \<and> rp_endpoints p' = rp_endpoints p
    \<and> map ri_number (rp_interfaces p') = map ri_number (rp_interfaces p) @ [ri_number i]
    \<and> rp_device p' = rp_device p \<and> rp_config p' = rp_config p \<and> rp_speed p' = rp_speed p"
proof -
  from load_interface_Inr [OF assms(1)] obtain report where
    r: "rp_descriptors p (0x81, 0x2200, int (ri_number i)) = Some report"
    and p': "p' = p\<lparr>rp_interfaces := rp_interfaces p @ [i\<lparr>ri_report := report\<rparr>],
       rp_descriptors := (rp_descriptors p)((0x81, 0x2100, int (ri_number i)) \<mapsto> ri_hid i)\<rparr>"
    and h: "length (ri_hid i) \<ge> 9" "report \<noteq> []" "length report = hid_report_length (ri_hid i)"
    and m: "mouse' \<longleftrightarrow> mouse \<or> parse_mouse_descriptor report \<noteq> []"
    and c: "parse_mouse_descriptor report \<noteq> [] \<Longrightarrow>
       check_mouse (parse_mouse_descriptor report) (mouse_inputs i (cw_endpoints w)) = Inr ()" by metis
  have new: "interface_ok p' (i\<lparr>ri_report := report\<rparr>)" using r h by (simp add: interface_ok_def p')
  have "mouse_inputs (i\<lparr>ri_report := report\<rparr>) es = mouse_inputs i es" for es by (simp add: mouse_inputs_def)
  then have new': "mouse_ok p' (i\<lparr>ri_report := report\<rparr>)"
    using check_mouse_Inr [OF c] assms(3) by (auto simp: mouse_ok_def p')
  have "interface_ok p' j \<and> mouse_ok p' j" if "j \<in> set (rp_interfaces p)" for j
  proof -
    have "ri_number j \<noteq> ri_number i" using assms(4) that by (metis image_eqI set_map)
    then show ?thesis using assms(2) that by (simp add: loaded_def interface_ok_def mouse_ok_def p')
  qed
  with new new' assms(2) m show ?thesis by (auto simp: loaded_def p')
qed

lemma load_interfaces_keeps:
  assumes "load_interfaces w is (p, mouse) = Inr (p', mouse')" and "loaded p mouse"
    and "rp_endpoints p = cw_endpoints w" and "distinct (map ri_number (rp_interfaces p @ is))"
  shows "loaded p' mouse' \<and> rp_endpoints p' = rp_endpoints p
    \<and> map ri_number (rp_interfaces p') = map ri_number (rp_interfaces p @ is)
    \<and> rp_device p' = rp_device p \<and> rp_config p' = rp_config p \<and> rp_speed p' = rp_speed p"
  using assms
proof (induction "is" arbitrary: p mouse)
  case (Cons i "is")
  from Cons.prems(1) obtain p1 m1 where s: "load_interface w i (p, mouse) = Inr (p1, m1)"
    "load_interfaces w is (p1, m1) = Inr (p', mouse')" by (auto simp: andthen_Inr)
  have k: "loaded p1 m1 \<and> rp_endpoints p1 = rp_endpoints p
    \<and> map ri_number (rp_interfaces p1) = map ri_number (rp_interfaces p) @ [ri_number i]
    \<and> rp_device p1 = rp_device p \<and> rp_config p1 = rp_config p \<and> rp_speed p1 = rp_speed p"
    by (rule load_interface_keeps [OF s(1) Cons.prems(2,3)]) (use Cons.prems(4) in auto)
  have "distinct (map ri_number (rp_interfaces p1 @ is))" using Cons.prems(4) k by simp
  from Cons.IH [OF s(2) _ _ this] k Cons.prems(3) show ?case by simp
qed simp

lemma finish_load_ok:
  assumes "finish_load (p, f) = Inr q" and "rp_interfaces p = []"
  shows "replay_ok q \<and> f"
proof -
  obtain device config w where d: "f" "device_ok device" "config_ok config"
    "walk_config (drop 9 config) walk_start = Inr w" "length (cw_interfaces w) = unat (config ! 4)"
    and l: "andthen (load_interfaces w (cw_interfaces w)
        (p\<lparr>rp_device := device, rp_config := config, rp_endpoints := cw_endpoints w\<rparr>, False))
      (\<lambda>(p, mouse). if \<not> mouse then Inl No_Mouse
        else if rp_speed p < 1 \<or> rp_speed p > 3 then Inl Invalid_Speed else Inr p) = Inr q"
    using assms(1) by (auto simp: finish_load_def andthen_Inr [where r = "walk_config _ _"] Let_def
        split: if_splits option.splits)
  from l obtain mouse where s: "load_interfaces w (cw_interfaces w)
      (p\<lparr>rp_device := device, rp_config := config, rp_endpoints := cw_endpoints w\<rparr>, False) = Inr (q, mouse)"
    "mouse" "1 \<le> rp_speed q" "rp_speed q \<le> 3"
    by (auto simp: andthen_Inr split: if_splits)
  have w: "walk_ok w" using walk_config_ok [OF d(4)] by simp
  from load_interfaces_keeps [OF s(1)] w assms(2)
  have k: "loaded q mouse" "rp_endpoints q = cw_endpoints w" "rp_device q = device" "rp_config q = config"
    "map ri_number (rp_interfaces q) = map ri_number (cw_interfaces w)"
    by (simp_all add: loaded_def walk_ok_def)
  have "length (rp_interfaces q) = unat (config ! 4)" using arg_cong [OF k(5), of length] d(5) by simp
  moreover have "distinct (map endpoint_address (rp_endpoints q))"
    using w k(2) by (simp add: walk_ok_def)
  moreover have "\<forall>e\<in>set (rp_endpoints q). endpoint_ok e \<and> re_interface e \<in> set (map ri_number (rp_interfaces q))"
    using w k(2,5) by (simp add: walk_ok_def)
  moreover have "distinct (map ri_number (rp_interfaces q))" using w k(5) by (simp add: walk_ok_def)
  ultimately show ?thesis using d(1-3) k s(2-4) by (simp add: replay_ok_def loaded_def)
qed

lemma load_lines_interfaces:
  "load_lines L ls so_far (p, f) = Inr (p', f') \<Longrightarrow> rp_interfaces p' = rp_interfaces p"
proof (induction ls arbitrary: so_far p f)
  case (Cons l ls)
  obtain n r where l: "l = (n, Some r)"
    using Cons.prems by (cases l; cases "snd l") (auto simp: Let_def split: if_splits)
  obtain p1 f1 where s: "load_record L r (p, f) = Inr (p1, f1)" "load_lines L ls (so_far + n) (p1, f1) = Inr (p', f')"
    using Cons.prems l by (auto simp: Let_def andthen_Inr split: if_splits)
  have "rp_interfaces p1 = rp_interfaces p"
    using s(1) by (auto simp: load_record_def load_control_def andthen_Inr store_descriptor_def Let_def split: if_splits)
  with Cons.IH [OF s(2)] show ?case by simp
qed simp

lemma load_interfaces_table:
  assumes "load_interfaces w is (p, mouse) = Inr (p', mouse')" and "\<And>n. key \<noteq> (0x81, 0x2100, n)"
  shows "rp_descriptors p' key = rp_descriptors p key"
  using assms(1)
proof (induction "is" arbitrary: p mouse)
  case (Cons i "is")
  from Cons.prems obtain p1 m1 where s: "load_interface w i (p, mouse) = Inr (p1, m1)"
    "load_interfaces w is (p1, m1) = Inr (p', mouse')" by (auto simp: andthen_Inr)
  have "rp_descriptors p1 key = rp_descriptors p key"
    by (rule load_interface_Inr [OF s(1)]) (use assms(2) in simp)
  with Cons.IH [OF s(2)] show ?case by simp
qed simp

lemma finish_load_table:
  assumes "finish_load (p, f) = Inr q" and "\<And>n. key \<noteq> (0x81, 0x2100, n)"
  shows "rp_descriptors q key = rp_descriptors p key"
proof -
  obtain p1 w mouse where "load_interfaces w (cw_interfaces w) (p1, False) = Inr (q, mouse)"
    "rp_descriptors p1 = rp_descriptors p"
    using assms(1) by (auto simp: finish_load_def andthen_Inr Let_def split: if_splits option.splits)
  with load_interfaces_table [OF _ assms(2)] show ?thesis by metis
qed

lemma load_profile_Inr:
  assumes "load_profile L ls = Inr p"
  obtains q f where "load_lines L ls 0 (no_replay, False) = Inr (q, f)" "finish_load (q, f) = Inr p"
    "rp_interfaces q = []"
proof -
  from assms obtain q f where s: "load_lines L ls 0 (no_replay, False) = Inr (q, f)" "finish_load (q, f) = Inr p"
    by (auto simp: load_profile_def andthen_Inr)
  have "rp_interfaces q = []" using load_lines_interfaces [OF s(1)] by (simp add: no_replay_def)
  with s show thesis by (rule that)
qed

lemma load_profile_table:
  assumes "load_profile L ls = Inr p"
  shows "(\<forall>(key, data)\<in>replies_in L ls. fst key = 0x81 \<and> fst (snd key) = 0x2100
      \<or> (\<exists>d. rp_descriptors p key = Some d \<and> is_prefix data d))
    \<and> (\<forall>key d. rp_descriptors p key = Some d \<longrightarrow> fst key = 0x81 \<and> fst (snd key) = 0x2100 \<or> (key, d) \<in> replies_in L ls)"
proof -
  from assms obtain q f where s: "load_lines L ls 0 (no_replay, False) = Inr (q, f)" "finish_load (q, f) = Inr p"
    by (rule load_profile_Inr)
  have same: "rp_descriptors p key = rp_descriptors q key" if "\<not> (fst key = 0x81 \<and> fst (snd key) = 0x2100)" for key
    by (rule finish_load_table [OF s(2)]) (use that in auto)
  have none: "rp_descriptors no_replay key = None" for key by (simp add: no_replay_def)
  note t = load_lines_table [OF s(1)]
  have t1: "\<exists>d. rp_descriptors q key = Some d \<and> is_prefix data d" if "(key, data) \<in> replies_in L ls" for key data
    using bspec [OF t [THEN conjunct2, THEN conjunct1] that] by simp
  have t2: "(key, d) \<in> replies_in L ls" if "rp_descriptors q key = Some d" for key d
    using t [THEN conjunct2, THEN conjunct2, rule_format, OF that] none [of key] by simp
  have "fst key = 0x81 \<and> fst (snd key) = 0x2100 \<or> (\<exists>d. rp_descriptors p key = Some d \<and> is_prefix data d)"
    if "(key, data) \<in> replies_in L ls" for key data
    using t1 [OF that] same [of key] by (cases "fst key = 0x81 \<and> fst (snd key) = 0x2100") simp_all
  moreover have "fst key = 0x81 \<and> fst (snd key) = 0x2100 \<or> (key, d) \<in> replies_in L ls"
    if "rp_descriptors p key = Some d" for key d
    using t2 [of key d] that same [of key] by (cases "fst key = 0x81 \<and> fst (snd key) = 0x2100") simp_all
  ultimately show ?thesis by blast
qed

subsection \<open>The recorder and the loader\<close>

lemmas recorder_defs = record_line_def json_of_kind_def set_int_def set_string_def json_of_setup_def control_line_def

lemma recorded_reply:
  assumes "json_lawful L obj" and "su_type s \<in> {0x80, 0x81}" and "su_request s = 6" and "length data \<le> 4096"
  shows "reply_of L (jl_set L (control_line L (json_of_setup L s) ''ack'' data) ''us'' t)
    = Some ((int (su_type s), int (su_value s), int (su_index s)), data)"
  using assms(2-4)
  by (auto simp: reply_of_def member_string_def member_int_def recorder_defs json_lawfulD [OF assms(1)]
      unhex_hex thrown_def)

lemma event_then_reply:
  assumes "json_lawful L obj" and "rc_enabled rc"
  shows "capture_reply L t2 True status data (capture_event L t1 True ty (Some s) rc)
    = rc\<lparr>rc_pending := jl_null L, rc_lines := rc_lines rc
        @ [jl_set L (jl_set L (set_int L ''type'' (int ty) (json_of_kind L ''event'')) ''setup'' (json_of_setup L s))
             ''us'' (jl_of_int L (t1 - rc_started rc)),
           jl_set L (control_line L (json_of_setup L s) status data) ''us'' (jl_of_int L (t2 - rc_started rc))]\<rparr>"
  using assms(2)
  by (simp add: capture_event_def capture_reply_def record_line_def json_of_setup_def set_int_def
      json_lawfulD [OF assms(1)])

end
