(* ===== verification/Usb_Requests.thy ===== *)
theory Usb_Requests
  imports Proxy_Prelude
begin

text \<open>
  The setup packet of a control transfer (\<open>usb_ctrlrequest\<close>), the standard request codes, and what
  the device answers to one.
\<close>

record control_request =
  ct_type :: u8
  ct_request :: u8
  ct_value :: u16
  ct_index :: u16
  ct_length :: u16

definition USB_REQ_GET_STATUS :: u8 where
  "USB_REQ_GET_STATUS = 0"

definition USB_REQ_CLEAR_FEATURE :: u8 where
  "USB_REQ_CLEAR_FEATURE = 1"

definition USB_REQ_SET_FEATURE :: u8 where
  "USB_REQ_SET_FEATURE = 3"

definition USB_REQ_GET_DESCRIPTOR :: u8 where
  "USB_REQ_GET_DESCRIPTOR = 6"

definition USB_REQ_GET_CONFIGURATION :: u8 where
  "USB_REQ_GET_CONFIGURATION = 8"

definition USB_REQ_SET_CONFIGURATION :: u8 where
  "USB_REQ_SET_CONFIGURATION = 9"

definition USB_REQ_GET_INTERFACE :: u8 where
  "USB_REQ_GET_INTERFACE = 10"

definition USB_REQ_SET_INTERFACE :: u8 where
  "USB_REQ_SET_INTERFACE = 11"

definition USB_DEVICE_REMOTE_WAKEUP :: u16 where
  "USB_DEVICE_REMOTE_WAKEUP = 1"

lemmas usb_requests = USB_REQ_GET_STATUS_def USB_REQ_CLEAR_FEATURE_def USB_REQ_SET_FEATURE_def
  USB_REQ_GET_DESCRIPTOR_def USB_REQ_GET_CONFIGURATION_def USB_REQ_SET_CONFIGURATION_def
  USB_REQ_GET_INTERFACE_def USB_REQ_SET_INTERFACE_def USB_DEVICE_REMOTE_WAKEUP_def

datatype control_reply = Stall | Send bytes | Receive nat

end
