(* ===== verification/Usb_Replay.thy ===== *)
theory Usb_Replay
  imports Replay_Facts Mixer_System Usb_Requests
begin

text \<open>
  \<open>usb_replay.cpp\<close>: the device that answers from a loaded profile. The control thread owns the
  endpoints and the maps \<open>idle\<close> and \<open>protocol\<close>; each mouse endpoint has a writer thread; the
  reports themselves come from the mixer, which the UDP server feeds. The number the kernel gives
  an enabled endpoint is the argument \<open>num\<close>. A control event and each half of a
  writer's round (before and after the write) is one step.
\<close>

record replay_port =
  po_info :: nat
  po_address :: int
  po_interface :: nat
  po_mouse :: bool
  po_profile :: mouse_profile
  po_idle :: nat
  po_last :: transfer_io

record replay_device =
  rd_ports :: "replay_port list"
  rd_idle :: "nat \<Rightarrow> nat"
  rd_protocol :: "nat \<Rightarrow> nat"
  rd_configuration :: nat
  rd_wakeup :: bool
  rd_next :: nat
  rd_mixer :: mixer

definition replay_start :: "mixer \<Rightarrow> replay_device" where
  "replay_start mx = \<lparr>rd_ports = [], rd_idle = (\<lambda>_. 0), rd_protocol = (\<lambda>_. 0), rd_configuration = 0,
     rd_wakeup = False, rd_next = 0, rd_mixer = mx\<rparr>"

subsection \<open>Enabling and disabling\<close>

text \<open>\<open>disable\<close>: every endpoint is unregistered and its thread joined; then the list is cleared.\<close>

definition replay_disable :: "replay_device \<Rightarrow> replay_device" where
  "replay_disable d = d\<lparr>rd_mixer := fold (\<lambda>e. unregister_mouse_endpoint (po_info e)) (rd_ports d) (rd_mixer d),
     rd_ports := [], rd_configuration := 0\<rparr>"

definition learn_step :: "(nat \<Rightarrow> nat) \<Rightarrow> replay_interface \<Rightarrow> mixer \<Rightarrow> mixer" where
  "learn_step protocol i mx =
    set_mouse_protocol (int (ri_number i)) (protocol (ri_number i) = 0)
      (learn_mouse_descriptor (int (ri_number i)) (ri_report i) mx)"

definition replay_poll_us :: "int \<Rightarrow> nat \<Rightarrow> u32" where
  "replay_poll_us speed interval =
    (if speed \<ge> 3 then push_bit (max 1 (min 16 interval) - 1) 125
     else of_nat (max 1 interval) * 1000)"

text \<open>The layout of a mouse endpoint: the one of its sample, the first one, or the boot layout.\<close>

definition port_profile :: "mouse_profile list \<Rightarrow> bytes option \<Rightarrow> bool \<Rightarrow> mouse_profile" where
  "port_profile layouts sample boot =
    (if boot then boot_protocol_profile
     else case sample of None \<Rightarrow> hd layouts
       | Some s \<Rightarrow> (case find (\<lambda>m. matches m s (length s)) layouts of None \<Rightarrow> hd layouts | Some m \<Rightarrow> m))"

definition first_report :: "int \<Rightarrow> mouse_profile \<Rightarrow> bytes option \<Rightarrow> transfer_io" where
  "first_report n m sample =
    (let p = io_data no_io;
         p = (case sample of None \<Rightarrow> p | Some s \<Rightarrow> if matches m s (length s) then blit p 0 s else p);
         p = (if mp_id m \<noteq> 0 then p[0 := of_nat (mp_id m)] else p)
     in no_io\<lparr>io_ep := n, io_length := mp_size m, io_data := snd (encode m no_command p)\<rparr>)"

text \<open>A mouse endpoint gets its layout and its first report, with which the mixer is seeded.\<close>

definition seed_port ::
    "replay_profile \<Rightarrow> replay_interface \<Rightarrow> int \<Rightarrow> replay_port \<times> replay_device \<Rightarrow> replay_port \<times> replay_device" where
  "seed_port p i n = (\<lambda>(e, d).
    let layouts = parse_mouse_descriptor (ri_report i) in
    if ri_number i \<noteq> po_interface e \<or> layouts = [] then (e, d)
    else let sample = rp_samples p (po_address e);
             m = port_profile layouts sample (rd_protocol d (ri_number i) = 0);
             (last, mx) = seed_mouse_report (po_address e) (first_report n m sample) (rd_mixer d)
    in (e\<lparr>po_mouse := True, po_profile := m, po_idle := rd_idle d (ri_number i), po_last := last\<rparr>,
        d\<lparr>rd_mixer := mx\<rparr>))"

definition enable_port :: "(bytes \<Rightarrow> int) \<Rightarrow> replay_profile \<Rightarrow> replay_endpoint \<Rightarrow> replay_device \<Rightarrow> replay_device" where
  "enable_port num p spec d =
    (let desc = re_descriptor spec; info = rd_next d; a = uint (desc ! 2);
         th = fresh_thread (num desc) a (replay_poll_us (rp_speed p) (unat (desc ! 6)));
         mx = rd_mixer d; mx = mx\<lparr>mx_threads := (mx_threads mx)(info := th)\<rparr>;
         e = \<lparr>po_info = info, po_address = a, po_interface = re_interface spec, po_mouse = False,
              po_profile = no_profile, po_idle = 0, po_last = no_io\<rparr>;
         d = d\<lparr>rd_mixer := mx, rd_next := info + 1\<rparr>;
         (e, d) = (if (desc ! 2 AND 0x80) \<noteq> 0
                   then fold (\<lambda>i. seed_port p i (num desc)) (rp_interfaces p)
                          (e, d\<lparr>rd_mixer := register_mouse_endpoint info (int (re_interface spec)) (rd_mixer d)\<rparr>)
                   else (e, d))
     in d\<lparr>rd_ports := rd_ports d @ [e]\<rparr>)"

definition replay_enable :: "(bytes \<Rightarrow> int) \<Rightarrow> replay_profile \<Rightarrow> replay_device \<Rightarrow> replay_device" where
  "replay_enable num p d =
    (let d = d\<lparr>rd_mixer := fold (learn_step (rd_protocol d)) (rp_interfaces p) (rd_mixer d)\<rparr>;
         d = fold (enable_port num p) (rp_endpoints p) d
     in d\<lparr>rd_configuration := unat (rp_config p ! 5)\<rparr>)"

subsection \<open>Control requests\<close>

definition config_byte :: "replay_profile \<Rightarrow> nat \<Rightarrow> u8" where
  "config_byte p k = rp_config p ! k"

definition known_interface :: "replay_profile \<Rightarrow> u16 \<Rightarrow> bool" where
  "known_interface p n = list_ex (\<lambda>i. ri_number i = unat n) (rp_interfaces p)"

definition port_of :: "control_request \<Rightarrow> replay_port \<Rightarrow> bool" where
  "port_of s e \<longleftrightarrow> po_interface e = unat (ct_index s) \<and> po_mouse e"

definition high_byte :: "u16 \<Rightarrow> nat" where
  "high_byte v = unat (drop_bit 8 v)"

definition low_byte :: "u16 \<Rightarrow> nat" where
  "low_byte v = unat (v AND 255)"

text \<open>SET_IDLE, for one report or, with report 0, for all.\<close>

definition set_idle :: "control_request \<Rightarrow> replay_device \<Rightarrow> bytes option \<times> replay_device" where
  "set_idle s d =
    (let all = (low_byte (ct_value s) = 0); n = unat (ct_index s); v = high_byte (ct_value s);
         hit = (\<lambda>e. port_of s e \<and> (all \<or> mp_id (po_profile e) = low_byte (ct_value s)));
         found = list_ex hit (rd_ports d);
         d' = d\<lparr>rd_ports := map (\<lambda>e. if hit e then e\<lparr>po_idle := v\<rparr> else e) (rd_ports d),
                rd_idle := (if found \<or> all then (rd_idle d)(n := v) else rd_idle d)\<rparr>
     in (if found \<or> all then Some [] else None, d'))"

definition get_report :: "control_request \<Rightarrow> replay_device \<Rightarrow> bytes option" where
  "get_report s d =
    (case filter (\<lambda>e. port_of s e \<and> mp_id (po_profile e) = low_byte (ct_value s)) (rd_ports d) of
       [] \<Rightarrow> None
     | es \<Rightarrow> Some (take (io_length (po_last (last es))) (io_data (po_last (last es)))))"

definition set_protocol ::
    "(bytes \<Rightarrow> int) \<Rightarrow> replay_profile \<Rightarrow> control_request \<Rightarrow> replay_device \<Rightarrow> bytes option \<times> replay_device" where
  "set_protocol num p s d =
    (if list_ex (\<lambda>i. ri_number i = unat (ct_index s) \<and> ri_subclass i = 1 \<and> ri_protocol i = 2) (rp_interfaces p)
     then let d = replay_disable d;
              d = d\<lparr>rd_protocol := (rd_protocol d)(unat (ct_index s) := unat (ct_value s))\<rparr>
          in (Some [], replay_enable num p d)
     else (None, d))"

definition hid_request ::
    "(bytes \<Rightarrow> int) \<Rightarrow> replay_profile \<Rightarrow> control_request \<Rightarrow> replay_device \<Rightarrow> bytes option \<times> replay_device" where
  "hid_request num p s d =
    (if ct_type s = 0x21 \<and> ct_request s = 0x0a \<and> ct_length s = 0 then set_idle s d
     else if ct_type s = 0xa1 \<and> ct_request s = 2 \<and> high_byte (ct_value s) = 0
       then (Some [of_nat (rd_idle d (unat (ct_index s)))], d)
     else if ct_type s = 0xa1 \<and> ct_request s = 3 \<and> ct_value s = 0
       then (Some [of_nat (rd_protocol d (unat (ct_index s)))], d)
     else if ct_type s = 0x21 \<and> ct_request s = 0x0b \<and> ct_length s = 0 \<and> ct_value s \<le> 1
       then set_protocol num p s d
     else if ct_type s = 0xa1 \<and> ct_request s = 1 \<and> high_byte (ct_value s) = 1 then (get_report s d, d)
     else (None, d))"

definition get_status :: "replay_profile \<Rightarrow> control_request \<Rightarrow> replay_device \<Rightarrow> bytes option" where
  "get_status p s d =
    (if ct_type s = 0x80 \<and> ct_index s = 0
       then Some [(if (config_byte p 7 AND 0x40) \<noteq> 0 then 1 else 0) OR (if rd_wakeup d then 2 else 0), 0]
     else if ct_type s = 0x81 \<and> rd_configuration d \<noteq> 0 \<and> known_interface p (ct_index s) then Some [0, 0]
     else if ct_type s = 0x82 \<and> list_ex (\<lambda>e. po_address e = uint (ct_index s)) (rd_ports d) then Some [0, 0]
     else None)"

definition set_config ::
    "(bytes \<Rightarrow> int) \<Rightarrow> replay_profile \<Rightarrow> control_request \<Rightarrow> replay_device \<Rightarrow> replay_device" where
  "set_config num p s d =
    (let d = replay_disable d;
         d = d\<lparr>rd_idle := fold (\<lambda>i f. f(ri_number i := 0)) (rp_interfaces p) (rd_idle d),
               rd_protocol := fold (\<lambda>i f. f(ri_number i := 1)) (rp_interfaces p) (rd_protocol d)\<rparr>
     in if ct_value s \<noteq> 0 then replay_enable num p d else d)"

text \<open>The chain of requests: the answer (empty for an OUT request), or \<open>None\<close> for a stall.\<close>

definition replay_request ::
    "(bytes \<Rightarrow> int) \<Rightarrow> replay_profile \<Rightarrow> control_request \<Rightarrow> replay_device \<Rightarrow> bytes option \<times> replay_device" where
  "replay_request num p s d =
    (let active = (rd_configuration d \<noteq> 0); known = known_interface p (ct_index s) in
     if (ct_type s = 0x80 \<or> ct_type s = 0x81) \<and> ct_request s = USB_REQ_GET_DESCRIPTOR
       then (rp_descriptors p (uint (ct_type s), uint (ct_value s), uint (ct_index s)), d)
     else if ct_type s = 0x80 \<and> ct_request s = USB_REQ_GET_CONFIGURATION \<and> ct_value s = 0 \<and> ct_index s = 0
       then (Some [of_nat (rd_configuration d)], d)
     else if ct_type s = 0 \<and> ct_request s = USB_REQ_SET_CONFIGURATION \<and> ct_index s = 0 \<and> ct_length s = 0
        \<and> (ct_value s = 0 \<or> ct_value s = ucast (config_byte p 5))
       then (Some [], set_config num p s d)
     else if ct_type s = 0x81 \<and> ct_request s = USB_REQ_GET_INTERFACE \<and> active \<and> known \<and> ct_value s = 0
       then (Some [0], d)
     else if ct_type s = 1 \<and> ct_request s = USB_REQ_SET_INTERFACE \<and> active \<and> known \<and> ct_value s = 0
        \<and> ct_length s = 0
       then (Some [], d)
     else if ct_request s = USB_REQ_GET_STATUS \<and> ct_value s = 0 \<and> ct_length s = 2
       then (get_status p s d, d)
     else if ct_type s = 0 \<and> ct_value s = USB_DEVICE_REMOTE_WAKEUP \<and> ct_index s = 0 \<and> ct_length s = 0
        \<and> active \<and> (config_byte p 7 AND 0x20) \<noteq> 0
        \<and> (ct_request s = USB_REQ_SET_FEATURE \<or> ct_request s = USB_REQ_CLEAR_FEATURE)
       then (Some [], d\<lparr>rd_wakeup := (ct_request s = USB_REQ_SET_FEATURE)\<rparr>)
     else if active \<and> known \<and> (ct_type s = 0xa1 \<or> ct_type s = 0x21) then hid_request num p s d
     else (None, d))"

definition replay_control ::
    "(bytes \<Rightarrow> int) \<Rightarrow> replay_profile \<Rightarrow> control_request \<Rightarrow> replay_device \<Rightarrow> control_reply \<times> replay_device" where
  "replay_control num p s d =
    (if unat (ct_length s) > MAX_TRANSFER_SIZE then (Stall, d)
     else case replay_request num p s d of
       (None, d) \<Rightarrow> (Stall, d)
     | (Some answer, d) \<Rightarrow>
         (if (ct_type s AND 0x80) \<noteq> 0 then Send (take (unat (ct_length s)) answer)
          else Receive (unat (ct_length s)), d))"

text \<open>A bus reset or a disconnection.\<close>

definition replay_reset :: "replay_device \<Rightarrow> replay_device" where
  "replay_reset d = (replay_disable d)\<lparr>rd_wakeup := False\<rparr>"

subsection \<open>The writer of a mouse endpoint\<close>

text \<open>
  The first half of a round, after the wait: the report to write and whether it only repeats
  the last one, or \<open>None\<close> where the round ends. \<open>io\<close> is the zeroed local.
\<close>

definition port_take :: "replay_port \<Rightarrow> u64 \<Rightarrow> replay_device \<Rightarrow> (transfer_io \<times> bool) option \<times> replay_device" where
  "port_take e now d =
    (let th = mx_threads (rd_mixer d) (po_info e) in
     if po_mouse e \<and> (th_queue th \<noteq> [] \<or> th_pending th = Some True)
     then let (ok, io, mx) = take_mouse_report (po_address e) no_io now (rd_mixer d)
          in (if ok then Some (io, False) else None, d\<lparr>rd_mixer := mx\<rparr>)
     else case th_queue th of
       [] \<Rightarrow> (if po_idle e = 0 \<or> io_length (po_last e) = 0 then None else Some (po_last e, True), d)
     | io # rest \<Rightarrow> (Some (io, False), d\<lparr>rd_mixer := put_queue (po_info e) rest (rd_mixer d)\<rparr>))"

definition keep_last :: "nat \<Rightarrow> transfer_io \<Rightarrow> replay_port list \<Rightarrow> replay_port list" where
  "keep_last info io es = map (\<lambda>e. if po_info e = info
     then e\<lparr>po_last := io\<lparr>io_data := clear_relative (po_profile e) (io_data io)\<rparr>\<rparr> else e) es"

text \<open>
  The second half, with the result of the write; the bytes kept as \<open>last\<close> lose their motion.
  After a failed write the thread ends.
\<close>

definition port_written ::
    "replay_port \<Rightarrow> transfer_io \<Rightarrow> bool \<Rightarrow> int \<Rightarrow> u64 \<Rightarrow> replay_device \<Rightarrow> replay_device" where
  "port_written e io timed result now d =
    (let d = (if po_mouse e \<and> \<not> timed
              then d\<lparr>rd_mixer := notify_mouse_report_written (po_address e) io (result = int (io_length io)) now (rd_mixer d)\<rparr>
              else d)
     in if result < 0 then d
        else d\<lparr>rd_ports := keep_last (po_info e) io (rd_ports d)\<rparr>)"

end
