(* ===== verification/Replay_Example.thy ===== *)
theory Replay_Example
  imports Replay_Facts
begin

text \<open>
  A recording of a three-button wheel mouse: one interface, one interrupt endpoint. The JSON
  library is instantiated by association lists, which meet \<open>json_lawful\<close>.
\<close>

datatype json = J_Null | J_Int int | J_String string | J_Object "(string \<times> json) list" | J_Array "json list" | J_Bool bool

fun json_get :: "json \<Rightarrow> string \<Rightarrow> json option" where
  "json_get (J_Object ms) k = Some (case map_of ms k of None \<Rightarrow> J_Null | Some j \<Rightarrow> j)"
| "json_get J_Null k = Some J_Null"
| "json_get _ k = None"

fun json_set :: "json \<Rightarrow> string \<Rightarrow> json \<Rightarrow> json" where
  "json_set (J_Object ms) k v = J_Object ((k, v) # ms)"
| "json_set _ k v = J_Object [(k, v)]"

fun json_int :: "json \<Rightarrow> int option" where
  "json_int (J_Int n) = Some n"
| "json_int J_Null = Some 0"
| "json_int _ = None"

fun json_string :: "json \<Rightarrow> string option" where
  "json_string (J_String s) = Some s"
| "json_string J_Null = Some []"
| "json_string _ = None"

fun json_bool :: "json \<Rightarrow> bool option" where
  "json_bool (J_Bool b) = Some b"
| "json_bool J_Null = Some False"
| "json_bool _ = None"

fun json_size :: "json \<Rightarrow> nat" where
  "json_size (J_Array js) = length js"
| "json_size (J_Object ms) = length ms"
| "json_size _ = 0"

fun json_at :: "json \<Rightarrow> nat \<Rightarrow> json" where
  "json_at (J_Array js) n = (if n < length js then js ! n else J_Null)"
| "json_at _ n = J_Null"

definition json_library :: "json json_library" where
  "json_library = \<lparr>jl_null = J_Null, jl_is_null = (\<lambda>j. j = J_Null), jl_get = json_get, jl_set = json_set,
     jl_of_int = J_Int, jl_of_string = J_String, jl_int = json_int, jl_string = json_string,
     jl_bool = json_bool, jl_size = json_size, jl_at = json_at\<rparr>"

definition json_object :: "json \<Rightarrow> bool" where
  "json_object j \<longleftrightarrow> (case j of J_Null \<Rightarrow> True | J_Object _ \<Rightarrow> True | _ \<Rightarrow> False)"

lemma json_library_lawful: "json_lawful json_library json_object"
proof -
  have "json_object (json_set j k v) \<and> json_set j k v \<noteq> J_Null" for j k v by (cases j) (simp_all add: json_object_def)
  moreover have "json_object j \<Longrightarrow> json_get (json_set j k v) k' = (if k' = k then Some v else json_get j k')" for j k v k'
    by (cases j) (simp_all add: json_object_def)
  ultimately show ?thesis by (auto simp: json_lawful_def json_library_def json_object_def [of J_Null])
qed

definition demo_device :: bytes where
  "demo_device = [18, 1, 0, 2, 0, 0, 0, 64, 0x34, 0x12, 0x78, 0x56, 0, 1, 0, 0, 0, 1]"

definition demo_config :: bytes where
  "demo_config = [9, 2, 34, 0, 1, 1, 0, 0xa0, 50,
     9, 4, 0, 0, 1, 3, 1, 2, 0,
     9, 0x21, 0x11, 1, 0, 1, 0x22, 47, 0,
     7, 5, 0x81, 3, 8, 0, 10]"

definition demo_reply :: "int \<Rightarrow> int \<Rightarrow> int \<Rightarrow> bytes \<Rightarrow> nat \<times> json option" where
  "demo_reply ty v i data = (200, Some (J_Object [(''kind'', J_String ''control''), (''status'', J_String ''ack''),
     (''data'', J_String (hex data)), (''setup'', J_Object [(''type'', J_Int ty), (''request'', J_Int 6),
        (''value'', J_Int v), (''index'', J_Int i)])]))"

definition demo_capture :: "(nat \<times> json option) list" where
  "demo_capture =
    [(60, Some (J_Object [(''kind'', J_String ''format''), (''version'', J_Int 1)])),
     (60, Some (J_Object [(''kind'', J_String ''speed''), (''value'', J_Int 2)])),
     demo_reply 0x80 0x100 0 (take 8 demo_device), demo_reply 0x80 0x100 0 demo_device,
     demo_reply 0x80 0x200 0 demo_config, demo_reply 0x81 0x2200 0 boot_descriptor]"

definition demo_interface :: replay_interface where
  "demo_interface = \<lparr>ri_number = 0, ri_subclass = 1, ri_protocol = 2,
     ri_hid = [9, 0x21, 0x11, 1, 0, 1, 0x22, 47, 0], ri_report = boot_descriptor\<rparr>"

definition demo_spec :: replay_endpoint where
  "demo_spec = \<lparr>re_interface = 0, re_descriptor = [7, 5, 0x81, 3, 8, 0, 10]\<rparr>"

definition demo_profile :: replay_profile where
  "demo_profile = \<lparr>rp_descriptors = [(0x80, 0x100, 0) \<mapsto> demo_device, (0x80, 0x200, 0) \<mapsto> demo_config,
       (0x81, 0x2200, 0) \<mapsto> boot_descriptor, (0x81, 0x2100, 0) \<mapsto> ri_hid demo_interface],
     rp_samples = Map.empty, rp_interfaces = [demo_interface], rp_endpoints = [demo_spec],
     rp_device = demo_device, rp_config = demo_config, rp_speed = 2\<rparr>"

definition demo_table :: replay_profile where
  "demo_table = no_replay\<lparr>rp_descriptors := [(0x80, 0x100, 0) \<mapsto> demo_device, (0x80, 0x200, 0) \<mapsto> demo_config,
     (0x81, 0x2200, 0) \<mapsto> boot_descriptor], rp_speed := 2\<rparr>"

lemma demo_lengths: "length demo_device = 18" "length demo_config = 34" "length boot_descriptor = 47"
  by (simp_all add: demo_device_def demo_config_def boot_descriptor_def)

lemma load_demo_reply [simp]:
  assumes "ty = 0x80 \<or> ty = 0x81" and "length data \<le> 4096" and "demo_reply ty v i data = (n, Some r)"
  shows "load_record json_library r (p, f) = andthen (store_descriptor (ty, v, i) data p) (\<lambda>p. Inr (p, f))"
  using assms
  by (auto simp: demo_reply_def load_record_def load_control_def member_string_def member_int_def json_library_def
      unhex_hex thrown_def)

lemma demo_walk: "walk_config (drop 9 demo_config) walk_start = Inr
    \<lparr>cw_interfaces = [demo_interface\<lparr>ri_report := []\<rparr>], cw_endpoints = [demo_spec],
     cw_expected = [0 \<mapsto> 1], cw_actual = (\<lambda>_. 0)(0 := 1), cw_addresses = [0x81]\<rparr>"
  by (simp add: demo_config_def walk_start_def walk_config.simps(2) walk_block_def walk_interface_def walk_hid_def
      walk_endpoint_def demo_interface_def demo_spec_def le16_def Let_def)

lemma demo_finish: "finish_load (demo_table, True) = Inr demo_profile"
proof -
  have ok: "device_ok demo_device" "config_ok demo_config"
    by (simp_all add: device_ok_def config_ok_def demo_device_def demo_config_def le16_def)
  have c4: "demo_config ! 4 = 1" by (simp add: demo_config_def)
  have r: "hid_report_length (ri_hid demo_interface) = 47"
    by (simp add: hid_report_length_def demo_interface_def upt_conv_Cons le16_def)
  have nonempty: "boot_descriptor \<noteq> []" by (simp add: boot_descriptor_def)
  have m: "check_mouse [boot_profile] [demo_spec] = Inr ()"
    by (simp add: check_mouse_def demo_spec_def le16_def)
  have inputs: "mouse_inputs (demo_interface\<lparr>ri_report := []\<rparr>) [demo_spec] = [demo_spec]"
    by (simp add: mouse_inputs_def demo_interface_def demo_spec_def)
  have same: "demo_interface\<lparr>ri_report := boot_descriptor\<rparr> = demo_interface" by (simp add: demo_interface_def)
  have h: "ri_hid (demo_interface\<lparr>ri_report := []\<rparr>) = ri_hid demo_interface"
    "ri_number (demo_interface\<lparr>ri_report := []\<rparr>) = 0" "\<not> length (ri_hid demo_interface) < 9"
    "ri_number demo_interface = 0"
    by (simp_all add: demo_interface_def)
  show ?thesis
    by (simp add: finish_load_def demo_table_def no_replay_def ok demo_walk c4 load_interface_def h r nonempty
        demo_lengths boot_parsed m inputs same Let_def demo_profile_def)
qed

lemma demo_reply_line: "demo_reply ty v i data = (200, Some (the (snd (demo_reply ty v i data))))"
  by (simp add: demo_reply_def)

lemma demo_lines:
  assumes "p = no_replay \<or> p = no_replay\<lparr>rp_descriptors := [(0x80, 0x100, 0) \<mapsto> take 8 demo_device]\<rparr>" and "n \<le> 1000"
  shows "load_lines json_library demo_capture n (p, False) = Inr (demo_table, True)"
proof -
  let ?q = "no_replay\<lparr>rp_descriptors := [(0x80, 0x100, 0) \<mapsto> take 8 demo_device], rp_speed := 2\<rparr>"
  have f: "load_record json_library (J_Object [(''kind'', J_String ''format''), (''version'', J_Int 1)]) (p, False)
      = Inr (p, True)"
    by (simp add: load_record_def member_string_def member_int_def json_library_def)
  have sp: "load_record json_library (J_Object [(''kind'', J_String ''speed''), (''value'', J_Int 2)]) (p, True)
      = Inr (p\<lparr>rp_speed := 2\<rparr>, True)"
    by (simp add: load_record_def member_string_def member_int_def json_library_def)
  have s1: "store_descriptor (0x80, 0x100, 0) (take 8 demo_device) (p\<lparr>rp_speed := 2\<rparr>) = Inr ?q"
    using assms(1) by (auto simp: store_descriptor_def no_replay_def demo_lengths Let_def)
  have s: "store_descriptor (0x80, 0x100, 0) demo_device ?q
      = Inr (no_replay\<lparr>rp_speed := 2, rp_descriptors := [(0x80, 0x100, 0) \<mapsto> demo_device]\<rparr>)"
    "store_descriptor (0x80, 0x200, 0) demo_config
        (no_replay\<lparr>rp_speed := 2, rp_descriptors := [(0x80, 0x100, 0) \<mapsto> demo_device]\<rparr>)
      = Inr (no_replay\<lparr>rp_speed := 2, rp_descriptors := [(0x80, 0x100, 0) \<mapsto> demo_device, (0x80, 0x200, 0) \<mapsto> demo_config]\<rparr>)"
    "store_descriptor (0x81, 0x2200, 0) boot_descriptor
        (no_replay\<lparr>rp_speed := 2, rp_descriptors := [(0x80, 0x100, 0) \<mapsto> demo_device, (0x80, 0x200, 0) \<mapsto> demo_config]\<rparr>)
      = Inr demo_table"
    by (simp_all add: store_descriptor_def no_replay_def demo_lengths Let_def demo_table_def)
  show ?thesis
    unfolding demo_capture_def
    apply (subst demo_reply_line, subst (2) demo_reply_line, subst (3) demo_reply_line, subst (4) demo_reply_line)
    using assms(2)
    by (simp add: MAX_CAPTURE_def MAX_LINE_def f sp load_demo_reply [OF _ _ demo_reply_line] demo_lengths s1 s)
qed

lemma demo_load: "load_profile json_library demo_capture = Inr demo_profile"
  by (simp add: load_profile_def demo_lines demo_finish)

text \<open>The same with the lines a recorder writes for the first request in front.\<close>

definition demo_setup :: capture_setup where
  "demo_setup = \<lparr>su_type = 0x80, su_request = 6, su_value = 0x100, su_index = 0, su_length = 8\<rparr>"

definition demo_recorder :: "json recorder" where
  "demo_recorder = \<lparr>rc_enabled = True, rc_pending = J_Null, rc_started = 0, rc_lines = []\<rparr>"

definition recorded_lines :: "json list" where
  "recorded_lines = rc_lines (capture_reply json_library 10 True ''ack'' (take 8 demo_device)
     (capture_event json_library 0 True 2 (Some demo_setup) demo_recorder))"

definition recorded_capture :: "(nat \<times> json option) list" where
  "recorded_capture = map (\<lambda>r. (200, Some r)) recorded_lines @ demo_capture"

lemma recorded_lines_eq: "recorded_lines =
  [J_Object [(''us'', J_Int 0), (''setup'', J_Object [(''length'', J_Int 8), (''index'', J_Int 0), (''value'', J_Int 0x100),
      (''request'', J_Int 6), (''type'', J_Int 0x80)]), (''type'', J_Int 2), (''kind'', J_String ''event'')],
   J_Object [(''us'', J_Int 10), (''data'', J_String (hex (take 8 demo_device))), (''status'', J_String ''ack''),
     (''setup'', J_Object [(''length'', J_Int 8), (''index'', J_Int 0), (''value'', J_Int 0x100),
      (''request'', J_Int 6), (''type'', J_Int 0x80)]), (''kind'', J_String ''control'')]]"
  by (simp add: recorded_lines_def capture_reply_def capture_event_def recorder_defs demo_recorder_def demo_setup_def
      json_library_def)

lemma recorded_load: "load_profile json_library recorded_capture = Inr demo_profile"
proof -
  have e: "load_record json_library (recorded_lines ! 0) (no_replay, False) = Inr (no_replay, False)"
    by (simp add: recorded_lines_eq load_record_def member_string_def member_int_def json_library_def)
  have r: "load_record json_library (recorded_lines ! Suc 0) (no_replay, False)
      = Inr (no_replay\<lparr>rp_descriptors := [(0x80, 0x100, 0) \<mapsto> take 8 demo_device]\<rparr>, False)"
    by (simp add: recorded_lines_eq load_record_def load_control_def member_string_def member_int_def json_library_def
        unhex_hex demo_lengths store_descriptor_def no_replay_def)
  have two: "recorded_lines = [recorded_lines ! 0, recorded_lines ! Suc 0]" by (simp add: recorded_lines_eq)
  have "load_lines json_library recorded_capture 0 (no_replay, False) = Inr (demo_table, True)"
    unfolding recorded_capture_def
    by (subst two) (simp add: MAX_CAPTURE_def MAX_LINE_def e r demo_lines)
  then show ?thesis by (simp add: load_profile_def demo_finish)
qed

end
