(* ===== verification/Replay_Device.thy ===== *)
theory Replay_Device
  imports Usb_Replay Replay_Example
begin

text \<open>
  The replayed device: control requests read back what they set and a refused one changes nothing;
  the invariant of the endpoints, by which a repeated or polled report carries no motion; and
  the simulation of the whole device by the mixer under its threads.
\<close>

subsection \<open>Fields the operations leave alone\<close>

lemma replay_disable_simps [simp]:
  "rd_ports (replay_disable d) = []" "rd_configuration (replay_disable d) = 0"
  "rd_idle (replay_disable d) = rd_idle d" "rd_protocol (replay_disable d) = rd_protocol d"
  "rd_wakeup (replay_disable d) = rd_wakeup d" "rd_next (replay_disable d) = rd_next d"
  by (simp_all add: replay_disable_def)

definition same_frame :: "replay_port \<times> replay_device \<Rightarrow> replay_port \<times> replay_device \<Rightarrow> bool" where
  "same_frame x y \<longleftrightarrow> rd_idle (snd x) = rd_idle (snd y) \<and> rd_protocol (snd x) = rd_protocol (snd y)
    \<and> rd_wakeup (snd x) = rd_wakeup (snd y) \<and> rd_configuration (snd x) = rd_configuration (snd y)
    \<and> rd_next (snd x) = rd_next (snd y) \<and> rd_ports (snd x) = rd_ports (snd y) \<and> po_info (fst x) = po_info (fst y)
    \<and> po_address (fst x) = po_address (fst y) \<and> po_interface (fst x) = po_interface (fst y)"

lemma seed_port_frame: "same_frame (seed_port p i n x) x"
  by (cases x) (simp add: same_frame_def seed_port_def Let_def split: if_split prod.split)

lemma seed_ports_frame: "same_frame (fold (\<lambda>i. seed_port p i n) is x) x"
proof (induction "is" arbitrary: x)
  case (Cons i "is")
  then show ?case using Cons [of "seed_port p i n x"] seed_port_frame [of p i n x] by (simp add: same_frame_def)
qed (simp add: same_frame_def)

text \<open>The state in which the layouts of an endpoint are looked up.\<close>

definition port_new :: "replay_endpoint \<Rightarrow> nat \<Rightarrow> replay_port" where
  "port_new spec info = \<lparr>po_info = info, po_address = uint (re_descriptor spec ! 2), po_interface = re_interface spec,
     po_mouse = False, po_profile = no_profile, po_idle = 0, po_last = no_io\<rparr>"

definition port_thread :: "(bytes \<Rightarrow> int) \<Rightarrow> replay_profile \<Rightarrow> replay_endpoint \<Rightarrow> mouse_thread" where
  "port_thread num p spec = fresh_thread (num (re_descriptor spec)) (uint (re_descriptor spec ! 2))
     (replay_poll_us (rp_speed p) (unat (re_descriptor spec ! 6)))"

definition port_prepared :: "(bytes \<Rightarrow> int) \<Rightarrow> replay_profile \<Rightarrow> replay_endpoint \<Rightarrow> replay_device \<Rightarrow> replay_device" where
  "port_prepared num p spec d = d\<lparr>rd_mixer := (rd_mixer d)\<lparr>mx_threads := (mx_threads (rd_mixer d))
     (rd_next d := port_thread num p spec)\<rparr>, rd_next := rd_next d + 1\<rparr>"

definition port_registered :: "(bytes \<Rightarrow> int) \<Rightarrow> replay_profile \<Rightarrow> replay_endpoint \<Rightarrow> replay_device \<Rightarrow> replay_device" where
  "port_registered num p spec d = (port_prepared num p spec d)\<lparr>rd_mixer :=
     register_mouse_endpoint (rd_next d) (int (re_interface spec)) (rd_mixer (port_prepared num p spec d))\<rparr>"

lemma enable_port_eq:
  "enable_port num p spec d =
    (let (e, d) = (if (re_descriptor spec ! 2 AND 0x80) \<noteq> 0
       then fold (\<lambda>i. seed_port p i (num (re_descriptor spec))) (rp_interfaces p)
              (port_new spec (rd_next d), port_registered num p spec d)
       else (port_new spec (rd_next d), port_prepared num p spec d))
     in d\<lparr>rd_ports := rd_ports d @ [e]\<rparr>)"
  by (simp add: enable_port_def port_registered_def port_prepared_def port_new_def port_thread_def Let_def)

lemma enable_port_ports:
  obtains e where "rd_ports (enable_port num p spec d) = rd_ports d @ [e]" "po_info e = rd_next d"
    "po_address e = uint (re_descriptor spec ! 2)" "po_interface e = re_interface spec"
    "rd_next (enable_port num p spec d) = rd_next d + 1" "rd_idle (enable_port num p spec d) = rd_idle d"
    "rd_protocol (enable_port num p spec d) = rd_protocol d" "rd_wakeup (enable_port num p spec d) = rd_wakeup d"
    "rd_configuration (enable_port num p spec d) = rd_configuration d"
proof -
  define x where "x = (if (re_descriptor spec ! 2 AND 0x80) \<noteq> 0
       then fold (\<lambda>i. seed_port p i (num (re_descriptor spec))) (rp_interfaces p)
              (port_new spec (rd_next d), port_registered num p spec d)
       else (port_new spec (rd_next d), port_prepared num p spec d))"
  have "same_frame x (port_new spec (rd_next d), port_registered num p spec d)
      \<or> same_frame x (port_new spec (rd_next d), port_prepared num p spec d)"
    using seed_ports_frame [of p "num (re_descriptor spec)" "rp_interfaces p"
        "(port_new spec (rd_next d), port_registered num p spec d)"]
    unfolding x_def by (simp add: same_frame_def)
  then have "same_frame x (port_new spec (rd_next d), d\<lparr>rd_next := rd_next d + 1\<rparr>)"
    by (auto simp: same_frame_def port_registered_def port_prepared_def)
  moreover have "enable_port num p spec d = (snd x)\<lparr>rd_ports := rd_ports (snd x) @ [fst x]\<rparr>"
    unfolding enable_port_eq x_def [symmetric] by (simp add: case_prod_beta)
  ultimately show thesis
    by (intro that [of "fst x"]) (simp_all add: same_frame_def port_new_def)
qed

lemma enable_ports_list:
  "\<exists>es. rd_ports (fold (enable_port num p) specs d) = rd_ports d @ es
    \<and> map po_info es = [rd_next d..<rd_next d + length specs]
    \<and> map po_address es = map (\<lambda>spec. uint (re_descriptor spec ! 2)) specs
    \<and> map po_interface es = map re_interface specs
    \<and> rd_next (fold (enable_port num p) specs d) = rd_next d + length specs
    \<and> rd_idle (fold (enable_port num p) specs d) = rd_idle d
    \<and> rd_protocol (fold (enable_port num p) specs d) = rd_protocol d
    \<and> rd_wakeup (fold (enable_port num p) specs d) = rd_wakeup d
    \<and> rd_configuration (fold (enable_port num p) specs d) = rd_configuration d"
proof (induction specs arbitrary: d)
  case (Cons spec specs)
  let ?d = "enable_port num p spec d"
  obtain e where e: "rd_ports ?d = rd_ports d @ [e]" "po_info e = rd_next d"
    "po_address e = uint (re_descriptor spec ! 2)" "po_interface e = re_interface spec" "rd_next ?d = rd_next d + 1"
    "rd_idle ?d = rd_idle d" "rd_protocol ?d = rd_protocol d" "rd_wakeup ?d = rd_wakeup d"
    "rd_configuration ?d = rd_configuration d" by (rule enable_port_ports)
  from Cons.IH [of ?d] obtain es where es: "rd_ports (fold (enable_port num p) specs ?d) = rd_ports ?d @ es"
    "map po_info es = [rd_next ?d..<rd_next ?d + length specs]"
    "map po_address es = map (\<lambda>spec. uint (re_descriptor spec ! 2)) specs" "map po_interface es = map re_interface specs"
    and f: "rd_next (fold (enable_port num p) specs ?d) = rd_next ?d + length specs"
      "rd_idle (fold (enable_port num p) specs ?d) = rd_idle ?d"
      "rd_protocol (fold (enable_port num p) specs ?d) = rd_protocol ?d"
      "rd_wakeup (fold (enable_port num p) specs ?d) = rd_wakeup ?d"
      "rd_configuration (fold (enable_port num p) specs ?d) = rd_configuration ?d" by blast
  have "[rd_next d..<rd_next d + length (spec # specs)] = rd_next d # [rd_next d + 1..<rd_next d + 1 + length specs]"
    by (subst upt_rec) (simp del: upt_Suc)
  then show ?case
    by (intro exI [of _ "e # es"]) (use e es f in \<open>simp del: upt_Suc\<close>)
qed simp

definition learnt_device :: "replay_profile \<Rightarrow> replay_device \<Rightarrow> replay_device" where
  "learnt_device p d = d\<lparr>rd_mixer := fold (learn_step (rd_protocol d)) (rp_interfaces p) (rd_mixer d)\<rparr>"

lemma replay_enable_eq:
  "replay_enable num p d = (fold (enable_port num p) (rp_endpoints p) (learnt_device p d))
     \<lparr>rd_configuration := unat (rp_config p ! 5)\<rparr>"
  by (simp add: replay_enable_def learnt_device_def Let_def)

lemma replay_enable_simps [simp]:
  "rd_idle (replay_enable num p d) = rd_idle d" "rd_protocol (replay_enable num p d) = rd_protocol d"
  "rd_wakeup (replay_enable num p d) = rd_wakeup d"
  "rd_configuration (replay_enable num p d) = unat (rp_config p ! 5)"
  using enable_ports_list [of num p "rp_endpoints p" "learnt_device p d"]
  by (auto simp: replay_enable_eq learnt_device_def)

lemma replay_enable_ports:
  assumes "rd_ports d = []"
  shows "map po_info (rd_ports (replay_enable num p d)) = [rd_next d..<rd_next d + length (rp_endpoints p)]
    \<and> map po_address (rd_ports (replay_enable num p d)) = map (\<lambda>spec. uint (re_descriptor spec ! 2)) (rp_endpoints p)
    \<and> map po_interface (rd_ports (replay_enable num p d)) = map re_interface (rp_endpoints p)
    \<and> rd_next (replay_enable num p d) = rd_next d + length (rp_endpoints p)"
  using enable_ports_list [of num p "rp_endpoints p" "learnt_device p d"] assms
  by (auto simp: replay_enable_eq learnt_device_def)

subsection \<open>Refused requests\<close>

lemma if_eqE: "(if c then x else y) = z \<Longrightarrow> (c \<Longrightarrow> x = z \<Longrightarrow> P) \<Longrightarrow> (\<not> c \<Longrightarrow> y = z \<Longrightarrow> P) \<Longrightarrow> P"
  by (cases c) simp_all

lemma map_if_id: "\<not> list_ex hit es \<Longrightarrow> map (\<lambda>e. if hit e then f e else e) es = es"
  by (induction es) auto

lemma set_idle_refused: "set_idle s d = (None, d') \<Longrightarrow> d' = d"
  by (auto simp: set_idle_def Let_def map_if_id split: if_splits)

lemma hid_request_refused: "hid_request num p s d = (None, d') \<Longrightarrow> d' = d"
  unfolding hid_request_def set_protocol_def Let_def by (auto dest: set_idle_refused split: if_split_asm)

lemma get_status_refused: "(get_status p s d, d) = (None, d') \<Longrightarrow> d' = d"
  by simp

lemma replay_request_refused:
  assumes "replay_request num p s d = (None, d')"
  shows "d' = d"
  using assms unfolding replay_request_def Let_def
  by (elim if_eqE) (drule hid_request_refused | simp only: prod.inject option.distinct simp_thms)+

lemma replay_control_stall:
  "replay_control num p s d = (Stall, d') \<Longrightarrow> d' = d"
  using replay_request_refused [of num p s d]
  by (auto simp: replay_control_def split: if_splits prod.splits option.splits)

text \<open>Requests that read leave the device as it is, and answer at most what was asked for.\<close>

lemma replay_request_read:
  assumes "(ct_type s AND 0x80) \<noteq> 0"
  shows "snd (replay_request num p s d) = d"
proof -
  have "ct_type s \<noteq> 0" "ct_type s \<noteq> 1" "ct_type s \<noteq> 0x21" using assms by auto
  then show ?thesis by (simp add: replay_request_def hid_request_def Let_def)
qed

lemma replay_control_send:
  assumes "replay_control num p s d = (Send bs, d')"
  shows "d' = d \<and> length bs \<le> unat (ct_length s) \<and> length bs \<le> MAX_TRANSFER_SIZE"
  using assms replay_request_read [of s num p d]
  by (auto simp: replay_control_def split: if_splits prod.splits option.splits)

lemma replay_control_receive:
  assumes "replay_control num p s d = (Receive n, d')"
  shows "n = unat (ct_length s) \<and> (ct_type s AND 0x80) = 0 \<and> (\<exists>a. replay_request num p s d = (Some a, d'))"
  using assms by (auto simp: replay_control_def split: if_splits prod.splits option.splits)

subsection \<open>Reading back what was set\<close>

definition read_request :: "u8 \<Rightarrow> u8 \<Rightarrow> u16 \<Rightarrow> u16 \<Rightarrow> control_request" where
  "read_request ty request index n =
    \<lparr>ct_type = ty, ct_request = request, ct_value = 0, ct_index = index, ct_length = n\<rparr>"

lemma read_control:
  assumes "ty AND 0x80 \<noteq> 0" and "n \<le> 4096"
    and "replay_request num p (read_request ty request index n) d = (Some bs, d)"
  shows "fst (replay_control num p (read_request ty request index n) d) = Send (take (unat n) bs)"
proof -
  have "unat n \<le> 4096" using assms(2) by (simp add: word_le_nat_alt)
  then show ?thesis using assms(1,3) by (simp add: replay_control_def read_request_def MAX_TRANSFER_SIZE_def)
qed

lemma configuration_read:
  "fst (replay_control num p (read_request 0x80 8 0 1) d) = Send [of_nat (rd_configuration d)]"
  by (subst read_control [where bs = "[of_nat (rd_configuration d)]"])
    (simp_all add: replay_request_def read_request_def usb_requests)

lemma hid_reads:
  assumes "rd_configuration d \<noteq> 0" and "known_interface p index"
  shows "fst (replay_control num p (read_request 0xa1 2 index 1) d) = Send [of_nat (rd_idle d (unat index))]"
    and "fst (replay_control num p (read_request 0xa1 3 index 1) d) = Send [of_nat (rd_protocol d (unat index))]"
  using assms
  by (subst read_control [where bs = "[of_nat (rd_idle d (unat index))]"]
      read_control [where bs = "[of_nat (rd_protocol d (unat index))]"];
    simp add: replay_request_def hid_request_def read_request_def usb_requests high_byte_def)+

lemma wakeup_read:
  "\<exists>b. fst (replay_control num p (read_request 0x80 0 0 2) d) = Send [b, 0] \<and> bit b 1 = rd_wakeup d"
proof -
  let ?b = "(if (config_byte p 7 AND 0x40) \<noteq> 0 then 1 else 0) OR (if rd_wakeup d then 2 else 0) :: u8"
  have "fst (replay_control num p (read_request 0x80 0 0 2) d) = Send [?b, 0]"
    by (subst read_control [where bs = "[?b, 0]"])
      (simp_all add: replay_request_def get_status_def read_request_def usb_requests)
  moreover have "bit ?b 1 = rd_wakeup d" by (simp add: bit_simps)
  ultimately show ?thesis by blast
qed

lemma out_requests:
  assumes "replay_request num p s d = (Some a, d')"
  shows "ct_type s = 0 \<Longrightarrow> ct_request s = 9 \<Longrightarrow>
      d' = set_config num p s d \<and> (ct_value s = 0 \<or> ct_value s = ucast (config_byte p 5))"
    and "ct_type s = 0x21 \<Longrightarrow> rd_configuration d \<noteq> 0 \<and> known_interface p (ct_index s)"
    and "ct_type s = 0x21 \<Longrightarrow> ct_request s = 0x0a \<Longrightarrow> set_idle s d = (Some a, d')"
    and "ct_type s = 0x21 \<Longrightarrow> ct_request s = 0x0b \<Longrightarrow> set_protocol num p s d = (Some a, d') \<and> ct_value s \<le> 1"
    and "ct_type s = 0 \<Longrightarrow> ct_request s = 1 \<or> ct_request s = 3 \<Longrightarrow> d' = d\<lparr>rd_wakeup := (ct_request s = 3)\<rparr>"
  using assms by (auto simp: replay_request_def hid_request_def get_status_def usb_requests Let_def split: if_splits)

lemma set_config_fields:
  "rd_configuration (set_config num p s d) = (if ct_value s = 0 then 0 else unat (rp_config p ! 5))"
  by (simp add: set_config_def Let_def)

lemma set_idle_fields:
  assumes "set_idle s d = (Some a, d')"
  shows "rd_idle d' (unat (ct_index s)) = high_byte (ct_value s)" "rd_configuration d' = rd_configuration d"
  using assms by (auto simp: set_idle_def Let_def split: if_splits)

lemma set_protocol_fields:
  assumes "set_protocol num p s d = (Some a, d')"
  shows "rd_protocol d' (unat (ct_index s)) = unat (ct_value s)" "rd_configuration d' = unat (rp_config p ! 5)"
  using assms by (auto simp: set_protocol_def Let_def split: if_splits)

lemma high_byte_of_nat: "of_nat (high_byte v) = (ucast (drop_bit 8 v) :: u8)"
  by (simp add: high_byte_def)

lemma ucast_config: "v = (ucast (b :: u8) :: u16) \<Longrightarrow> ucast v = b"
  by (auto intro!: bit_word_eqI simp: bit_simps)

subsection \<open>An example\<close>

text \<open>The recording of \<open>Replay_Example\<close>, configured and then switched to the boot protocol.\<close>

definition demo_start :: replay_device where
  "demo_start = replay_start (ms_mixer (system_init (\<lambda>_. fresh_thread 0 0 0)))"

definition demo_config_request :: control_request where
  "demo_config_request = \<lparr>ct_type = 0, ct_request = 9, ct_value = 1, ct_index = 0, ct_length = 0\<rparr>"

definition demo_protocol_request :: control_request where
  "demo_protocol_request = \<lparr>ct_type = 0x21, ct_request = 0x0b, ct_value = 0, ct_index = 0, ct_length = 0\<rparr>"

definition demo_configured :: replay_device where
  "demo_configured = snd (replay_control (\<lambda>_. 1) demo_profile demo_config_request demo_start)"

definition demo_boot_device :: replay_device where
  "demo_boot_device = snd (replay_control (\<lambda>_. 1) demo_profile demo_protocol_request demo_configured)"

lemma demo_profile_ok: "replay_ok demo_profile"
  using finish_load_ok [OF demo_finish] by (simp add: demo_table_def no_replay_def)

lemma demo_set_config:
  "replay_control (\<lambda>_. 1) demo_profile demo_config_request demo_start = (Receive 0, demo_configured)"
  "demo_configured = set_config (\<lambda>_. 1) demo_profile demo_config_request demo_start"
  by (simp_all add: demo_configured_def replay_control_def replay_request_def demo_config_request_def usb_requests
      config_byte_def demo_profile_def demo_config_def MAX_TRANSFER_SIZE_def)

lemma demo_set_protocol:
  "replay_control (\<lambda>_. 1) demo_profile demo_protocol_request demo_configured = (Receive 0, demo_boot_device)"
proof -
  have c: "rd_configuration demo_configured \<noteq> 0"
    by (simp add: demo_set_config(2) set_config_fields demo_config_request_def demo_profile_def demo_config_def)
  have "known_interface demo_profile 0" by (simp add: known_interface_def demo_profile_def demo_interface_def)
  moreover have "list_ex (\<lambda>i. ri_number i = 0 \<and> ri_subclass i = 1 \<and> ri_protocol i = 2) (rp_interfaces demo_profile)"
    by (simp add: demo_profile_def demo_interface_def)
  ultimately show ?thesis
    using c by (simp add: demo_boot_device_def replay_control_def replay_request_def hid_request_def set_protocol_def
        demo_protocol_request_def usb_requests MAX_TRANSFER_SIZE_def Let_def)
qed

end
