(* ===== verification/Injection_Rules.thy ===== *)
theory Injection_Rules
  imports Replay_Profile Mouse_Mixer Usb_Requests "HOL-Library.Sublist" "HOL-Library.Monad_Syntax" "HOL-Library.Signed_Division"
begin

text \<open>
  The injection rules of \<open>proxy.cpp\<close> with the conversions of \<open>misc.cpp\<close> they use. The rules are a
  JSON value of the library \<open>L\<close>. \<open>None\<close> is a call that does not return: its loop never ends, or
  an accessor throws and no handler catches it. Output on the terminal is left out.
\<close>

subsection \<open>Conversions\<close>

text \<open>\<open>std::string::find\<close>: the position of the first occurrence.\<close>

fun find_sub :: "'a list \<Rightarrow> 'a list \<Rightarrow> nat option" where
  "find_sub p [] = (if p = [] then Some 0 else None)"
| "find_sub p (x # xs) = (if prefix p (x # xs) then Some 0 else map_option Suc (find_sub p xs))"

fun hex_run :: "nat \<Rightarrow> string \<Rightarrow> nat" where
  "hex_run n [] = n"
| "hex_run n (c # cs) = (case hex_value c of None \<Rightarrow> n | Some d \<Rightarrow> hex_run (16 * n + d) cs)"

text \<open>
  \<open>iss >> i\<close> in base 16 and without skipping white space, on at most two characters: a sign, the
  digits up to the first other character, and zero where there is none.
\<close>

definition istream_hex :: "string \<Rightarrow> int" where
  "istream_hex s = (case s of [] \<Rightarrow> 0
     | c # cs \<Rightarrow> if c = CHR ''-'' then - int (hex_run 0 cs) else if c = CHR ''+'' then int (hex_run 0 cs)
        else int (hex_run 0 s))"

definition hex_marker :: string where
  "hex_marker = [CHR 0x5c, CHR ''x'']"

lemma find_sub_bound: "find_sub p xs = Some i \<Longrightarrow> i + length p \<le> length xs"
  by (induction xs arbitrary: i) (auto split: if_splits dest: prefix_length_le)

function hexToAscii :: "string \<Rightarrow> string" where
  "hexToAscii s = (case find_sub hex_marker s of None \<Rightarrow> s
     | Some pos \<Rightarrow> hexToAscii (take pos s @ char_of (istream_hex (take 2 (drop (pos + 2) s))) # drop (pos + 4) s))"
  by pat_completeness auto

termination
  by (relation "measure length") (auto dest: find_sub_bound simp: hex_marker_def)

lemma sdiv_ten_less: "(n :: int) \<noteq> 0 \<Longrightarrow> nat \<bar>n sdiv 10\<bar> < nat \<bar>n\<bar>"
  by (cases "n < 0") (auto simp: signed_divide_int_def sgn_if)

text \<open>The digits of a decimal number read as hexadecimal ones; \<open>%\<close> and \<open>/\<close> truncate.\<close>

function hex_decimal_loop :: "int \<Rightarrow> int \<Rightarrow> nat \<Rightarrow> int" where
  "hex_decimal_loop output input i =
    (if input = 0 then output
     else hex_decimal_loop (output + (input smod 10) * 16 ^ i) (input sdiv 10) (i + 1))"
  by pat_completeness auto

termination
  by (relation "measure (\<lambda>(_, n, _). nat \<bar>n\<bar>)") (use sdiv_ten_less in auto)

definition hexToDecimal :: "int \<Rightarrow> int" where
  "hexToDecimal input = hex_decimal_loop 0 input 0"

text \<open>\<open>parseHexString\<close>: characters other than digits are dropped, and so is an odd last digit.\<close>

fun hex_pairs :: "string \<Rightarrow> bytes" where
  "hex_pairs (a # b # cs) = of_nat (hex_run 0 [a, b]) # hex_pairs cs"
| "hex_pairs cs = []"

definition parseHexString :: "string \<Rightarrow> bytes" where
  "parseHexString s = hex_pairs (filter (\<lambda>c. hex_value c \<noteq> None) s)"

subsection \<open>Replacing a pattern\<close>

definition MAX_INJECTED :: nat where
  "MAX_INJECTED = 1023"

partial_function (option) inject_loop ::
    "bytes \<Rightarrow> bytes \<Rightarrow> bytes \<Rightarrow> bool \<Rightarrow> (bytes \<times> bool) option" where
  "inject_loop pat rep data modified =
    (case find_sub pat data of None \<Rightarrow> Some (data, modified)
     | Some pos \<Rightarrow>
        if length data - length pat + length rep > MAX_INJECTED then Some (data, modified)
        else inject_loop pat rep (take pos data @ rep @ drop (pos + length pat) data) True)"

declare inject_loop.simps [code]

text \<open>A loop over the elements of a JSON array or of a list, where a step may not return.\<close>

fun each :: "('a \<Rightarrow> 's \<Rightarrow> 's option) \<Rightarrow> 'a list \<Rightarrow> 's \<Rightarrow> 's option" where
  "each f [] s = Some s"
| "each f (x # xs) s = do { s \<leftarrow> f x s; each f xs s }"

definition inject_pattern ::
    "'j json_library \<Rightarrow> 'j \<Rightarrow> bytes \<Rightarrow> nat \<Rightarrow> bytes \<times> bool \<Rightarrow> (bytes \<times> bool) option" where
  "inject_pattern L patterns rep j = (\<lambda>(data, modified). do {
     pattern_hex \<leftarrow> jl_string L (jl_at L patterns j);
     inject_loop (ascii (hexToAscii pattern_hex)) rep data modified })"

text \<open>The first \<open>injection\<close>; both callers pass \<open>data_modified\<close> as false.\<close>

definition injection_io ::
    "'j json_library \<Rightarrow> 'j \<Rightarrow> string \<Rightarrow> transfer_io \<Rightarrow> (transfer_io \<times> bool) option" where
  "injection_io L patterns replacement_hex io = do {
     (data, modified) \<leftarrow> each (inject_pattern L patterns (ascii (hexToAscii replacement_hex)))
       [0..<jl_size L patterns] (take (io_length io) (io_data io), False);
     Some (if modified then (io\<lparr>io_length := length data, io_data := blit (io_data io) 0 data\<rparr>, True)
           else (io, False)) }"

subsection \<open>Matching rules\<close>

text \<open>\<open>a || b\<close> and \<open>a != b\<close> of a request field and a rule member.\<close>

definition or_else :: "bool option \<Rightarrow> bool option \<Rightarrow> bool option" where
  "or_else a b = do { x \<leftarrow> a; if x then Some True else b }"

definition field_differs :: "'j json_library \<Rightarrow> 'j \<Rightarrow> string \<Rightarrow> int \<Rightarrow> bool option" where
  "field_differs L rule key v = do { j \<leftarrow> jl_get L rule key; n \<leftarrow> jl_int L j; Some (v \<noteq> hexToDecimal n) }"

definition rule_disabled :: "'j json_library \<Rightarrow> 'j \<Rightarrow> bool option" where
  "rule_disabled L rule = do { j \<leftarrow> jl_get L rule ''enable''; b \<leftarrow> jl_bool L j; Some (\<not> b) }"

definition inject_rule ::
    "'j json_library \<Rightarrow> 'j \<Rightarrow> transfer_io \<Rightarrow> (transfer_io \<times> bool) option" where
  "inject_rule L rule io = do {
     patterns \<leftarrow> jl_get L rule ''content_pattern'';
     j \<leftarrow> jl_get L rule ''replacement''; replacement_hex \<leftarrow> jl_string L j;
     injection_io L patterns replacement_hex io }"

text \<open>Interrupt and bulk transfers: the first matching rule that changes the data ends the loop.\<close>

fun inject_transfer_rules ::
    "'j json_library \<Rightarrow> 'j \<Rightarrow> int \<Rightarrow> nat list \<Rightarrow> transfer_io \<Rightarrow> transfer_io option" where
  "inject_transfer_rules L rules address [] io = Some io"
| "inject_transfer_rules L rules address (i # is) io = do {
     let rule = jl_at L rules i;
     skip \<leftarrow> or_else (rule_disabled L rule) (field_differs L rule ''ep_address'' address);
     if skip then inject_transfer_rules L rules address is io
     else do {
       (io, modified) \<leftarrow> inject_rule L rule io;
       if modified then Some io else inject_transfer_rules L rules address is io } }"

definition injection_transfer ::
    "'j json_library \<Rightarrow> 'j \<Rightarrow> string \<Rightarrow> int \<Rightarrow> transfer_io \<Rightarrow> transfer_io option" where
  "injection_transfer L config transfer_type address io = do {
     rules \<leftarrow> jl_get L config transfer_type;
     inject_transfer_rules L rules address [0..<jl_size L rules] io }"

subsection \<open>Control transfers\<close>

datatype injection_flag = INJECTION_NONE | INJECTION_IGNORE | INJECTION_STALL

datatype injection_kind = Modify_Rules | Ignore_Rules | Stall_Rules

fun kind_name :: "injection_kind \<Rightarrow> string" where
  "kind_name Modify_Rules = ''modify''"
| "kind_name Ignore_Rules = ''ignore''"
| "kind_name Stall_Rules = ''stall''"

definition control_skip :: "'j json_library \<Rightarrow> 'j \<Rightarrow> control_request \<Rightarrow> bool option" where
  "control_skip L rule s =
    or_else (rule_disabled L rule)
      (or_else (field_differs L rule ''bRequestType'' (uint (ct_type s)))
        (or_else (field_differs L rule ''bRequest'' (uint (ct_request s)))
          (or_else (field_differs L rule ''wValue'' (uint (ct_value s)))
            (or_else (field_differs L rule ''wIndex'' (uint (ct_index s)))
              (field_differs L rule ''wLength'' (uint (ct_length s)))))))"

definition apply_control_rule ::
    "'j json_library \<Rightarrow> injection_kind \<Rightarrow> 'j \<Rightarrow> control_request \<times> transfer_io \<times> injection_flag
       \<Rightarrow> (control_request \<times> transfer_io \<times> injection_flag) option" where
  "apply_control_rule L kind rule = (\<lambda>(s, io, flag). case kind of
     Modify_Rules \<Rightarrow> do {
       (io, modified) \<leftarrow> inject_rule L rule io;
       Some (if (ct_type s AND 0x80) = 0 then s\<lparr>ct_length := of_nat (io_length io)\<rparr> else s, io, flag) }
   | Ignore_Rules \<Rightarrow> Some (s, io, INJECTION_IGNORE)
   | Stall_Rules \<Rightarrow> Some (s, io, INJECTION_STALL))"

definition control_rule ::
    "'j json_library \<Rightarrow> injection_kind \<Rightarrow> 'j \<Rightarrow> nat \<Rightarrow> control_request \<times> transfer_io \<times> injection_flag
       \<Rightarrow> (control_request \<times> transfer_io \<times> injection_flag) option" where
  "control_rule L kind rules j = (\<lambda>(s, io, flag). do {
     let rule = jl_at L rules j;
     skip \<leftarrow> control_skip L rule s;
     if skip then Some (s, io, flag) else apply_control_rule L kind rule (s, io, flag) })"

definition control_rules ::
    "'j json_library \<Rightarrow> 'j \<Rightarrow> injection_kind \<Rightarrow> control_request \<times> transfer_io \<times> injection_flag
       \<Rightarrow> (control_request \<times> transfer_io \<times> injection_flag) option" where
  "control_rules L config kind st = do {
     control \<leftarrow> jl_get L config ''control'';
     rules \<leftarrow> jl_get L control (kind_name kind);
     each (control_rule L kind rules) [0..<jl_size L rules] st }"

definition injection_control ::
    "'j json_library \<Rightarrow> 'j \<Rightarrow> control_request \<Rightarrow> transfer_io
       \<Rightarrow> (control_request \<times> transfer_io \<times> injection_flag) option" where
  "injection_control L config s io =
    each (control_rules L config) [Modify_Rules, Ignore_Rules, Stall_Rules] (s, io, INJECTION_NONE)"

end
