(* ===== verification/Injection_Facts.thy ===== *)
theory Injection_Facts
  imports Injection_Rules
begin

text \<open>
  The injection loop ends unless it replaces a pattern by itself, whatever the data; a rule keeps
  the report within its buffer; the numbers of a rule are read digit by digit, so a field with a
  hexadecimal letter matches no rule.
\<close>

subsection \<open>Finding a substring\<close>

lemma find_sub_Some:
  "find_sub p xs = Some i \<Longrightarrow> xs = take i xs @ p @ drop (i + length p) xs"
proof (induction xs arbitrary: i)
  case (Cons x xs)
  show ?case
  proof (cases "prefix p (x # xs)")
    case True
    then show ?thesis using Cons.prems by (auto simp: prefix_def)
  next
    case False
    then obtain k where "find_sub p xs = Some k" "i = Suc k" using Cons.prems by auto
    then show ?thesis using Cons.IH [of k] by simp
  qed
qed (auto split: if_splits)

lemma find_sub_None: "find_sub p xs = None \<longleftrightarrow> \<not> (\<exists>u v. xs = u @ p @ v)"
proof (induction xs)
  case (Cons x xs)
  have "(\<exists>u v. x # xs = u @ p @ v) \<longleftrightarrow> prefix p (x # xs) \<or> (\<exists>u v. xs = u @ p @ v)"
    by (auto simp: prefix_def Cons_eq_append_conv)
  then show ?case using Cons by (auto split: option.splits)
qed auto

lemma find_sub_occurs: "find_sub p xs \<noteq> None \<longleftrightarrow> sublist p xs"
  by (auto simp: find_sub_None sublist_def)

subsection \<open>The marker of \<open>hexToAscii\<close>\<close>

lemma hexToAscii_plain: "find_sub hex_marker s = None \<Longrightarrow> hexToAscii s = s"
  by (subst hexToAscii.simps) simp

lemma hexToAscii_no_marker: "find_sub hex_marker (hexToAscii s) = None"
proof (induction s rule: hexToAscii.induct)
  case (1 s)
  then show ?case by (subst hexToAscii.simps) (simp split: option.split)
qed

declare hexToAscii.simps [simp del]

subsection \<open>Decimal digits read as hexadecimal ones\<close>

lemma sdiv_smod_nonneg: "0 \<le> (n :: int) \<Longrightarrow> n sdiv 10 = n div 10" "0 \<le> n \<Longrightarrow> n smod 10 = n mod 10"
  by (cases "n = 0"; simp add: signed_divide_int_def signed_modulo_int_def minus_div_mult_eq_mod)+

fun decimal_as_hex :: "nat \<Rightarrow> nat" where
  "decimal_as_hex n = (if n = 0 then 0 else n mod 10 + 16 * decimal_as_hex (n div 10))"

declare decimal_as_hex.simps [simp del]

lemma hex_decimal_loop_eq:
  "hex_decimal_loop out (int n) i = out + int (decimal_as_hex n) * 16 ^ i"
proof (induction n arbitrary: out i rule: less_induct)
  case (less n)
  show ?case
  proof (cases "n = 0")
    case True
    then show ?thesis by (simp add: decimal_as_hex.simps)
  next
    case False
    then have "hex_decimal_loop out (int n) i
        = hex_decimal_loop (out + int (n mod 10) * 16 ^ i) (int (n div 10)) (Suc i)"
      by (subst hex_decimal_loop.simps) (simp add: sdiv_smod_nonneg zmod_int zdiv_int)
    also have "\<dots> = out + int (n mod 10) * 16 ^ i + int (decimal_as_hex (n div 10)) * 16 ^ Suc i"
      using False less by simp
    finally show ?thesis using False by (subst decimal_as_hex.simps) (simp add: algebra_simps)
  qed
qed

declare hex_decimal_loop.simps [simp del]

lemma hexToDecimal_nat: "hexToDecimal (int n) = int (decimal_as_hex n)"
  by (simp add: hexToDecimal_def hex_decimal_loop_eq)

text \<open>The $k$-th hexadecimal digit of the result is the $k$-th decimal digit of the number.\<close>

lemma decimal_as_hex_digit: "(decimal_as_hex n div 16 ^ k) mod 16 = (n div 10 ^ k) mod 10"
proof (induction k arbitrary: n)
  case 0
  have "n mod 10 < 16" by (simp add: less_imp_le [THEN le_less_trans])
  then show ?case by (subst decimal_as_hex.simps) (simp add: mod_mult_self2)
next
  case (Suc k)
  have "decimal_as_hex n div 16 = decimal_as_hex (n div 10)"
    by (subst decimal_as_hex.simps) (simp add: decimal_as_hex.simps [of 0] less_imp_le)
  then show ?case using Suc [of "n div 10"] by (simp add: div_mult2_eq)
qed

lemma hexToDecimal_neg: "n < 0 \<Longrightarrow> hexToDecimal n \<le> 0"
proof -
  have "hex_decimal_loop out n i \<le> 0" if "n \<le> 0" "out \<le> 0" for out n i
    using that
  proof (induction out n i rule: hex_decimal_loop.induct)
    case (1 out n i)
    have "n smod 10 \<le> 0" "n sdiv 10 \<le> 0"
      using 1(2) by (auto simp: signed_modulo_int_def signed_divide_int_def sgn_if algebra_simps)
    then show ?case using 1 by (subst hex_decimal_loop.simps) (auto simp: mult_nonpos_nonneg add_nonpos_nonpos)
  qed
  then show "n < 0 \<Longrightarrow> hexToDecimal n \<le> 0" by (simp add: hexToDecimal_def)
qed


subsection \<open>Rules and hexadecimal letters\<close>

definition hex_letter :: "int \<Rightarrow> bool" where
  "hex_letter v \<longleftrightarrow> (\<exists>k<4. 9 < (nat v div 16 ^ k) mod 16)"

lemma hexToDecimal_no_letter: "0 < hexToDecimal n \<Longrightarrow> (nat (hexToDecimal n) div 16 ^ k) mod 16 \<le> 9"
  using hexToDecimal_neg [of n] hexToDecimal_nat [of "nat n"] decimal_as_hex_digit [of "nat n" k]
  by (cases "n < 0") auto

lemma hexToDecimal_not_letter: "\<not> hex_letter (hexToDecimal n)"
proof (cases "0 < hexToDecimal n")
  case True
  then show ?thesis using hexToDecimal_no_letter [of n] by (auto simp: hex_letter_def not_less)
qed (simp add: hex_letter_def)

lemma letter_differs: "hex_letter v \<Longrightarrow> field_differs L rule key v \<in> {None, Some True}"
  using hexToDecimal_not_letter by (auto simp: field_differs_def split: Option.bind_splits)

lemma or_else_letter:
  "b \<in> {None, Some True} \<Longrightarrow> or_else a b \<in> {None, Some True}"
  "a \<in> {None, Some True} \<Longrightarrow> or_else a b \<in> {None, Some True}"
  by (auto simp: or_else_def split: Option.bind_splits)

definition letter_request :: "control_request \<Rightarrow> bool" where
  "letter_request s \<longleftrightarrow> (\<exists>v\<in>{uint (ct_type s), uint (ct_request s), uint (ct_value s), uint (ct_index s),
     uint (ct_length s)}. hex_letter v)"

lemma control_skip_letter: "letter_request s \<Longrightarrow> control_skip L rule s \<in> {None, Some True}"
  unfolding letter_request_def control_skip_def
  using or_else_letter letter_differs by (smt (verit) insert_iff empty_iff)

lemma each_stays:
  assumes "\<And>x. x \<in> set xs \<Longrightarrow> f x s \<in> {None, Some s}"
  shows "each f xs s \<in> {None, Some s}"
  using assms
proof (induction xs)
  case (Cons x xs)
  then have "f x s = None \<or> f x s = Some s" "each f xs s \<in> {None, Some s}" by auto
  then show ?case by auto
qed simp

lemma each_induct [consumes 1, case_names start step]:
  assumes "each f xs s = Some s'" and "P s"
    and "\<And>x s s'. x \<in> set xs \<Longrightarrow> P s \<Longrightarrow> f x s = Some s' \<Longrightarrow> P s'"
  shows "P s'"
  using assms by (induction xs arbitrary: s) (auto simp: bind_eq_Some_conv)

lemma control_rule_letter:
  "letter_request s \<Longrightarrow> control_rule L kind rules j (s, io, flag) \<in> {None, Some (s, io, flag)}"
  using control_skip_letter [of s L "jl_at L rules j"] by (auto simp: control_rule_def)

lemma control_rules_letter:
  "letter_request s \<Longrightarrow> control_rules L config kind (s, io, flag) \<in> {None, Some (s, io, flag)}"
proof -
  assume "letter_request s"
  then have "each (control_rule L kind rules) xs (s, io, flag) \<in> {None, Some (s, io, flag)}" for rules xs
    by (intro each_stays control_rule_letter)
  then show ?thesis by (auto simp: control_rules_def split: Option.bind_splits)
qed

subsection \<open>The loop: result and termination\<close>

lemma replace_length:
  assumes "find_sub pat data = Some pos"
  shows "length (take pos data @ rep @ drop (pos + length pat) data) = length data - length pat + length rep"
    "length pat \<le> length data"
  using find_sub_bound [OF assms] by auto

lemma replace_self:
  assumes "find_sub pat data = Some pos"
  shows "take pos data @ pat @ drop (pos + length pat) data = data"
  using find_sub_Some [OF assms] by simp

text \<open>Where the loop ends, no occurrence is left or one more replacement would be too long.\<close>

lemma inject_loop_result:
  assumes "inject_loop pat rep data m = Some (data', m')"
  shows "length data' \<le> max (length data) MAX_INJECTED \<and> (m \<longrightarrow> m') \<and> (\<not> m' \<longrightarrow> data' = data)
    \<and> (sublist pat data' \<longrightarrow> length data' - length pat + length rep > MAX_INJECTED)
    \<and> \<not> (rep = pat \<and> sublist pat data \<and> length data \<le> MAX_INJECTED)"
proof -
  define P where "P = (\<lambda>pat rep data m (r :: bytes \<times> bool). length (fst r) \<le> max (length data) MAX_INJECTED
    \<and> (m \<longrightarrow> snd r) \<and> (\<not> snd r \<longrightarrow> fst r = data)
    \<and> (sublist pat (fst r) \<longrightarrow> length (fst r) - length pat + length rep > MAX_INJECTED)
    \<and> \<not> (rep = pat \<and> sublist pat data \<and> length data \<le> MAX_INJECTED))"
  have "P pat rep data m (data', m')"
    using assms
  proof (rule inject_loop.raw_induct [rotated])
    fix loop pat rep data m r
    assume IH: "\<And>pat rep data m r. loop pat rep data m = Some r \<Longrightarrow> P pat rep data m r"
      and r: "(case find_sub pat data of None \<Rightarrow> Some (data, m)
         | Some pos \<Rightarrow> if length data - length pat + length rep > MAX_INJECTED then Some (data, m)
            else loop pat rep (take pos data @ rep @ drop (pos + length pat) data) True) = Some r"
    show "P pat rep data m r"
    proof (cases "find_sub pat data")
      case None
      then show ?thesis using r find_sub_occurs [of pat data] by (auto simp: P_def)
    next
      case (Some pos)
      note len = replace_length [OF Some] and self = replace_self [OF Some]
      show ?thesis
      proof (cases "length data - length pat + length rep > MAX_INJECTED")
        case True
        then show ?thesis using r Some len(2) by (auto simp: P_def)
      next
        case False
        then have "P pat rep (take pos data @ rep @ drop (pos + length pat) data) True r"
          using IH r Some by simp
        then show ?thesis using False len(1) [of rep] len(2) self find_sub_occurs [of pat data] Some
          by (auto simp: P_def)
      qed
    qed
  qed
  then show ?thesis by (simp add: P_def)
qed

lemma inject_loop_measure:
  fixes \<mu> :: "bytes \<Rightarrow> nat"
  assumes "\<And>data pos. find_sub pat data = Some pos \<Longrightarrow> length data - length pat + length rep \<le> MAX_INJECTED
    \<Longrightarrow> \<mu> (take pos data @ rep @ drop (pos + length pat) data) < \<mu> data"
  shows "inject_loop pat rep data m \<noteq> None"
proof (induction "\<mu> data" arbitrary: data m rule: less_induct)
  case less
  show ?case
  proof (cases "find_sub pat data")
    case None
    then show ?thesis by (subst inject_loop.simps) simp
  next
    case (Some pos)
    then show ?thesis using less assms [OF Some] by (subst inject_loop.simps) auto
  qed
qed

subsection \<open>A replacement of the same length\<close>

text \<open>A data block as a number in base 256, the bytes ordered so that the replacement is larger.\<close>

fun number :: "(u8 \<Rightarrow> nat) \<Rightarrow> bytes \<Rightarrow> nat" where
  "number f [] = 0"
| "number f (x # xs) = f x * 256 ^ length xs + number f xs"

lemma number_append: "number f (xs @ ys) = number f xs * 256 ^ length ys + number f ys"
  by (induction xs) (simp_all add: power_add algebra_simps)

lemma number_less: "(\<And>x. f x < 256) \<Longrightarrow> number f xs < 256 ^ length xs"
proof (induction xs)
  case (Cons x xs)
  have "number f (x # xs) < (f x + 1) * 256 ^ length xs" using Cons by simp
  also have "\<dots> \<le> 256 * 256 ^ length xs" using Cons.prems [of x] by (intro mult_right_mono) auto
  finally show ?case by simp
qed simp

lemma number_first_difference:
  assumes "\<And>x. f x < 256" and "f a < f b" and "length s = length t"
  shows "number f (w @ a # s) < number f (w @ b # t)"
proof -
  have "number f (a # s) < (f a + 1) * 256 ^ length s" using number_less [of f s] assms(1) by simp
  also have "\<dots> \<le> f b * 256 ^ length s" using assms(2) by (intro mult_right_mono) auto
  finally show ?thesis using assms(3) by (simp add: number_append)
qed

lemma u8_bound: "unat (x :: u8) < 256"
  using unsigned_less [of x] by simp

lemma same_length_order:
  assumes "length rep = length pat" and "rep \<noteq> pat"
  obtains f :: "u8 \<Rightarrow> nat" where "\<And>x. f x < 256" and "number f pat < number f rep"
proof -
  obtain w a s b t where d: "a \<noteq> b" "pat = w @ [a] @ s" "rep = w @ [b] @ t"
    using same_length_different [of pat rep] assms by metis
  define f :: "u8 \<Rightarrow> nat" where "f = (if unat a < unat b then unat else (\<lambda>x. 255 - unat x))"
  have bound: "f x < 256" for x using u8_bound [of x] by (auto simp: f_def)
  have "unat a \<noteq> unat b" "unat a < 256" "unat b < 256"
    using d(1) u8_bound [of a] u8_bound [of b] by (auto simp: unsigned_word_eqI)
  then have "f a < f b" by (auto simp: f_def)
  from number_first_difference [OF bound this, of s t w] show ?thesis
    using that [of f] bound d assms(1) by simp
qed

lemma inject_loop_same_length:
  assumes "length rep = length pat" and "rep \<noteq> pat"
  shows "inject_loop pat rep data m \<noteq> None"
proof -
  obtain f :: "u8 \<Rightarrow> nat" where f: "\<And>x. f x < 256" "number f pat < number f rep"
    using same_length_order [OF assms] by blast
  show ?thesis
  proof (rule inject_loop_measure [where \<mu> = "\<lambda>d. 256 ^ length d - number f d"])
    fix d pos
    assume pos: "find_sub pat d = Some pos"
    let ?d = "take pos d @ rep @ drop (pos + length pat) d"
    have len: "length ?d = length d" using replace_length [OF pos] assms(1) by simp
    have "number f (take pos d @ pat @ drop (pos + length pat) d) < number f ?d"
      using f(2) assms(1) by (simp add: number_append)
    then have "number f d < number f ?d" using replace_self [OF pos] by simp
    moreover have "number f ?d < 256 ^ length d" using number_less [of f ?d] f(1) len by simp
    ultimately show "256 ^ length ?d - number f ?d < 256 ^ length d - number f d" using len by simp
  qed
qed

lemma inject_loop_returns:
  assumes "\<not> (rep = pat \<and> sublist pat data \<and> length data \<le> MAX_INJECTED)"
  shows "inject_loop pat rep data m \<noteq> None"
proof (cases "rep = pat")
  case True
  have stop: "length data - length pat + length pat > MAX_INJECTED" if "find_sub pat data = Some pos" for pos
    using assms that True find_sub_occurs [of pat data] replace_length(2) [OF that] by auto
  show ?thesis using True stop by (subst inject_loop.simps) (auto split: option.split)
next
  case False
  consider "length rep = length pat" | "length rep < length pat" | "length pat < length rep" by linarith
  then show ?thesis
  proof cases
    case 1
    then show ?thesis using False by (rule inject_loop_same_length)
  next
    case 2
    then show ?thesis
      by (intro inject_loop_measure [where \<mu> = length]) (use replace_length in fastforce)
  next
    case 3
    then show ?thesis
      by (intro inject_loop_measure [where \<mu> = "\<lambda>d. Suc MAX_INJECTED - length d"]) (use replace_length in fastforce)
  qed
qed


subsection \<open>Reports\<close>

text \<open>A report differs from the one read only in its bytes, and is at most as long as it was or as the limit allows.\<close>

definition injected :: "transfer_io \<Rightarrow> transfer_io \<Rightarrow> bool" where
  "injected io io' \<longleftrightarrow> (\<exists>n p. io' = io\<lparr>io_length := n, io_data := p\<rparr> \<and> length p = length (io_data io)
     \<and> n \<le> max (io_length io) MAX_INJECTED)"

lemma injected_refl: "injected io io"
  unfolding injected_def by (rule exI [of _ "io_length io"], rule exI [of _ "io_data io"]) simp

lemma injected_trans: "injected io io' \<Longrightarrow> injected io' io'' \<Longrightarrow> injected io io''"
  unfolding injected_def by (elim exE conjE) (rule exI, rule exI, auto)

lemma injected_buffer:
  "injected io io' \<Longrightarrow> length (io_data io) = MAX_TRANSFER_SIZE \<Longrightarrow> io_length io \<le> MAX_TRANSFER_SIZE
    \<Longrightarrow> length (io_data io') = MAX_TRANSFER_SIZE \<and> io_length io' \<le> MAX_TRANSFER_SIZE"
  by (auto simp: injected_def MAX_INJECTED_def MAX_TRANSFER_SIZE_def)

lemma injection_io_injected:
  assumes "injection_io L patterns rep io = Some (io', m)" "length (io_data io) = MAX_TRANSFER_SIZE"
    "io_length io \<le> MAX_TRANSFER_SIZE"
  shows "injected io io' \<and> (\<not> m \<longrightarrow> io' = io)"
proof -
  obtain data m' where e: "each (inject_pattern L patterns (ascii (hexToAscii rep))) [0..<jl_size L patterns]
      (take (io_length io) (io_data io), False) = Some (data, m')"
    and r: "(io', m) = (if m' then (io\<lparr>io_length := length data, io_data := blit (io_data io) 0 data\<rparr>, True) else (io, False))"
    using assms(1) by (auto simp: injection_io_def bind_eq_Some_conv)
  from e have "length (fst (data, m')) \<le> max (io_length io) MAX_INJECTED"
  proof (induction rule: each_induct)
    case start
    then show ?case by simp
  next
    case (step j s s')
    obtain d b d' b' where s: "s = (d, b)" "s' = (d', b')" by (cases s; cases s')
    then obtain h where "inject_loop (ascii (hexToAscii h)) (ascii (hexToAscii rep)) d b = Some (d', b')"
      using step by (auto simp: inject_pattern_def bind_eq_Some_conv)
    from inject_loop_result [OF this] show ?case using step s by (auto simp: max_def split: if_splits)
  qed
  then have "length data \<le> max (io_length io) MAX_INJECTED" by simp
  moreover then have "length (blit (io_data io) 0 data) = length (io_data io)"
    using assms(2,3) by (intro length_blit) (auto simp: MAX_INJECTED_def MAX_TRANSFER_SIZE_def)
  ultimately show ?thesis using r injected_refl [of io] by (auto simp: injected_def split: if_splits)
qed

lemma inject_rule_injected:
  assumes "inject_rule L rule io = Some (io', m)" "length (io_data io) = MAX_TRANSFER_SIZE"
    "io_length io \<le> MAX_TRANSFER_SIZE"
  shows "injected io io' \<and> (\<not> m \<longrightarrow> io' = io)"
proof -
  obtain patterns rep where "injection_io L patterns rep io = Some (io', m)"
    using assms(1) by (auto simp: inject_rule_def bind_eq_Some_conv)
  then show ?thesis using assms(2,3) by (rule injection_io_injected)
qed

lemma inject_transfer_rules_injected:
  assumes "inject_transfer_rules L rules a is io = Some io'" "length (io_data io) = MAX_TRANSFER_SIZE"
    "io_length io \<le> MAX_TRANSFER_SIZE"
  shows "injected io io'"
  using assms
proof (induction "is" arbitrary: io)
  case (Cons i "is")
  obtain skip where skip: "or_else (rule_disabled L (jl_at L rules i))
      (field_differs L (jl_at L rules i) ''ep_address'' a) = Some skip"
    using Cons.prems(1) by (auto simp: bind_eq_Some_conv Let_def)
  show ?case
  proof (cases skip)
    case True
    then show ?thesis using Cons skip by simp
  next
    case False
    then obtain io1 m where r: "inject_rule L (jl_at L rules i) io = Some (io1, m)"
      and k: "(if m then Some io1 else inject_transfer_rules L rules a is io1) = Some io'"
      using Cons.prems(1) skip by (auto simp: bind_eq_Some_conv Let_def)
    from inject_rule_injected [OF r Cons.prems(2,3)] show ?thesis
      using k Cons.IH [of io1] Cons.prems(2,3) by (auto split: if_splits)
  qed
qed (simp add: injected_refl)

lemma injection_transfer_injected:
  assumes "injection_transfer L config ty a io = Some io'" "length (io_data io) = MAX_TRANSFER_SIZE"
    "io_length io \<le> MAX_TRANSFER_SIZE"
  shows "injected io io'"
proof -
  obtain rules where "inject_transfer_rules L rules a [0..<jl_size L rules] io = Some io'"
    using assms(1) by (auto simp: injection_transfer_def bind_eq_Some_conv)
  then show ?thesis using assms(2,3) by (rule inject_transfer_rules_injected)
qed

text \<open>The rules for control transfers keep the request but for its length, which only an OUT request has changed.\<close>

lemma injection_control_injected:
  assumes "injection_control L config s io = Some (s', io', flag)" "length (io_data io) = MAX_TRANSFER_SIZE"
    "io_length io \<le> MAX_TRANSFER_SIZE"
  shows "injected io io' \<and> (\<exists>n. s' = s\<lparr>ct_length := n\<rparr>) \<and> ((ct_type s AND 0x80) \<noteq> 0 \<longrightarrow> s' = s)"
proof -
  define P where "P = (\<lambda>(s', io', _ :: injection_flag). injected io io' \<and> (\<exists>n. s' = s\<lparr>ct_length := n\<rparr>)
    \<and> ((ct_type s AND 0x80) \<noteq> 0 \<longrightarrow> s' = s))"
  have self: "\<exists>n. s = s\<lparr>ct_length := n\<rparr>" by (rule exI [of _ "ct_length s"]) simp
  have apply_rule: "P st'" if r: "apply_control_rule L kind rule st = Some st'" and p: "P st" for kind rule st st'
  proof -
    obtain s1 io1 fl where st: "st = (s1, io1, fl)" by (cases st)
    have b: "length (io_data io1) = MAX_TRANSFER_SIZE" "io_length io1 \<le> MAX_TRANSFER_SIZE"
      using p injected_buffer [OF _ assms(2,3), of io1] st by (auto simp: P_def)
    have t: "ct_type s1 = ct_type s" using p st by (auto simp: P_def)
    show ?thesis
    proof (cases kind)
      case Modify_Rules
      then obtain io2 m where m: "inject_rule L rule io1 = Some (io2, m)"
        and st': "st' = (if (ct_type s1 AND 0x80) = 0 then s1\<lparr>ct_length := of_nat (io_length io2)\<rparr> else s1, io2, fl)"
        using r st by (auto simp: apply_control_rule_def bind_eq_Some_conv)
      from inject_rule_injected [OF m b] p st t self show ?thesis
        by (auto simp: st' P_def intro: injected_trans)
    qed (use r st p in \<open>auto simp: apply_control_rule_def P_def\<close>)
  qed
  have one: "P st'" if r: "control_rule L kind rules j st = Some st'" and p: "P st" for kind rules j st st'
  proof -
    obtain skip where "(if skip then Some st else apply_control_rule L kind (jl_at L rules j) st) = Some st'"
      using r by (cases st) (auto simp: control_rule_def bind_eq_Some_conv Let_def)
    then show ?thesis using p apply_rule by (cases skip) auto
  qed
  have kind: "P st'" if r: "control_rules L config kind st = Some st'" and p: "P st" for kind st st'
  proof -
    obtain rules where "each (control_rule L kind rules) [0..<jl_size L rules] st = Some st'"
      using r by (auto simp: control_rules_def bind_eq_Some_conv)
    then show ?thesis using p by (induction rule: each_induct) (auto intro: one)
  qed
  have P_start: "P (s, io, INJECTION_NONE)"
    by (auto simp: P_def injected_refl intro: exI [of _ "ct_length s"])
  have "P (s', io', flag)"
    using assms(1) unfolding injection_control_def
    by (induction rule: each_induct) (auto intro: kind simp: P_start)
  then show ?thesis by (simp add: P_def)
qed

lemma injection_control_letter:
  assumes "letter_request s"
  shows "injection_control L config s io \<in> {None, Some (s, io, INJECTION_NONE)}"
  unfolding injection_control_def by (rule each_stays) (rule control_rules_letter [OF assms])

end
