(* ===== verification/Raw_Gadget.thy ===== *)
theory Raw_Gadget
  imports Usb_Capture Usb_Requests
begin

text \<open>
  \<open>host-raw-gadget.cpp\<close>: the calls of the Raw Gadget driver. What an \<open>ioctl\<close> returns is an argument:
  \<open>Inr\<close> with its value, or \<open>Inl\<close> with \<open>errno\<close>. \<open>None\<close> is \<open>exit(EXIT_FAILURE)\<close>. Control traffic goes
  through the recorder, with the clock reading and the outcome of its write as in \<open>Usb_Capture\<close>.
\<close>

datatype errno = EINTR | EBUSY | ESHUTDOWN | EINPROGRESS | EXDEV | ENODATA | Other_errno int

definition or_exit :: "errno + 'a \<Rightarrow> 'a option" where
  "or_exit r = (case r of Inl _ \<Rightarrow> None | Inr rv \<Rightarrow> Some rv)"

definition USB_RAW_EVENT_CONNECT :: nat where
  "USB_RAW_EVENT_CONNECT = 1"

definition USB_RAW_EVENT_CONTROL :: nat where
  "USB_RAW_EVENT_CONTROL = 2"

definition USB_RAW_EVENT_SUSPEND :: nat where
  "USB_RAW_EVENT_SUSPEND = 3"

definition USB_RAW_EVENT_RESUME :: nat where
  "USB_RAW_EVENT_RESUME = 4"

definition USB_RAW_EVENT_RESET :: nat where
  "USB_RAW_EVENT_RESET = 5"

definition USB_RAW_EVENT_DISCONNECT :: nat where
  "USB_RAW_EVENT_DISCONNECT = 6"

lemmas usb_raw_events = USB_RAW_EVENT_CONNECT_def USB_RAW_EVENT_CONTROL_def USB_RAW_EVENT_SUSPEND_def
  USB_RAW_EVENT_RESUME_def USB_RAW_EVENT_RESET_def USB_RAW_EVENT_DISCONNECT_def

record raw_event =
  ev_type :: nat
  ev_length :: nat
  ev_setup :: control_request

definition EVENT_INTERRUPTED :: nat where
  "EVENT_INTERRUPTED = 4294967295"

definition UDC_NAME_LENGTH_MAX :: nat where
  "UDC_NAME_LENGTH_MAX = 128"

subsection \<open>Calls without a result of their own\<close>

definition usb_raw_open :: "errno + int \<Rightarrow> int option" where
  "usb_raw_open r = or_exit r"

text \<open>The names are copied into arrays of fixed size by \<open>strcpy\<close>; longer ones overflow them.\<close>

definition usb_raw_init ::
    "'j json_library \<Rightarrow> int \<Rightarrow> bool \<Rightarrow> int \<Rightarrow> string \<Rightarrow> string \<Rightarrow> errno + int \<Rightarrow> 'j recorder \<Rightarrow> 'j recorder option" where
  "usb_raw_init L now ok speed driver device r rc =
    (if length driver \<ge> UDC_NAME_LENGTH_MAX \<or> length device \<ge> UDC_NAME_LENGTH_MAX then None
     else map_option (\<lambda>_. capture_speed L now ok speed rc) (or_exit r))"

definition usb_raw_run :: "errno + int \<Rightarrow> int option" where
  "usb_raw_run r = or_exit r"

definition usb_raw_ep_enable :: "errno + int \<Rightarrow> int option" where
  "usb_raw_ep_enable r = or_exit r"

definition usb_raw_ep_disable :: "errno + int \<Rightarrow> int option" where
  "usb_raw_ep_disable r = or_exit r"

definition usb_raw_configure :: "errno + int \<Rightarrow> int option" where
  "usb_raw_configure r = or_exit r"

definition usb_raw_vbus_draw :: "errno + int \<Rightarrow> int option" where
  "usb_raw_vbus_draw r = or_exit r"

definition usb_raw_eps_info :: "errno + int \<Rightarrow> int option" where
  "usb_raw_eps_info r = or_exit r"

definition usb_raw_ep_set_halt :: "errno + int \<Rightarrow> int option" where
  "usb_raw_ep_set_halt r = or_exit r"

subsection \<open>Control transfers\<close>

definition capture_of :: "control_request \<Rightarrow> capture_setup" where
  "capture_of s = \<lparr>su_type = unat (ct_type s), su_request = unat (ct_request s), su_value = unat (ct_value s),
     su_index = unat (ct_index s), su_length = unat (ct_length s)\<rparr>"

text \<open>\<open>Inr\<close> is the event as the driver fills it in; \<open>ev\<close> is what the caller prepared.\<close>

definition usb_raw_event_fetch ::
    "'j json_library \<Rightarrow> int \<Rightarrow> bool \<Rightarrow> errno + raw_event \<Rightarrow> raw_event \<Rightarrow> 'j recorder
       \<Rightarrow> (raw_event \<times> 'j recorder) option" where
  "usb_raw_event_fetch L now ok r ev rc = (case r of
     Inl e \<Rightarrow> if e = EINTR then Some (ev\<lparr>ev_length := EVENT_INTERRUPTED\<rparr>, rc) else None
   | Inr ev \<Rightarrow> Some (ev, capture_event L now ok (ev_type ev)
       (if ev_type ev = USB_RAW_EVENT_CONTROL \<and> ev_length ev \<ge> 8 then Some (capture_of (ev_setup ev)) else None) rc))"

definition usb_raw_ep0_read ::
    "'j json_library \<Rightarrow> int \<Rightarrow> bool \<Rightarrow> errno + int \<Rightarrow> bytes \<Rightarrow> 'j recorder \<Rightarrow> ((errno + int) \<times> 'j recorder) option" where
  "usb_raw_ep0_read L now ok r data rc = (case r of
     Inl e \<Rightarrow> if e = EBUSY then Some (Inl e, rc) else None
   | Inr rv \<Rightarrow> Some (Inr rv, capture_reply L now ok ''ack'' (take (nat rv) data) rc))"

definition usb_raw_ep0_write ::
    "'j json_library \<Rightarrow> int \<Rightarrow> bool \<Rightarrow> errno + int \<Rightarrow> bytes \<Rightarrow> 'j recorder \<Rightarrow> (int \<times> 'j recorder) option" where
  "usb_raw_ep0_write L now ok r data rc = (case r of
     Inl e \<Rightarrow> None
   | Inr rv \<Rightarrow> Some (rv, capture_reply L now ok ''ack'' (take (nat rv) data) rc))"

definition usb_raw_ep0_stall ::
    "'j json_library \<Rightarrow> int \<Rightarrow> bool \<Rightarrow> errno + int \<Rightarrow> 'j recorder \<Rightarrow> 'j recorder option" where
  "usb_raw_ep0_stall L now ok r rc = (case r of
     Inl e \<Rightarrow> if e = EBUSY then Some rc else None
   | Inr rv \<Rightarrow> Some (capture_reply L now ok ''stall'' [] rc))"

subsection \<open>Endpoint transfers\<close>

definition usb_raw_ep_read :: "errno + 'a \<Rightarrow> (errno + 'a) option" where
  "usb_raw_ep_read r = (case r of
     Inl e \<Rightarrow> if e = EINPROGRESS \<or> e = ESHUTDOWN \<or> e = EINTR \<or> e = EBUSY then Some r else None
   | Inr rv \<Rightarrow> Some r)"

definition usb_raw_ep_write :: "errno + 'a \<Rightarrow> (errno + 'a) option" where
  "usb_raw_ep_write r = (case r of
     Inl e \<Rightarrow> if e = EINPROGRESS \<or> e = ESHUTDOWN \<or> e = EINTR \<or> e = EXDEV \<or> e = ENODATA \<or> e = EBUSY
       then Some r else None
   | Inr rv \<Rightarrow> Some r)"

subsection \<open>The event log\<close>

datatype log_line = Log_Event string | Log_Other_Event nat | Log_Setup control_request
  | Log_Type string | Log_Other_Type u8 | Log_Request string | Log_Other_Request u8
  | Log_Descriptor string | Log_Other_Descriptor u16

definition descriptor_names :: "(u16 \<times> string) list" where
  "descriptor_names =
    [(1, ''USB_DT_DEVICE''), (2, ''USB_DT_CONFIG''), (3, ''USB_DT_STRING''), (4, ''USB_DT_INTERFACE''),
     (5, ''USB_DT_ENDPOINT''), (6, ''USB_DT_DEVICE_QUALIFIER''), (7, ''USB_DT_OTHER_SPEED_CONFIG''),
     (8, ''USB_DT_INTERFACE_POWER''), (9, ''USB_DT_OTG''), (10, ''USB_DT_DEBUG''),
     (11, ''USB_DT_INTERFACE_ASSOCIATION''), (12, ''USB_DT_SECURITY''), (13, ''USB_DT_KEY''),
     (14, ''USB_DT_ENCRYPTION_TYPE''), (15, ''USB_DT_BOS''), (16, ''USB_DT_DEVICE_CAPABILITY''),
     (17, ''USB_DT_WIRELESS_ENDPOINT_COMP''), (0x30, ''USB_DT_SS_ENDPOINT_COMP''), (0x24, ''USB_DT_PIPE_USAGE'')]"

definition request_names :: "(u8 \<times> string) list" where
  "request_names =
    [(USB_REQ_GET_DESCRIPTOR, ''USB_REQ_GET_DESCRIPTOR''), (USB_REQ_SET_CONFIGURATION, ''USB_REQ_SET_CONFIGURATION''),
     (USB_REQ_GET_CONFIGURATION, ''USB_REQ_GET_CONFIGURATION''), (USB_REQ_SET_INTERFACE, ''USB_REQ_SET_INTERFACE''),
     (USB_REQ_GET_INTERFACE, ''USB_REQ_GET_INTERFACE''), (USB_REQ_GET_STATUS, ''USB_REQ_GET_STATUS''),
     (USB_REQ_CLEAR_FEATURE, ''USB_REQ_CLEAR_FEATURE''), (USB_REQ_SET_FEATURE, ''USB_REQ_SET_FEATURE'')]"

definition named :: "('k \<times> string) list \<Rightarrow> (string \<Rightarrow> log_line) \<Rightarrow> log_line \<Rightarrow> 'k \<Rightarrow> log_line" where
  "named names line other k = (case map_of names k of Some n \<Rightarrow> line n | None \<Rightarrow> other)"

definition log_control_request :: "control_request \<Rightarrow> log_line list" where
  "log_control_request s =
    (let ty = ct_type s AND 0x60; req = ct_request s; desc = drop_bit 8 (ct_value s) in
     [Log_Setup s, named [(0, ''USB_TYPE_STANDARD''), (0x20, ''USB_TYPE_CLASS''), (0x40, ''USB_TYPE_VENDOR'')]
        Log_Type (Log_Other_Type (ct_type s)) ty] @
     (if ty = 0 then named request_names Log_Request (Log_Other_Request req) req #
        (if req = USB_REQ_GET_DESCRIPTOR then [named descriptor_names Log_Descriptor (Log_Other_Descriptor desc) desc] else [])
      else [Log_Other_Request req]))"

definition log_event :: "raw_event \<Rightarrow> log_line list" where
  "log_event ev =
    named [(USB_RAW_EVENT_CONNECT, ''connect''), (USB_RAW_EVENT_CONTROL, ''control''), (USB_RAW_EVENT_SUSPEND, ''suspend''),
       (USB_RAW_EVENT_RESUME, ''resume''), (USB_RAW_EVENT_RESET, ''reset''), (USB_RAW_EVENT_DISCONNECT, ''disconnect'')]
      Log_Event (Log_Other_Event (ev_type ev)) (ev_type ev) #
    (if ev_type ev = USB_RAW_EVENT_CONTROL then log_control_request (ev_setup ev) else [])"

end
