(* ===== verification/Usb_Descriptors.thy ===== *)
theory Usb_Descriptors
  imports Proxy_Prelude "HOL-Library.Countable"
begin

text \<open>
  The descriptors of the physical device as libusb parses them, and \<open>setup_host_usb_desc\<close> of
  \<open>usb-proxy.cpp\<close>, which copies them into the tree of configurations, interfaces, alternate
  settings and endpoints the proxy works on. An array behind a count is a list; a null pointer is
  the empty list. Each endpoint of the tree embeds its thread information, named by \<open>slot\<close>.
\<close>

record device_descriptor =
  dd_length :: u8
  dd_type :: u8
  dd_usb :: u16
  dd_class :: u8
  dd_subclass :: u8
  dd_protocol :: u8
  dd_max_packet :: u8
  dd_vendor :: u16
  dd_product :: u16
  dd_release :: u16
  dd_manufacturer :: u8
  dd_product_name :: u8
  dd_serial :: u8
  dd_configurations :: u8

record config_descriptor =
  cd_length :: u8
  cd_type :: u8
  cd_total :: u16
  cd_interfaces :: u8
  cd_value :: u8
  cd_name :: u8
  cd_attributes :: u8
  cd_max_power :: u8

record interface_descriptor =
  fd_length :: u8
  fd_type :: u8
  fd_number :: u8
  fd_alternate :: u8
  fd_endpoints :: u8
  fd_class :: u8
  fd_subclass :: u8
  fd_protocol :: u8
  fd_name :: u8

record endpoint_descriptor =
  ed_length :: u8
  ed_type :: u8
  ed_address :: u8
  ed_attributes :: u8
  ed_max_packet :: u16
  ed_interval :: u8
  ed_refresh :: u8
  ed_synch :: u8

subsection \<open>What libusb parsed\<close>

record libusb_altsetting =
  la_interface :: interface_descriptor
  la_endpoints :: "endpoint_descriptor list"
  la_extra :: bytes

record libusb_config =
  lc_config :: config_descriptor
  lc_interfaces :: "libusb_altsetting list list"

record libusb_descriptors =
  ld_device :: device_descriptor
  ld_configs :: "libusb_config list"

subsection \<open>The tree of the proxy\<close>

record gadget_endpoint =
  ge_descriptor :: endpoint_descriptor
  ge_info :: nat
  ge_num :: int
  ge_reading :: bool
  ge_writing :: bool

record gadget_altsetting =
  ga_interface :: interface_descriptor
  ga_endpoints :: "gadget_endpoint list"

record gadget_interface =
  gi_altsettings :: "gadget_altsetting list"
  gi_current :: nat

record gadget_config =
  gc_config :: config_descriptor
  gc_interfaces :: "gadget_interface list"

record gadget_device =
  gd_device :: device_descriptor
  gd_configs :: "gadget_config list"
  gd_current :: nat

definition slot :: "nat \<Rightarrow> nat \<Rightarrow> nat \<Rightarrow> nat \<Rightarrow> nat" where
  "slot i j k l = prod_encode (prod_encode (i, j), prod_encode (k, l))"

lemma slot_inject [simp]: "slot i j k l = slot i' j' k' l' \<longleftrightarrow> i = i' \<and> j = j' \<and> k = k' \<and> l = l'"
  by (auto simp: slot_def prod_encode_eq)

definition setup_device :: "device_descriptor \<Rightarrow> device_descriptor" where
  "setup_device d = \<lparr>dd_length = dd_length d, dd_type = dd_type d, dd_usb = dd_usb d, dd_class = dd_class d,
     dd_subclass = dd_subclass d, dd_protocol = dd_protocol d, dd_max_packet = dd_max_packet d,
     dd_vendor = dd_vendor d, dd_product = dd_product d, dd_release = dd_release d,
     dd_manufacturer = dd_manufacturer d, dd_product_name = dd_product_name d, dd_serial = dd_serial d,
     dd_configurations = dd_configurations d\<rparr>"

definition setup_config_descriptor :: "config_descriptor \<Rightarrow> config_descriptor" where
  "setup_config_descriptor c = \<lparr>cd_length = cd_length c, cd_type = cd_type c, cd_total = cd_total c,
     cd_interfaces = cd_interfaces c, cd_value = cd_value c, cd_name = cd_name c,
     cd_attributes = cd_attributes c, cd_max_power = cd_max_power c\<rparr>"

definition setup_interface_descriptor :: "interface_descriptor \<Rightarrow> interface_descriptor" where
  "setup_interface_descriptor f = \<lparr>fd_length = fd_length f, fd_type = fd_type f, fd_number = fd_number f,
     fd_alternate = fd_alternate f, fd_endpoints = fd_endpoints f, fd_class = fd_class f,
     fd_subclass = fd_subclass f, fd_protocol = fd_protocol f, fd_name = fd_name f\<rparr>"

definition setup_endpoint :: "nat \<Rightarrow> nat \<Rightarrow> nat \<Rightarrow> nat \<Rightarrow> endpoint_descriptor \<Rightarrow> gadget_endpoint" where
  "setup_endpoint i j k l e = \<lparr>ge_descriptor = \<lparr>ed_length = ed_length e, ed_type = ed_type e,
       ed_address = ed_address e, ed_attributes = ed_attributes e, ed_max_packet = ed_max_packet e,
       ed_interval = ed_interval e, ed_refresh = ed_refresh e, ed_synch = ed_synch e\<rparr>,
     ge_info = slot i j k l, ge_num = -1, ge_reading = False, ge_writing = False\<rparr>"

definition setup_altsetting :: "nat \<Rightarrow> nat \<Rightarrow> nat \<Rightarrow> libusb_altsetting \<Rightarrow> gadget_altsetting" where
  "setup_altsetting i j k a = \<lparr>ga_interface = setup_interface_descriptor (la_interface a),
     ga_endpoints = (if fd_endpoints (la_interface a) = 0 then []
       else map (\<lambda>l. setup_endpoint i j k l (la_endpoints a ! l)) [0..<unat (fd_endpoints (la_interface a))])\<rparr>"

definition setup_interface :: "nat \<Rightarrow> nat \<Rightarrow> libusb_altsetting list \<Rightarrow> gadget_interface" where
  "setup_interface i j as = \<lparr>gi_altsettings = map (\<lambda>k. setup_altsetting i j k (as ! k)) [0..<length as], gi_current = 0\<rparr>"

definition setup_config :: "nat \<Rightarrow> libusb_config \<Rightarrow> gadget_config" where
  "setup_config i c = \<lparr>gc_config = setup_config_descriptor (lc_config c),
     gc_interfaces = map (\<lambda>j. setup_interface i j (lc_interfaces c ! j)) [0..<unat (cd_interfaces (lc_config c))]\<rparr>"

definition setup_host_usb_desc :: "libusb_descriptors \<Rightarrow> gadget_device" where
  "setup_host_usb_desc d = \<lparr>gd_device = setup_device (ld_device d),
     gd_configs = map (\<lambda>i. setup_config i (ld_configs d ! i)) [0..<unat (dd_configurations (ld_device d))],
     gd_current = 0\<rparr>"

subsection \<open>The tree mirrors the device\<close>

text \<open>libusb sets each count to the number of entries it parsed.\<close>

definition parsed_ok :: "libusb_descriptors \<Rightarrow> bool" where
  "parsed_ok d \<longleftrightarrow> unat (dd_configurations (ld_device d)) = length (ld_configs d)
     \<and> (\<forall>c\<in>set (ld_configs d). unat (cd_interfaces (lc_config c)) = length (lc_interfaces c)
          \<and> (\<forall>as\<in>set (lc_interfaces c). \<forall>a\<in>set as. unat (fd_endpoints (la_interface a)) = length (la_endpoints a)))"

lemma setup_device_eq [simp]: "setup_device d = d"
  by (simp add: setup_device_def)

lemma setup_config_descriptor_eq [simp]: "setup_config_descriptor c = c"
  by (simp add: setup_config_descriptor_def)

lemma setup_interface_descriptor_eq [simp]: "setup_interface_descriptor f = f"
  by (simp add: setup_interface_descriptor_def)

lemma setup_endpoint_simps [simp]:
  "ge_descriptor (setup_endpoint i j k l e) = e" "ge_info (setup_endpoint i j k l e) = slot i j k l"
  "\<not> ge_reading (setup_endpoint i j k l e)" "\<not> ge_writing (setup_endpoint i j k l e)"
  "ge_num (setup_endpoint i j k l e) = -1"
  by (simp_all add: setup_endpoint_def)

text \<open>The descriptors of the tree, read back level by level.\<close>

definition alt_of :: "gadget_altsetting \<Rightarrow> interface_descriptor \<times> endpoint_descriptor list" where
  "alt_of a = (ga_interface a, map ge_descriptor (ga_endpoints a))"

definition device_of :: "gadget_device \<Rightarrow> device_descriptor \<times>
    (config_descriptor \<times> (interface_descriptor \<times> endpoint_descriptor list) list list) list" where
  "device_of g = (gd_device g, map (\<lambda>c. (gc_config c, map (map alt_of \<circ> gi_altsettings) (gc_interfaces c))) (gd_configs g))"

definition device_of_libusb :: "libusb_descriptors \<Rightarrow> device_descriptor \<times>
    (config_descriptor \<times> (interface_descriptor \<times> endpoint_descriptor list) list list) list" where
  "device_of_libusb d = (ld_device d, map (\<lambda>c. (lc_config c,
     map (map (\<lambda>a. (la_interface a, la_endpoints a))) (lc_interfaces c))) (ld_configs d))"

lemma setup_altsetting_of:
  "unat (fd_endpoints (la_interface a)) = length (la_endpoints a)
    \<Longrightarrow> alt_of (setup_altsetting i j k a) = (la_interface a, la_endpoints a)"
  by (auto simp: alt_of_def setup_altsetting_def comp_def intro: nth_equalityI)

lemma setup_config_of:
  assumes "unat (cd_interfaces (lc_config c)) = length (lc_interfaces c)"
    and "\<And>as a. as \<in> set (lc_interfaces c) \<Longrightarrow> a \<in> set as \<Longrightarrow> unat (fd_endpoints (la_interface a)) = length (la_endpoints a)"
  shows "map (map alt_of \<circ> gi_altsettings) (gc_interfaces (setup_config i c))
    = map (map (\<lambda>a. (la_interface a, la_endpoints a))) (lc_interfaces c)"
proof -
  have "alt_of (setup_altsetting i j k (lc_interfaces c ! j ! k))
      = (la_interface (lc_interfaces c ! j ! k), la_endpoints (lc_interfaces c ! j ! k))"
    if "j < length (lc_interfaces c)" "k < length (lc_interfaces c ! j)" for j k
    using that by (intro setup_altsetting_of assms(2) [of "lc_interfaces c ! j"]) auto
  then show ?thesis using assms(1)
    by (intro nth_equalityI) (auto simp: setup_config_def setup_interface_def intro!: nth_equalityI)
qed

lemma setup_mirrors:
  assumes "parsed_ok d"
  shows "device_of (setup_host_usb_desc d) = device_of_libusb d"
proof -
  have "map (map alt_of \<circ> gi_altsettings) (gc_interfaces (setup_config i c))
    = map (map (\<lambda>a. (la_interface a, la_endpoints a))) (lc_interfaces c)" if "c \<in> set (ld_configs d)" for c i
    using assms that by (intro setup_config_of) (auto simp: parsed_ok_def)
  then show ?thesis using assms
    by (auto simp: device_of_def device_of_libusb_def setup_host_usb_desc_def setup_config_def parsed_ok_def
        intro!: nth_equalityI)
qed

end
