(* ===== verification/Device_Libusb.thy ===== *)
theory Device_Libusb
  imports Usb_Descriptors Usb_Requests
begin

text \<open>
  \<open>device-libusb.cpp\<close>: finding the physical device and the transfers to it. What libusb returns is an
  argument: the outcome of attempt \<open>n\<close> is \<open>transfer n\<close>. Messages are left out.
\<close>

definition LIBUSB_SUCCESS :: int where
  "LIBUSB_SUCCESS = 0"

definition LIBUSB_ERROR_NO_DEVICE :: int where
  "LIBUSB_ERROR_NO_DEVICE = -4"

definition LIBUSB_ERROR_TIMEOUT :: int where
  "LIBUSB_ERROR_TIMEOUT = -7"

definition LIBUSB_ERROR_PIPE :: int where
  "LIBUSB_ERROR_PIPE = -9"

definition LIBUSB_ERROR_OTHER :: int where
  "LIBUSB_ERROR_OTHER = -99"

definition MAX_ATTEMPTS :: nat where
  "MAX_ATTEMPTS = 5"

lemmas libusb_codes = LIBUSB_SUCCESS_def LIBUSB_ERROR_NO_DEVICE_def LIBUSB_ERROR_TIMEOUT_def
  LIBUSB_ERROR_PIPE_def LIBUSB_ERROR_OTHER_def

subsection \<open>Finding the device\<close>

text \<open>
  A device of the bus as \<open>get_descriptor\<close> sees it: its descriptor and its configurations, each with
  the result of reading it.
\<close>

record bus_device =
  bd_result :: int
  bd_device :: device_descriptor
  bd_configs :: "(int \<times> libusb_config) list"

text \<open>The configurations read so far, up to the first error.\<close>

fun read_configs :: "(int \<times> libusb_config) list \<Rightarrow> int + libusb_config list" where
  "read_configs [] = Inr []"
| "read_configs ((r, c) # cs) =
    (if r \<noteq> LIBUSB_SUCCESS then Inl r
     else case read_configs cs of Inl e \<Rightarrow> Inl e | Inr l \<Rightarrow> Inr (c # l))"

definition get_descriptor :: "bus_device \<Rightarrow> int + libusb_descriptors" where
  "get_descriptor b =
    (if bd_result b \<noteq> LIBUSB_SUCCESS then Inl (bd_result b)
     else case read_configs (take (unat (dd_configurations (bd_device b))) (bd_configs b)) of
       Inl e \<Rightarrow> Inl e | Inr cs \<Rightarrow> Inr \<lparr>ld_device = bd_device b, ld_configs = cs\<rparr>)"

definition LIBUSB_CLASS_HUB :: u8 where
  "LIBUSB_CLASS_HUB = 9"

definition id_matches :: "int \<Rightarrow> u16 \<Rightarrow> bool" where
  "id_matches want v \<longleftrightarrow> want = uint v \<or> want = -1"

text \<open>One pass over the device list: the first readable device that is no hub and has the wanted numbers.\<close>

fun find_device :: "int \<Rightarrow> int \<Rightarrow> bus_device list \<Rightarrow> libusb_descriptors option" where
  "find_device vendor product [] = None"
| "find_device vendor product (b # bs) = (case get_descriptor b of
     Inl e \<Rightarrow> find_device vendor product bs
   | Inr d \<Rightarrow>
      if dd_class (ld_device d) = LIBUSB_CLASS_HUB then find_device vendor product bs
      else if vendor = -1 \<and> product = -1 then Some d
      else if id_matches vendor (dd_vendor (ld_device d)) \<and> id_matches product (dd_product (ld_device d)) then Some d
      else find_device vendor product bs)"

text \<open>
  The search loop; \<open>bus n\<close> is the device list of round \<open>n\<close> (\<open>Inl\<close> an error). It looks until a
  device is found, so it need not end: \<open>None\<close>.
\<close>

partial_function (option) search_device ::
    "int \<Rightarrow> int \<Rightarrow> (nat \<Rightarrow> int + bus_device list) \<Rightarrow> nat \<Rightarrow> (int + libusb_descriptors) option" where
  "search_device vendor product bus n = (case bus n of
     Inl e \<Rightarrow> Some (Inl 1)
   | Inr bs \<Rightarrow> (case find_device vendor product bs of
       Some d \<Rightarrow> Some (Inr d) | None \<Rightarrow> search_device vendor product bus (Suc n)))"

text \<open>The results of the calls after the search, in their order.\<close>

record connect_results =
  cr_init :: int
  cr_list :: int
  cr_open :: int
  cr_auto_detach :: int
  cr_get_configuration :: int
  cr_reset :: int
  cr_string :: int
  cr_callback :: int

fun first_error :: "(bool \<times> int) list \<Rightarrow> int" where
  "first_error [] = 0"
| "first_error ((failed, e) # rs) = (if failed then e else first_error rs)"

text \<open>
  \<open>connect_device\<close>: zero, or the error, and the descriptors found. \<open>reset\<close> is the option
  \<open>reset_device_before_proxy\<close>; \<open>monitored\<close> says that the callback is registered already.
\<close>

definition connect_device ::
    "int \<Rightarrow> int \<Rightarrow> bool \<Rightarrow> bool \<Rightarrow> connect_results \<Rightarrow> (nat \<Rightarrow> int + bus_device list)
       \<Rightarrow> (int \<times> libusb_descriptors option) option" where
  "connect_device vendor product reset monitored r bus =
    (if cr_init r < 0 then Some (1, None)
     else if cr_list r < 0 then Some (cr_list r, None)
     else case search_device vendor product bus 0 of
       None \<Rightarrow> None
     | Some (Inl e) \<Rightarrow> Some (e, None)
     | Some (Inr d) \<Rightarrow> Some (first_error
         [(cr_open r \<noteq> LIBUSB_SUCCESS, cr_open r), (cr_auto_detach r \<noteq> LIBUSB_SUCCESS, cr_auto_detach r),
          (cr_get_configuration r \<noteq> LIBUSB_SUCCESS, cr_get_configuration r),
          (reset \<and> cr_reset r \<noteq> LIBUSB_SUCCESS, cr_reset r), (cr_string r < 0, cr_string r),
          (\<not> monitored \<and> cr_callback r \<noteq> LIBUSB_SUCCESS, cr_callback r)], Some d))"

text \<open>The interfaces the kernel driver is detached from: those of the active configuration.\<close>

definition detached_interfaces :: "int \<Rightarrow> libusb_descriptors \<Rightarrow> nat list" where
  "detached_interfaces config d =
    concat (map (\<lambda>c. if uint (cd_value (lc_config c)) \<noteq> config then [] else [0..<unat (cd_interfaces (lc_config c))])
      (ld_configs d))"

subsection \<open>Control transfers\<close>

text \<open>\<open>control_request\<close>: the result of the transfer is its number of bytes or an error.\<close>

definition libusb_control_request :: "int \<Rightarrow> int \<times> nat option" where
  "libusb_control_request r =
    (if r < 0 then (if r = LIBUSB_ERROR_PIPE then -1 else r, None) else (0, Some (nat r)))"

subsection \<open>Sending and receiving\<close>

datatype usb_call = Transfer int int | Clear_Halt

definition halted :: "int \<Rightarrow> bool" where
  "halted r \<longleftrightarrow> r = LIBUSB_ERROR_PIPE \<or> r = LIBUSB_ERROR_TIMEOUT"

definition halt_calls :: "int \<Rightarrow> usb_call list" where
  "halt_calls r = (if halted r then [Clear_Halt] else [])"

text \<open>
  The retry loop of a bulk transfer: the outcome of an attempt is the result and the count of
  bytes; a send is complete when the count is \<open>length\<close>. It returns the last result, the last
  count and the calls made.
\<close>

function send_bulk :: "(nat \<Rightarrow> int \<times> int) \<Rightarrow> int \<Rightarrow> nat \<Rightarrow> usb_call list \<Rightarrow> int \<times> usb_call list" where
  "send_bulk transfer n attempt calls =
    (let (result, transferred) = transfer attempt;
         calls = calls @ Transfer result transferred # halt_calls result; attempt = attempt + 1
     in if (halted result \<or> transferred \<noteq> n) \<and> attempt < MAX_ATTEMPTS
        then send_bulk transfer n attempt calls else (result, calls))"
  by pat_completeness auto

termination
  by (relation "measure (\<lambda>(_, _, attempt, _). MAX_ATTEMPTS - attempt)") auto

function receive_bulk :: "(nat \<Rightarrow> int \<times> int) \<Rightarrow> nat \<Rightarrow> usb_call list \<Rightarrow> int \<times> int \<times> usb_call list" where
  "receive_bulk transfer attempt calls =
    (let (result, count) = transfer attempt;
         calls = calls @ Transfer result count # halt_calls result; attempt = attempt + 1
     in if halted result \<and> attempt < MAX_ATTEMPTS then receive_bulk transfer attempt calls else (result, count, calls))"
  by pat_completeness auto

termination
  by (relation "measure (\<lambda>(_, attempt, _). MAX_ATTEMPTS - attempt)") auto

declare send_bulk.simps [simp del] receive_bulk.simps [simp del]

datatype transfer_type = Control_Type | Isochronous_Type | Bulk_Type | Interrupt_Type

definition transfer_type_of :: "u8 \<Rightarrow> transfer_type" where
  "transfer_type_of attributes =
    (if attributes AND 3 = 0 then Control_Type else if attributes AND 3 = 1 then Isochronous_Type
     else if attributes AND 3 = 2 then Bulk_Type else Interrupt_Type)"

definition send_data :: "u8 \<Rightarrow> nat \<Rightarrow> (nat \<Rightarrow> int \<times> int) \<Rightarrow> int \<times> usb_call list" where
  "send_data attributes n transfer = (case transfer_type_of attributes of
     Control_Type \<Rightarrow> (LIBUSB_SUCCESS, [])
   | Isochronous_Type \<Rightarrow> (LIBUSB_SUCCESS, [])
   | Bulk_Type \<Rightarrow> send_bulk transfer (int n) 0 []
   | Interrupt_Type \<Rightarrow> (fst (transfer 0), [Transfer (fst (transfer 0)) (snd (transfer 0))]))"

text \<open>
  \<open>receive_data\<close> with the count the caller starts with. For an isochronous endpoint \<open>transfer 0\<close> is
  the result of submitting the transfer and the length of its one packet once completed.
\<close>

definition receive_data :: "u8 \<Rightarrow> int \<Rightarrow> (nat \<Rightarrow> int \<times> int) \<Rightarrow> int \<times> int \<times> usb_call list" where
  "receive_data attributes count transfer = (case transfer_type_of attributes of
     Control_Type \<Rightarrow> (LIBUSB_SUCCESS, count, [])
   | Isochronous_Type \<Rightarrow>
      (let (result, n) = transfer 0
       in (result, if result \<noteq> LIBUSB_SUCCESS then count else n, [Transfer result n]))
   | Bulk_Type \<Rightarrow> receive_bulk transfer 0 []
   | Interrupt_Type \<Rightarrow> (let (result, n) = transfer 0 in (result, n, [Transfer result n])))"

end
