(* ===== verification/Endpoint_Loops.thy ===== *)
theory Endpoint_Loops
  imports Injection_Facts Raw_Gadget Device_Libusb Mixer_System
begin

text \<open>
  The two threads of an endpoint, \<open>ep_loop_read\<close> and \<open>ep_loop_write\<close> of \<open>proxy.cpp\<close>, in the steps between
  which other threads run. The queue is that of the thread information in the mixer's
  table. Each thread works on the copy of its information it made when it started. \<open>rules\<close> is
  the rule set when injection is enabled. \<open>None\<close> is an injection that does not return.
\<close>

record ep_thread =
  et_info :: nat
  et_num :: int
  et_address :: u8
  et_attributes :: u8
  et_type :: string
  et_mouse :: bool

datatype loop_next = Loop_Continue | Loop_Break | Loop_Exit

definition MAX_QUEUED :: nat where
  "MAX_QUEUED = 32"

definition dir_in :: "ep_thread \<Rightarrow> bool" where
  "dir_in t \<longleftrightarrow> (et_address t AND 0x80) \<noteq> 0"

definition ep_queue :: "ep_thread \<Rightarrow> mixer \<Rightarrow> transfer_io list" where
  "ep_queue t mx = th_queue (mx_threads mx (et_info t))"

definition ep_injection ::
    "'j json_library \<Rightarrow> 'j option \<Rightarrow> ep_thread \<Rightarrow> transfer_io \<Rightarrow> transfer_io option" where
  "ep_injection L rules t io = (case rules of None \<Rightarrow> Some io
     | Some config \<Rightarrow> injection_transfer L config (et_type t) (uint (et_address t)) io)"

subsection \<open>Reading\<close>

text \<open>The check before a read from the device; a full queue or the stop flag ends the round.\<close>

definition read_ready :: "ep_thread \<Rightarrow> bool \<Rightarrow> mixer \<Rightarrow> bool" where
  "read_ready t stop mx \<longleftrightarrow> \<not> stop \<and> length (ep_queue t mx) < MAX_QUEUED"

text \<open>A transfer from the device with its result and its bytes, up to the report to enqueue.\<close>

definition ep_read_in ::
    "'j json_library \<Rightarrow> 'j option \<Rightarrow> ep_thread \<Rightarrow> int \<Rightarrow> bytes \<Rightarrow> u64 \<Rightarrow> mixer
       \<Rightarrow> (loop_next \<times> transfer_io option \<times> mixer) option" where
  "ep_read_in L rules t rv data now mx =
    (if rv = LIBUSB_ERROR_NO_DEVICE then Some (Loop_Break, None, mx)
     else if rv = LIBUSB_SUCCESS \<and> 0 < length data \<and> length data \<le> MAX_TRANSFER_SIZE then
       do { io \<leftarrow> ep_injection L rules t (read_report (et_num t) data);
            let (io, mx) = (if et_mouse t \<and> et_type t = ''int''
              then queue_physical_mouse_report (uint (et_address t)) io now mx else (io, mx));
            Some (Loop_Continue, Some io, mx) }
     else Some (Loop_Continue, None, mx))"

text \<open>A read from the host: the outcome of the call with the bytes it wrote.\<close>

definition ep_read_out ::
    "'j json_library \<Rightarrow> 'j option \<Rightarrow> ep_thread \<Rightarrow> errno + bytes \<Rightarrow> (loop_next \<times> transfer_io option) option" where
  "ep_read_out L rules t r = (case usb_raw_ep_read r of
     None \<Rightarrow> Some (Loop_Exit, None)
   | Some (Inl e) \<Rightarrow> Some (if e = ESHUTDOWN \<or> e = EINTR then Loop_Break else Loop_Exit, None)
   | Some (Inr data) \<Rightarrow> do { io \<leftarrow> ep_injection L rules t (read_report (et_num t) data); Some (Loop_Continue, Some io) })"

text \<open>
  Appending the report. Towards the host the reader first waits, unless it must stop, for room
  in the queue; towards the device it does not.
\<close>

definition ep_room :: "ep_thread \<Rightarrow> mixer \<Rightarrow> bool" where
  "ep_room t mx \<longleftrightarrow> dir_in t \<longrightarrow> length (ep_queue t mx) < MAX_QUEUED"

definition ep_push :: "ep_thread \<Rightarrow> transfer_io \<Rightarrow> mixer \<Rightarrow> mixer" where
  "ep_push t io mx = put_queue (et_info t) (ep_queue t mx @ [io]) mx"

subsection \<open>Writing\<close>

definition managed_mouse :: "ep_thread \<Rightarrow> bool" where
  "managed_mouse t \<longleftrightarrow> et_mouse t \<and> et_type t = ''int'' \<and> dir_in t"

text \<open>The report to write, if there is one; a mouse report comes from the mixer.\<close>

definition ep_take :: "ep_thread \<Rightarrow> u64 \<Rightarrow> mixer \<Rightarrow> transfer_io option \<times> mixer" where
  "ep_take t now mx =
    (if managed_mouse t
     then let (ok, io, mx) = take_mouse_report (uint (et_address t)) no_io now mx in (if ok then Some io else None, mx)
     else case ep_queue t mx of [] \<Rightarrow> (None, mx) | io # rest \<Rightarrow> (Some io, put_queue (et_info t) rest mx))"

text \<open>After the write to the host.\<close>

definition ep_write_in :: "ep_thread \<Rightarrow> transfer_io \<Rightarrow> errno + int \<Rightarrow> u64 \<Rightarrow> mixer \<Rightarrow> loop_next \<times> mixer" where
  "ep_write_in t io r now mx = (case usb_raw_ep_write r of
     None \<Rightarrow> (Loop_Exit, mx)
   | Some r \<Rightarrow>
      (let mx = (if managed_mouse t
                 then notify_mouse_report_written (uint (et_address t)) io (r = Inr (int (io_length io))) now mx else mx)
       in case r of
            Inl e \<Rightarrow> (if e = ESHUTDOWN \<or> e = EINTR then Loop_Break
                      else if e = EXDEV \<or> e = ENODATA then Loop_Continue else Loop_Exit, mx)
          | Inr rv \<Rightarrow> (Loop_Continue, mx)))"

definition ep_write_out :: "ep_thread \<Rightarrow> transfer_io \<Rightarrow> (nat \<Rightarrow> int \<times> int) \<Rightarrow> loop_next \<times> usb_call list" where
  "ep_write_out t io transfer =
    (let (rv, calls) = send_data (et_attributes t) (io_length io) transfer
     in (if rv = LIBUSB_ERROR_NO_DEVICE then Loop_Break else Loop_Continue, calls))"

definition held :: "'a option \<Rightarrow> 'a list" where
  "held r = (case r of None \<Rightarrow> [] | Some x \<Rightarrow> [x])"

lemma held_simps [simp]: "held None = []" "held (Some x) = [x]"
  by (simp_all add: held_def)

text \<open>
  What the two threads of an endpoint ask of the queue between them: it keeps its content in
  order, and only an empty queue has nothing to give. Then whatever is put in comes out in the same order,
  with nothing lost between the thread that holds a report and the queue.
\<close>

locale report_queue =
  fixes content :: "'q \<Rightarrow> 'a list"
    and put :: "'a \<Rightarrow> 'q \<Rightarrow> 'q"
    and get :: "'q \<Rightarrow> 'a option \<times> 'q"
  assumes content_put: "content (put x q) = content q @ [x]"
    and content_get: "get q = (w, q') \<Longrightarrow> content q = held w @ content q'"
    and get_None: "fst (get q) = None \<longleftrightarrow> content q = []"
begin

definition in_transit :: "'a option \<Rightarrow> 'q \<Rightarrow> 'a option \<Rightarrow> 'a list" where
  "in_transit w q r = held w @ content q @ held r"

lemma transit_put: "in_transit w (put x q) None = in_transit w q (Some x)"
  by (simp add: in_transit_def content_put)

lemma transit_get: "get q = (w, q') \<Longrightarrow> in_transit w q' r = in_transit None q r"
  using content_get by (simp add: in_transit_def)

lemma get_first: "content q = x # xs \<Longrightarrow> \<exists>q'. get q = (Some x, q') \<and> content q' = xs"
proof -
  assume c: "content q = x # xs"
  then obtain w q' where g: "get q = (Some w, q')" using get_None [of q] by (cases "get q") auto
  then show ?thesis using content_get [OF g] c by auto
qed

text \<open>As many reports as are queued can be taken, in their order.\<close>

fun drain :: "nat \<Rightarrow> 'q \<Rightarrow> 'a list" where
  "drain 0 q = []"
| "drain (Suc n) q = (case get q of (None, _) \<Rightarrow> [] | (Some x, q') \<Rightarrow> x # drain n q')"

lemma drain_content: "drain n q = take n (content q)"
proof (induction n arbitrary: q)
  case (Suc n)
  show ?case
  proof (cases "content q")
    case Nil
    then show ?thesis using get_None [of q] by (cases "get q") auto
  next
    case (Cons x xs)
    then obtain q' where "get q = (Some x, q')" "content q' = xs" using get_first by blast
    then show ?thesis using Suc Cons by simp
  qed
qed simp

lemma drain_put: "content q = [] \<Longrightarrow> drain (length xs) (fold put xs q) = xs"
proof -
  have "content (fold put xs q) = content q @ xs" for q
    by (induction xs arbitrary: q) (simp_all add: content_put)
  then show "content q = [] \<Longrightarrow> ?thesis" by (simp add: drain_content)
qed

end

lemma ep_take_plain:
  "\<not> et_mouse t \<Longrightarrow> ep_take t now mx = (w, mx') \<Longrightarrow> ep_queue t mx = held w @ ep_queue t mx'"
  by (auto simp: ep_take_def managed_mouse_def ep_queue_def split: list.splits)

lemma ep_push_queue: "ep_queue t (ep_push t io mx) = ep_queue t mx @ [io]"
  by (simp add: ep_queue_def ep_push_def)

text \<open>The queue of an endpoint that is no mouse, as its writer sees it.\<close>

definition plain_thread :: "ep_thread \<Rightarrow> ep_thread" where
  "plain_thread t = t\<lparr>et_mouse := False\<rparr>"

lemma plain_thread_id: "\<not> et_mouse t \<Longrightarrow> plain_thread t = t"
  by (simp add: plain_thread_def)

interpretation plain_queue: report_queue "ep_queue (plain_thread t)" "ep_push (plain_thread t)" "ep_take (plain_thread t) now" for t now
proof unfold_locales
  show "ep_take (plain_thread t) now q = (w, q') \<Longrightarrow> ep_queue (plain_thread t) q = held w @ ep_queue (plain_thread t) q'" for q w q'
    by (rule ep_take_plain) (simp_all add: plain_thread_def)
  show "fst (ep_take (plain_thread t) now q) = None \<longleftrightarrow> ep_queue (plain_thread t) q = []" for q
    by (simp add: ep_take_def managed_mouse_def plain_thread_def split: list.split)
qed (rule ep_push_queue)

subsection \<open>An endpoint that is no mouse is a bounded queue\<close>

text \<open>
  The threads of one endpoint: what its reader and its writer hold, and the history of the
  reports that came in and of those written (or given up) with the direction the loop
  took. The run lasts until a thread ends or the stop flag is set.
\<close>

record fifo =
  ff_mixer :: mixer
  ff_reader :: "transfer_io option"
  ff_writer :: "transfer_io option"
  ff_in :: "transfer_io list"
  ff_out :: "transfer_io list"

inductive fifo_step :: "'j json_library \<Rightarrow> 'j option \<Rightarrow> ep_thread \<Rightarrow> fifo \<Rightarrow> fifo \<Rightarrow> bool" for L rules t where
  read_in: "dir_in t \<Longrightarrow> ff_reader f = None \<Longrightarrow> read_ready t False (ff_mixer f)
    \<Longrightarrow> ep_read_in L rules t rv data now (ff_mixer f) = Some (Loop_Continue, r, mx)
    \<Longrightarrow> fifo_step L rules t f (f\<lparr>ff_mixer := mx, ff_reader := r,
          ff_in := ff_in f @ (case r of None \<Rightarrow> [] | Some io \<Rightarrow> [io])\<rparr>)"
| read_out: "\<not> dir_in t \<Longrightarrow> ff_reader f = None \<Longrightarrow> ep_read_out L rules t r = Some (Loop_Continue, Some io)
    \<Longrightarrow> fifo_step L rules t f (f\<lparr>ff_reader := Some io, ff_in := ff_in f @ [io]\<rparr>)"
| push: "ff_reader f = Some io \<Longrightarrow> ep_room t (ff_mixer f)
    \<Longrightarrow> fifo_step L rules t f (f\<lparr>ff_mixer := ep_push t io (ff_mixer f), ff_reader := None\<rparr>)"
| take: "ff_writer f = None \<Longrightarrow> ep_take t now (ff_mixer f) = (w, mx)
    \<Longrightarrow> fifo_step L rules t f (f\<lparr>ff_mixer := mx, ff_writer := w\<rparr>)"
| write_in: "dir_in t \<Longrightarrow> ff_writer f = Some io \<Longrightarrow> ep_write_in t io r now (ff_mixer f) = (Loop_Continue, mx)
    \<Longrightarrow> fifo_step L rules t f (f\<lparr>ff_mixer := mx, ff_writer := None, ff_out := ff_out f @ [io]\<rparr>)"
| write_out: "\<not> dir_in t \<Longrightarrow> ff_writer f = Some io \<Longrightarrow> ep_write_out t io transfer = (Loop_Continue, calls)
    \<Longrightarrow> fifo_step L rules t f (f\<lparr>ff_writer := None, ff_out := ff_out f @ [io]\<rparr>)"
| others: "th_queue (mx_threads mx (et_info t)) = ep_queue t (ff_mixer f)
    \<Longrightarrow> fifo_step L rules t f (f\<lparr>ff_mixer := mx\<rparr>)"

inductive fifo_reach :: "'j json_library \<Rightarrow> 'j option \<Rightarrow> ep_thread \<Rightarrow> fifo \<Rightarrow> bool" for L rules t where
  start: "ep_queue t mx = [] \<Longrightarrow> fifo_reach L rules t \<lparr>ff_mixer = mx, ff_reader = None, ff_writer = None, ff_in = [], ff_out = []\<rparr>"
| step: "fifo_reach L rules t f \<Longrightarrow> fifo_step L rules t f f' \<Longrightarrow> fifo_reach L rules t f'"

text \<open>Every report that came in has been written, is held or is queued, in the order of arrival.\<close>

definition fifo_ok :: "ep_thread \<Rightarrow> fifo \<Rightarrow> bool" where
  "fifo_ok t f \<longleftrightarrow> ff_in f = ff_out f @ held (ff_writer f) @ ep_queue t (ff_mixer f) @ held (ff_reader f)
     \<and> (dir_in t \<longrightarrow> length (ep_queue t (ff_mixer f)) \<le> MAX_QUEUED)"

lemma ep_read_in_plain:
  assumes "ep_read_in L rules t rv data now mx = Some (next, r, mx')" and "\<not> et_mouse t"
  shows "mx' = mx"
  using assms by (auto simp: ep_read_in_def bind_eq_Some_conv split: if_splits)

lemma ep_write_in_plain: "\<not> et_mouse t \<Longrightarrow> ep_write_in t io r now mx = (next, mx') \<Longrightarrow> mx' = mx"
  by (auto simp: ep_write_in_def managed_mouse_def split: option.splits sum.splits)

lemma fifo_ok_transit:
  assumes "\<not> et_mouse t"
  shows "fifo_ok t f \<longleftrightarrow> ff_in f = ff_out f @ plain_queue.in_transit t (ff_writer f) (ff_mixer f) (ff_reader f)
     \<and> (dir_in t \<longrightarrow> length (ep_queue t (ff_mixer f)) \<le> MAX_QUEUED)"
  by (simp only: fifo_ok_def plain_queue.in_transit_def) (simp add: plain_thread_id [OF assms])

lemma fifo_step_ok:
  assumes "fifo_step L rules t f f'" and "fifo_ok t f" and "\<not> et_mouse t"
  shows "fifo_ok t f'"
  using assms(1)
proof cases
  case (read_in rv data now r mx)
  then show ?thesis using assms(2) ep_read_in_plain [OF read_in(5) assms(3)]
    by (auto simp: fifo_ok_def held_def)
next
  case (push io)
  then show ?thesis using assms(2) plain_queue.transit_put [of t "ff_writer f" io "ff_mixer f"]
    by (auto simp: fifo_ok_transit [OF assms(3)] plain_thread_id [OF assms(3)] ep_push_queue ep_room_def)
next
  case (take now w mx)
  then have "ep_take (plain_thread t) now (ff_mixer f) = (w, mx)" by (simp add: plain_thread_id [OF assms(3)])
  from plain_queue.transit_get [OF this, of "ff_reader f"] show ?thesis
    using assms(2) take ep_take_plain [OF assms(3) take(3)] by (auto simp: fifo_ok_transit [OF assms(3)])
next
  case (write_in io r now mx)
  then show ?thesis using assms(2) ep_write_in_plain [OF assms(3) write_in(4)] by (auto simp: fifo_ok_def)
next
  case (others mx)
  then show ?thesis using assms(2) by (auto simp: fifo_ok_def ep_queue_def)
qed (use assms(2) in \<open>auto simp: fifo_ok_def\<close>)

lemma fifo_reach_ok: "fifo_reach L rules t f \<Longrightarrow> \<not> et_mouse t \<Longrightarrow> fifo_ok t f"
proof (induction rule: fifo_reach.induct)
  case (start mx)
  then show ?case by (simp add: fifo_ok_def)
next
  case (step f f')
  then show ?case using fifo_step_ok by blast
qed

end
