(* ===== verification/Control_Proxy.thy ===== *)
theory Control_Proxy
  imports Endpoint_Loops
begin

text \<open>
  The control thread of the live proxy: \<open>process_eps\<close>, \<open>terminate_eps\<close> and \<open>ep0_loop\<close> of \<open>proxy.cpp\<close>.
  What the physical device and the driver answer during one event is the argument \<open>ans\<close>. A
  handler returns the answer to the host (\<open>None\<close>: the request is left unanswered), the calls it made in their
  order, and the new state, or the fault that stops the program.
\<close>

datatype proxy_fault = Fault_Assert | Fault_Bounds | Fault_Stopped_Endpoint | Fault_Overflow | Fault_No_Return

datatype proxy_call = Reset_Device | Set_Configuration u8 | Claim_Interface u8 | Release_Interface u8
  | Set_Altsetting u8 u8 | Start_Threads nat | Stop_Threads nat | Device_Request control_request bytes

record answers =
  an_report :: "u8 \<Rightarrow> nat \<Rightarrow> bytes"
  an_protocol :: "u8 \<Rightarrow> u8 option"
  an_ep_num :: "u8 \<Rightarrow> int"
  an_speed :: int
  an_control :: "control_request \<Rightarrow> bytes \<Rightarrow> int + bytes"
  an_ack :: "errno + bytes"

record proxy =
  px_device :: gadget_device
  px_mixer :: mixer
  px_configured :: bool

definition bind_sum :: "'e + 'a \<Rightarrow> ('a \<Rightarrow> 'e + 'b) \<Rightarrow> 'e + 'b" where
  "bind_sum r f = (case r of Inl e \<Rightarrow> Inl e | Inr x \<Rightarrow> f x)"

lemma bind_sum_simps [simp]: "bind_sum (Inl e) f = Inl e" "bind_sum (Inr x) f = f x"
  by (simp_all add: bind_sum_def)

subsection \<open>The report descriptor of a HID interface\<close>

text \<open>The entries of one HID descriptor, and the walk over the extra bytes of the interface; the last entry wins.\<close>

function report_entries :: "bytes \<Rightarrow> nat \<Rightarrow> nat \<Rightarrow> nat \<Rightarrow> nat \<Rightarrow> nat" where
  "report_entries extra pos block entry len =
    (if entry + 3 \<le> block
     then report_entries extra pos block (entry + 3)
       (if extra ! (pos + entry) = 0x22
        then unat (extra ! (pos + entry + 1)) + 256 * unat (extra ! (pos + entry + 2)) else len)
     else len)"
  by pat_completeness auto

termination
  by (relation "measure (\<lambda>(_, _, block, entry, _). block - entry)") auto

function report_length_scan :: "bytes \<Rightarrow> nat \<Rightarrow> nat \<Rightarrow> nat" where
  "report_length_scan extra pos len =
    (if pos + 2 \<le> length extra
     then let block = unat (extra ! pos) in
       if block < 2 \<or> pos + block > length extra then len
       else report_length_scan extra (pos + block)
         (if extra ! (pos + 1) = 0x21 \<and> block \<ge> 9 then report_entries extra pos block 6 len else len)
     else len)"
  by pat_completeness auto

termination
  by (relation "measure (\<lambda>(extra, pos, _). length extra - pos)") auto

declare report_entries.simps [simp del] report_length_scan.simps [simp del]

definition USB_CLASS_HID :: u8 where
  "USB_CLASS_HID = 3"

definition learn_interface :: "answers \<Rightarrow> interface_descriptor \<Rightarrow> bytes \<Rightarrow> mixer \<Rightarrow> mixer" where
  "learn_interface ans f extra mx =
    (if fd_class f \<noteq> USB_CLASS_HID then mx
     else let n = int (unat (fd_number f)); len = report_length_scan extra 0 0;
              report = (if 0 < len \<and> len \<le> MAX_TRANSFER_SIZE then take len (an_report ans (fd_number f) len) else []);
              mx = learn_mouse_descriptor n report mx;
              protocol = (if fd_subclass f = 1 \<and> fd_protocol f = 2
                then (case an_protocol ans (fd_number f) of Some p \<Rightarrow> p | None \<Rightarrow> 1) else 1)
     in set_mouse_protocol n (protocol = 0) mx)"

subsection \<open>Starting and stopping endpoints\<close>

definition poll_interval_us :: "int \<Rightarrow> nat \<Rightarrow> u32" where
  "poll_interval_us speed interval =
    (if speed \<ge> 3 then push_bit (max 1 (min 16 interval) - 1) 125 else of_nat (max 1 interval) * 1000)"

definition endpoint_in :: "endpoint_descriptor \<Rightarrow> bool" where
  "endpoint_in e \<longleftrightarrow> (ed_address e AND 0x80) \<noteq> 0"

definition start_endpoint ::
    "answers \<Rightarrow> interface_descriptor \<Rightarrow> gadget_endpoint \<Rightarrow> mixer
       \<Rightarrow> proxy_fault + (gadget_endpoint \<times> mixer \<times> proxy_call list)" where
  "start_endpoint ans f e mx =
    (let d = ge_descriptor e; ty = transfer_type_of (ed_attributes d); num = an_ep_num ans (ed_address d);
         poll = (if ty = Interrupt_Type then poll_interval_us (an_speed ans) (unat (ed_interval d)) else 0);
         th = fresh_thread num (uint (ed_address d)) poll;
         mx = mx\<lparr>mx_threads := (mx_threads mx)(ge_info e := th)\<rparr>;
         mx = (if fd_class f = USB_CLASS_HID \<and> endpoint_in d \<and> ty = Interrupt_Type
               then register_mouse_endpoint (ge_info e) (int (unat (fd_number f))) mx else mx)
     in if ed_address d AND 0x0f = 0 \<or> ty = Control_Type then Inl Fault_Assert
        else Inr (e\<lparr>ge_num := num, ge_reading := True, ge_writing := True\<rparr>, mx, [Start_Threads (ge_info e)]))"

definition stop_endpoint :: "gadget_endpoint \<Rightarrow> mixer \<Rightarrow> proxy_fault + (gadget_endpoint \<times> mixer \<times> proxy_call list)" where
  "stop_endpoint e mx =
    (if \<not> ge_reading e then Inl Fault_Stopped_Endpoint
     else Inr (e\<lparr>ge_num := -1, ge_reading := False, ge_writing := False\<rparr>, unregister_mouse_endpoint (ge_info e) mx,
       [Stop_Threads (ge_info e)]))"

text \<open>The loop over the endpoints of an alternate setting.\<close>

fun each_endpoint ::
    "(gadget_endpoint \<Rightarrow> mixer \<Rightarrow> proxy_fault + (gadget_endpoint \<times> mixer \<times> proxy_call list))
       \<Rightarrow> gadget_endpoint list \<Rightarrow> mixer \<Rightarrow> proxy_fault + (gadget_endpoint list \<times> mixer \<times> proxy_call list)" where
  "each_endpoint f [] mx = Inr ([], mx, [])"
| "each_endpoint f (e # es) mx =
    bind_sum (f e mx) (\<lambda>(e, mx, cs).
    bind_sum (each_endpoint f es mx) (\<lambda>(es, mx, cs'). Inr (e # es, mx, cs @ cs')))"

definition interface_at :: "gadget_device \<Rightarrow> nat \<Rightarrow> nat \<Rightarrow> gadget_interface" where
  "interface_at g i j = gc_interfaces (gd_configs g ! i) ! j"

definition alt_in_range :: "gadget_device \<Rightarrow> nat \<Rightarrow> nat \<Rightarrow> nat \<Rightarrow> bool" where
  "alt_in_range g i j k \<longleftrightarrow> i < length (gd_configs g) \<and> j < length (gc_interfaces (gd_configs g ! i))
     \<and> k < length (gi_altsettings (interface_at g i j))"

definition update_interface :: "nat \<Rightarrow> nat \<Rightarrow> (gadget_interface \<Rightarrow> gadget_interface) \<Rightarrow> gadget_device \<Rightarrow> gadget_device" where
  "update_interface i j f g = g\<lparr>gd_configs := (gd_configs g)[i := (gd_configs g ! i)
     \<lparr>gc_interfaces := (gc_interfaces (gd_configs g ! i))[j := f (interface_at g i j)]\<rparr>]\<rparr>"

definition set_endpoints :: "nat \<Rightarrow> gadget_endpoint list \<Rightarrow> gadget_interface \<Rightarrow> gadget_interface" where
  "set_endpoints k es t = t\<lparr>gi_altsettings := (gi_altsettings t)[k := (gi_altsettings t ! k)\<lparr>ga_endpoints := es\<rparr>]\<rparr>"

definition set_current :: "nat \<Rightarrow> gadget_interface \<Rightarrow> gadget_interface" where
  "set_current k t = t\<lparr>gi_current := k\<rparr>"

text \<open>\<open>extra\<close> gives the extra bytes libusb holds for an alternate setting.\<close>

definition process_eps ::
    "(nat \<Rightarrow> nat \<Rightarrow> nat \<Rightarrow> bytes) \<Rightarrow> answers \<Rightarrow> nat \<Rightarrow> nat \<Rightarrow> nat \<Rightarrow> proxy \<Rightarrow> proxy_fault + (proxy_call list \<times> proxy)" where
  "process_eps extra ans i j k px =
    (if \<not> alt_in_range (px_device px) i j k then Inl Fault_Bounds
     else let alt = gi_altsettings (interface_at (px_device px) i j) ! k; f = ga_interface alt;
              mx = learn_interface ans f (extra i j k) (px_mixer px)
     in bind_sum (each_endpoint (start_endpoint ans f) (ga_endpoints alt) mx) (\<lambda>(es, mx, cs).
        Inr (cs, px\<lparr>px_device := update_interface i j (set_endpoints k es) (px_device px), px_mixer := mx\<rparr>)))"

definition terminate_eps :: "nat \<Rightarrow> nat \<Rightarrow> nat \<Rightarrow> proxy \<Rightarrow> proxy_fault + (proxy_call list \<times> proxy)" where
  "terminate_eps i j k px =
    (if \<not> alt_in_range (px_device px) i j k then Inl Fault_Bounds
     else bind_sum (each_endpoint stop_endpoint
            (ga_endpoints (gi_altsettings (interface_at (px_device px) i j) ! k)) (px_mixer px)) (\<lambda>(es, mx, cs).
        Inr (cs, px\<lparr>px_device := update_interface i j (set_endpoints k es) (px_device px), px_mixer := mx\<rparr>)))"

subsection \<open>Reset and configuration\<close>

fun each_interface ::
    "(nat \<Rightarrow> proxy \<Rightarrow> proxy_fault + (proxy_call list \<times> proxy)) \<Rightarrow> nat list \<Rightarrow> proxy
       \<Rightarrow> proxy_fault + (proxy_call list \<times> proxy)" where
  "each_interface f [] px = Inr ([], px)"
| "each_interface f (j # js) px =
    bind_sum (f j px) (\<lambda>(cs, px). bind_sum (each_interface f js px) (\<lambda>(cs', px). Inr (cs @ cs', px)))"

definition interface_count :: "gadget_device \<Rightarrow> nat \<Rightarrow> nat" where
  "interface_count g i = unat (cd_interfaces (gc_config (gd_configs g ! i)))"

text \<open>
  Stopping interface \<open>j\<close>: number and alternate setting are those of configuration \<open>d\<close>, the endpoints
  those of the current configuration.
\<close>

definition stop_interface :: "nat \<Rightarrow> nat \<Rightarrow> proxy \<Rightarrow> proxy_fault + (proxy_call list \<times> proxy)" where
  "stop_interface d j px =
    (let t = interface_at (px_device px) d j
     in if j \<ge> length (gc_interfaces (gd_configs (px_device px) ! d)) \<or> gi_current t \<ge> length (gi_altsettings t)
        then Inl Fault_Bounds
        else bind_sum (terminate_eps (gd_current (px_device px)) j (gi_current t) px) (\<lambda>(cs, px).
          Inr (cs @ [Release_Interface (fd_number (ga_interface (gi_altsettings t ! gi_current t)))], px)))"

definition reset_interface :: "nat \<Rightarrow> nat \<Rightarrow> proxy \<Rightarrow> proxy_fault + (proxy_call list \<times> proxy)" where
  "reset_interface d j px = bind_sum (stop_interface d j px) (\<lambda>(cs, px).
     Inr (cs, px\<lparr>px_device := update_interface d j (set_current 0) (px_device px)\<rparr>))"

definition proxy_reset :: "proxy \<Rightarrow> proxy_fault + (proxy_call list \<times> proxy)" where
  "proxy_reset px =
    (if \<not> px_configured px then Inr ([Reset_Device], px)
     else let c = gd_current (px_device px)
     in bind_sum (each_interface (reset_interface c) [0..<interface_count (px_device px) c] px) (\<lambda>(cs, px).
        Inr (Reset_Device # cs, px\<lparr>px_device := (px_device px)\<lparr>gd_current := 0\<rparr>, px_configured := False\<rparr>)))"

definition start_interface ::
    "(nat \<Rightarrow> nat \<Rightarrow> nat \<Rightarrow> bytes) \<Rightarrow> answers \<Rightarrow> nat \<Rightarrow> nat \<Rightarrow> proxy \<Rightarrow> proxy_fault + (proxy_call list \<times> proxy)" where
  "start_interface extra ans d j px =
    (let px = px\<lparr>px_device := update_interface d j (set_current 0) (px_device px)\<rparr>
     in if \<not> alt_in_range (px_device px) d j 0 then Inl Fault_Bounds
        else bind_sum (process_eps extra ans d j 0 px) (\<lambda>(cs, px).
          Inr (Claim_Interface (fd_number (ga_interface (gi_altsettings (interface_at (px_device px) d j) ! 0))) # cs, px)))"

definition find_index :: "('a \<Rightarrow> bool) \<Rightarrow> 'a list \<Rightarrow> nat option" where
  "find_index p xs = find (\<lambda>i. p (xs ! i)) [0..<length xs]"

text \<open>\<open>SET_CONFIGURATION\<close>: \<open>None\<close> where no configuration has the value.\<close>

definition set_proxy_configuration ::
    "(nat \<Rightarrow> nat \<Rightarrow> nat \<Rightarrow> bytes) \<Rightarrow> answers \<Rightarrow> u16 \<Rightarrow> proxy
       \<Rightarrow> proxy_fault + (bool \<times> proxy_call list \<times> proxy)" where
  "set_proxy_configuration extra ans value px =
    (case find_index (\<lambda>c. ucast (cd_value (gc_config c)) = value) (gd_configs (px_device px)) of
       None \<Rightarrow> Inr (False, [], px)
     | Some d \<Rightarrow>
         bind_sum (if px_configured px
                   then each_interface (stop_interface d) [0..<interface_count (px_device px) d] px
                   else Inr ([], px)) (\<lambda>(stopped, px).
         let px = px\<lparr>px_device := (px_device px)\<lparr>gd_current := d\<rparr>\<rparr>
         in bind_sum (each_interface (start_interface extra ans d) [0..<interface_count (px_device px) d] px) (\<lambda>(started, px).
            Inr (True, stopped @ Set_Configuration (cd_value (gc_config (gd_configs (px_device px) ! d))) # started,
              px\<lparr>px_configured := True\<rparr>))))"

definition set_proxy_interface ::
    "(nat \<Rightarrow> nat \<Rightarrow> nat \<Rightarrow> bytes) \<Rightarrow> answers \<Rightarrow> u16 \<Rightarrow> u16 \<Rightarrow> proxy
       \<Rightarrow> proxy_fault + (bool \<times> proxy_call list \<times> proxy)" where
  "set_proxy_interface extra ans index value px =
    (let g = px_device px; c = gd_current g
     in case find_index (\<lambda>t. ucast (fd_number (ga_interface (gi_altsettings t ! 0))) = index)
          (gc_interfaces (gd_configs g ! c)) of
       None \<Rightarrow> Inr (False, [], px)
     | Some j \<Rightarrow>
         (let t = interface_at g c j
          in case find_index (\<lambda>a. ucast (fd_alternate (ga_interface a)) = value) (gi_altsettings t) of
            None \<Rightarrow> Inr (False, [], px)
          | Some k \<Rightarrow>
              (let f = ga_interface (gi_altsettings t ! k); call = Set_Altsetting (fd_number f) (fd_alternate f)
               in if k = gi_current t then Inr (True, [call], px)
                  else bind_sum (terminate_eps c j (gi_current t) px) (\<lambda>(stopped, px).
                       bind_sum (process_eps extra ans c j k px) (\<lambda>(started, px).
                       Inr (True, stopped @ call # started,
                         px\<lparr>px_device := update_interface c j (set_current k) (px_device px)\<rparr>))))))"

subsection \<open>Control transfers\<close>

record 'j proxy_options =
  po_library :: "'j json_library"
  po_rules :: "'j option"
  po_max_packet :: bool
  po_extra :: "nat \<Rightarrow> nat \<Rightarrow> nat \<Rightarrow> bytes"

text \<open>The rules for a control transfer, when injection is enabled.\<close>

definition control_injection ::
    "'j proxy_options \<Rightarrow> control_request \<Rightarrow> transfer_io \<Rightarrow> proxy_fault + (control_request \<times> transfer_io \<times> injection_flag)" where
  "control_injection opts s io = (case po_rules opts of None \<Rightarrow> Inr (s, io, INJECTION_NONE)
     | Some config \<Rightarrow> (case injection_control (po_library opts) config s io of
         None \<Rightarrow> Inl Fault_No_Return | Some r \<Rightarrow> Inr r))"

text \<open>
  A control transfer to the physical device with the bytes sent; the device returns at most as many
  as asked for. Its errors all read alike here.
\<close>

definition device_control :: "answers \<Rightarrow> control_request \<Rightarrow> bytes \<Rightarrow> bytes option" where
  "device_control ans s data = (case an_control ans s data of
     Inl e \<Rightarrow> None | Inr reply \<Rightarrow> Some (take (unat (ct_length s)) reply))"

definition is_standard :: "control_request \<Rightarrow> bool" where
  "is_standard s \<longleftrightarrow> (ct_type s AND 0x60) = 0"

text \<open>The first packet size of a device descriptor is raised to 64 bytes.\<close>

definition fix_max_packet :: "bool \<Rightarrow> control_request \<Rightarrow> bytes \<Rightarrow> bytes" where
  "fix_max_packet on s p =
    (if on \<and> is_standard s \<and> ct_request s = USB_REQ_GET_DESCRIPTOR \<and> drop_bit 8 (ct_value s) = 1 \<and> p ! 7 < 64
     then p[7 := 64] else p)"

definition learn_reply :: "control_request \<Rightarrow> bytes \<Rightarrow> mixer \<Rightarrow> mixer" where
  "learn_reply s p mx =
    (if ct_type s = 0x81 \<and> ct_request s = USB_REQ_GET_DESCRIPTOR \<and> drop_bit 8 (ct_value s) = 0x22
     then learn_mouse_descriptor (int (unat (ct_index s))) p mx else mx)"

type_synonym handled = "proxy_fault + (control_reply option \<times> proxy_call list \<times> proxy)"

text \<open>\<open>io\<close> is the transfer buffer before the request, whose bytes are indeterminate.\<close>

definition control_in :: "'j proxy_options \<Rightarrow> answers \<Rightarrow> transfer_io \<Rightarrow> control_request \<Rightarrow> proxy \<Rightarrow> handled" where
  "control_in opts ans io s px = (case device_control ans s [] of
     None \<Rightarrow> Inr (Some Stall, [Device_Request s []], px)
   | Some reply \<Rightarrow>
       (let io = io\<lparr>io_length := length reply, io_data := blit (io_data io) 0 reply\<rparr>
        in bind_sum (control_injection opts s io) (\<lambda>(s, io, flag).
           case flag of
             INJECTION_IGNORE \<Rightarrow> Inr (None, [Device_Request s []], px)
           | INJECTION_STALL \<Rightarrow> Inr (Some Stall, [Device_Request s []], px)
           | INJECTION_NONE \<Rightarrow>
               (let mx = learn_reply s (take (io_length io) (io_data io)) (px_mixer px);
                    p = fix_max_packet (po_max_packet opts) s (io_data io)
                in Inr (Some (Send (take (io_length io) p)), [Device_Request s []], px\<lparr>px_mixer := mx\<rparr>)))))"

text \<open>\<open>SET_PROTOCOL\<close> that the device accepted: the layout of a boot mouse interface changes.\<close>

definition follow_protocol :: "control_request \<Rightarrow> proxy \<Rightarrow> proxy" where
  "follow_protocol s px =
    (if ct_type s = 0x21 \<and> ct_request s = 0x0b \<and> ct_value s \<le> 1 then
       let g = px_device px; c = gd_current g
       in fold (\<lambda>j px. let t = interface_at g c j; f = ga_interface (gi_altsettings t ! gi_current t)
            in if ucast (fd_number f) = ct_index s \<and> fd_class f = USB_CLASS_HID \<and> fd_subclass f = 1 \<and> fd_protocol f = 2
               then px\<lparr>px_mixer := set_mouse_protocol (int (unat (ct_index s))) (ct_value s = 0) (px_mixer px)\<rparr> else px)
          [0..<interface_count g c] px
     else px)"

text \<open>An OUT request other than those two. The copy of its data was allocated for the length the host gave.\<close>

definition control_out :: "'j proxy_options \<Rightarrow> answers \<Rightarrow> transfer_io \<Rightarrow> control_request \<Rightarrow> proxy \<Rightarrow> handled" where
  "control_out opts ans io s px =
    bind_sum (control_injection opts s io) (\<lambda>(s', io, flag). case flag of
      INJECTION_IGNORE \<Rightarrow> Inr (None, [], px)
    | INJECTION_STALL \<Rightarrow> Inr (Some Stall, [], px)
    | INJECTION_NONE \<Rightarrow>
        (if ct_length s' = 0
         then (case device_control ans s' [] of
                 None \<Rightarrow> Inr (Some Stall, [Device_Request s' []], px)
               | Some _ \<Rightarrow> Inr (Some (Receive (io_length io)), [Device_Request s' []], follow_protocol s' px))
         else (case an_ack ans of
                 Inl _ \<Rightarrow> Inr (None, [], px)
               | Inr data \<Rightarrow>
                   (if unat (ct_length s') > unat (ct_length s) then Inl Fault_Overflow
                    else Inr (Some (Receive (io_length io)),
                      [Device_Request s' (take (unat (ct_length s')) (blit (io_data io) 0 (take (io_length io) data)))], px)))))"

definition acknowledge :: "control_request \<Rightarrow> proxy_fault + (bool \<times> proxy_call list \<times> proxy) \<Rightarrow> handled" where
  "acknowledge s r = bind_sum r (\<lambda>(found, cs, px).
     Inr (if found then Some (Receive (unat (ct_length s))) else None, cs, px))"

definition proxy_control :: "'j proxy_options \<Rightarrow> answers \<Rightarrow> bytes \<Rightarrow> control_request \<Rightarrow> proxy \<Rightarrow> handled" where
  "proxy_control opts ans junk s px =
    (let io = no_io\<lparr>io_length := unat (ct_length s), io_data := junk\<rparr>
     in if unat (ct_length s) > MAX_TRANSFER_SIZE then Inr (Some Stall, [], px)
        else if (ct_type s AND 0x80) \<noteq> 0 then control_in opts ans io s px
        else if is_standard s \<and> ct_request s = USB_REQ_SET_CONFIGURATION
          then acknowledge s (set_proxy_configuration (po_extra opts) ans (ct_value s) px)
        else if is_standard s \<and> ct_request s = USB_REQ_SET_INTERFACE
          then acknowledge s (set_proxy_interface (po_extra opts) ans (ct_index s) (ct_value s) px)
        else control_out opts ans io s px)"

text \<open>One round of \<open>ep0_loop\<close>; \<open>None\<close> as the state is the end of the loop.\<close>

definition ep0_round :: "'j proxy_options \<Rightarrow> answers \<Rightarrow> bytes \<Rightarrow> raw_event \<Rightarrow> proxy
    \<Rightarrow> proxy_fault + (control_reply option \<times> proxy_call list \<times> proxy option)" where
  "ep0_round opts ans junk ev px =
    (if ev_length ev = EVENT_INTERRUPTED then Inr (None, [], None)
     else if ev_type ev = USB_RAW_EVENT_RESET \<or> ev_type ev = USB_RAW_EVENT_DISCONNECT
       then bind_sum (proxy_reset px) (\<lambda>(cs, px). Inr (None, cs, Some px))
     else if ev_type ev \<noteq> USB_RAW_EVENT_CONTROL then Inr (None, [], Some px)
     else bind_sum (proxy_control opts ans junk (ev_setup ev) px) (\<lambda>(reply, cs, px). Inr (reply, cs, Some px)))"

text \<open>The end of \<open>ep0_loop\<close> when the stop flag is seen between two events.\<close>

definition ep0_finish :: "proxy \<Rightarrow> proxy_fault + (proxy_call list \<times> proxy)" where
  "ep0_finish px = (let c = gd_current (px_device px)
     in each_interface (stop_interface c) [0..<interface_count (px_device px) c] px)"

definition proxy_start :: "libusb_descriptors \<Rightarrow> mixer \<Rightarrow> proxy" where
  "proxy_start d mx = \<lparr>px_device = setup_host_usb_desc d, px_mixer = mx, px_configured = False\<rparr>"

end
