(* ===== verification/Control_Facts.thy ===== *)
theory Control_Facts
  imports Control_Proxy
begin

text \<open>
  The control thread on a device with one configuration: the endpoints with threads are those of
  the current alternate settings while it is configured, and none otherwise, so no round faults.
\<close>

subsection \<open>Endpoints of an alternate setting\<close>

definition usable :: "gadget_endpoint \<Rightarrow> bool" where
  "usable e \<longleftrightarrow> ed_address (ge_descriptor e) AND 0x0f \<noteq> 0 \<and> transfer_type_of (ed_attributes (ge_descriptor e)) \<noteq> Control_Type"

definition runs :: "bool \<Rightarrow> gadget_endpoint \<Rightarrow> bool" where
  "runs b e \<longleftrightarrow> usable e \<and> ge_reading e = b \<and> ge_writing e = b"

lemma start_endpoint_runs:
  assumes "usable e"
  shows "\<exists>e' mx' cs. start_endpoint ans f e mx = Inr (e', mx', cs) \<and> runs True e'"
  using assms by (auto simp: start_endpoint_def usable_def runs_def Let_def)

lemma stop_endpoint_runs:
  assumes "runs True e"
  shows "\<exists>e' mx' cs. stop_endpoint e mx = Inr (e', mx', cs) \<and> runs False e'"
  using assms by (auto simp: stop_endpoint_def usable_def runs_def)

lemma each_endpoint_all:
  assumes "\<And>e mx. e \<in> set es \<Longrightarrow> \<exists>e' mx' cs. f e mx = Inr (e', mx', cs) \<and> Q e'"
  shows "\<exists>es' mx' cs. each_endpoint f es mx = Inr (es', mx', cs) \<and> (\<forall>e\<in>set es'. Q e)"
  using assms
proof (induction es arbitrary: mx)
  case (Cons e es)
  obtain e' mx1 cs where e: "f e mx = Inr (e', mx1, cs)" "Q e'" using Cons.prems [of e mx] by auto
  have "\<exists>es' mx' cs. each_endpoint f es mx1 = Inr (es', mx', cs) \<and> (\<forall>e\<in>set es'. Q e)"
    by (rule Cons.IH, rule Cons.prems) simp
  then obtain es' mx' cs' where "each_endpoint f es mx1 = Inr (es', mx', cs')" "\<forall>e\<in>set es'. Q e" by blast
  then show ?case using e by simp
qed simp

subsection \<open>Which alternate setting of an interface runs\<close>

definition alt_runs :: "nat option \<Rightarrow> gadget_interface \<Rightarrow> bool" where
  "alt_runs a t \<longleftrightarrow> gi_current t < length (gi_altsettings t)
     \<and> (\<forall>k<length (gi_altsettings t). \<forall>e\<in>set (ga_endpoints (gi_altsettings t ! k)). runs (a = Some k) e)"

lemma alt_runs_set_endpoints:
  assumes "alt_runs a t" and "a = None \<or> a = Some k" and "\<forall>e\<in>set es. runs (b = Some k) e"
    and "b = None \<or> b = Some k"
  shows "alt_runs b (set_endpoints k es t)"
proof -
  have es: "ga_endpoints (gi_altsettings (set_endpoints k es t) ! i) = (if i = k then es else ga_endpoints (gi_altsettings t ! i))"
    if "i < length (gi_altsettings t)" for i
    using that by (simp add: set_endpoints_def nth_list_update)
  have len: "length (gi_altsettings (set_endpoints k es t)) = length (gi_altsettings t)"
    and cur: "gi_current (set_endpoints k es t) = gi_current t" by (simp_all add: set_endpoints_def)
  show ?thesis unfolding alt_runs_def len cur
  proof (intro conjI allI impI ballI)
    show "gi_current t < length (gi_altsettings t)" using assms(1) by (simp add: alt_runs_def)
  next
    fix i e assume i: "i < length (gi_altsettings t)" and e: "e \<in> set (ga_endpoints (gi_altsettings (set_endpoints k es t) ! i))"
    show "runs (b = Some i) e"
    proof (cases "i = k")
      case False
      then have "runs (a = Some i) e" using assms(1) i e es [OF i] by (simp add: alt_runs_def)
      then show ?thesis using assms(2,4) False by auto
    qed (use assms(3) e es [OF i] in simp)
  qed
qed

lemma alt_runs_set_current: "alt_runs a t \<Longrightarrow> k < length (gi_altsettings t) \<Longrightarrow> alt_runs a (set_current k t)"
  by (simp add: alt_runs_def set_current_def)

lemma set_interface_simps [simp]:
  "gi_current (set_endpoints k es t) = gi_current t" "gi_altsettings (set_current k t) = gi_altsettings t"
  "length (gi_altsettings (set_endpoints k es t)) = length (gi_altsettings t)" "gi_current (set_current k t) = k"
  by (simp_all add: set_endpoints_def set_current_def)

text \<open>A device of one configuration with \<open>n\<close> interfaces, whose running alternate settings are \<open>act\<close>.\<close>

definition active :: "nat \<Rightarrow> (nat \<Rightarrow> nat option) \<Rightarrow> gadget_device \<Rightarrow> bool" where
  "active n act g \<longleftrightarrow> length (gd_configs g) = 1 \<and> gd_current g = 0 \<and> interface_count g 0 = n
     \<and> length (gc_interfaces (gd_configs g ! 0)) = n \<and> (\<forall>j<n. alt_runs (act j) (interface_at g 0 j))"

lemma interface_at_update:
  assumes "active n act g" and "j < n"
  shows "interface_at (update_interface 0 j f g) 0 i = (if i = j then f (interface_at g 0 j) else interface_at g 0 i)"
  using assms by (auto simp: active_def interface_at_def update_interface_def nth_list_update)

lemma active_update:
  assumes "active n act g" and "j < n" and "alt_runs a (f (interface_at g 0 j))"
  shows "active n (act(j := a)) (update_interface 0 j f g)"
proof -
  have "alt_runs ((act(j := a)) i) (interface_at (update_interface 0 j f g) 0 i)" if "i < n" for i
    using assms that interface_at_update [OF assms(1,2), of f i] by (simp add: active_def)
  then show ?thesis using assms(1)
    by (auto simp: active_def update_interface_def interface_count_def)
qed

lemma active_in_range: "active n act g \<Longrightarrow> alt_in_range g 0 j k \<longleftrightarrow> j < n \<and> k < length (gi_altsettings (interface_at g 0 j))"
  by (simp add: active_def alt_in_range_def)

lemma activeD: "active n act g \<Longrightarrow> j < n \<Longrightarrow> alt_runs (act j) (interface_at g 0 j)"
  by (simp add: active_def)

subsection \<open>Stopping and starting\<close>

lemma terminate_active:
  assumes g: "active n act (px_device px)" and j: "j < n" and k: "act j = Some k"
    and r: "k < length (gi_altsettings (interface_at (px_device px) 0 j))"
  shows "\<exists>cs es mx. terminate_eps 0 j k px
       = Inr (cs, px\<lparr>px_device := update_interface 0 j (set_endpoints k es) (px_device px), px_mixer := mx\<rparr>)
     \<and> active n (act(j := None)) (update_interface 0 j (set_endpoints k es) (px_device px))"
proof -
  let ?t = "interface_at (px_device px) 0 j"
  have t: "alt_runs (Some k) ?t" using activeD [OF g j] k by simp
  then have "\<exists>es' mx' cs. each_endpoint stop_endpoint (ga_endpoints (gi_altsettings ?t ! k)) (px_mixer px) = Inr (es', mx', cs)
      \<and> (\<forall>e\<in>set es'. runs False e)"
    by (intro each_endpoint_all stop_endpoint_runs) (use t r in \<open>fastforce simp: alt_runs_def\<close>)
  then obtain es mx cs where e: "each_endpoint stop_endpoint (ga_endpoints (gi_altsettings ?t ! k)) (px_mixer px) = Inr (es, mx, cs)"
    "\<forall>e\<in>set es. runs False e" by blast
  have "active n (act(j := None)) (update_interface 0 j (set_endpoints k es) (px_device px))"
    by (rule active_update [OF g j]) (rule alt_runs_set_endpoints [OF t], use e in auto)
  then show ?thesis using e j r by (auto simp: terminate_eps_def active_in_range [OF g])
qed

lemma process_active:
  assumes g: "active n act (px_device px)" and j: "j < n" and k: "act j = None"
    and r: "k < length (gi_altsettings (interface_at (px_device px) 0 j))"
  shows "\<exists>cs es mx. process_eps extra ans 0 j k px
       = Inr (cs, px\<lparr>px_device := update_interface 0 j (set_endpoints k es) (px_device px), px_mixer := mx\<rparr>)
     \<and> active n (act(j := Some k)) (update_interface 0 j (set_endpoints k es) (px_device px))"
proof -
  let ?t = "interface_at (px_device px) 0 j" and ?mx = "learn_interface ans (ga_interface (gi_altsettings
    (interface_at (px_device px) 0 j) ! k)) (extra 0 j k) (px_mixer px)"
  let ?f = "start_endpoint ans (ga_interface (gi_altsettings ?t ! k))"
  have t: "alt_runs None ?t" using activeD [OF g j] k by simp
  then have "\<exists>es' mx' cs. each_endpoint ?f (ga_endpoints (gi_altsettings ?t ! k)) ?mx = Inr (es', mx', cs)
      \<and> (\<forall>e\<in>set es'. runs True e)"
    by (intro each_endpoint_all start_endpoint_runs) (use t r in \<open>fastforce simp: alt_runs_def runs_def\<close>)
  then obtain es mx cs where e: "each_endpoint ?f (ga_endpoints (gi_altsettings ?t ! k)) ?mx = Inr (es, mx, cs)"
    "\<forall>e\<in>set es. runs True e" by blast
  have "active n (act(j := Some k)) (update_interface 0 j (set_endpoints k es) (px_device px))"
    by (rule active_update [OF g j]) (rule alt_runs_set_endpoints [OF t], use e in auto)
  then show ?thesis using e j r by (auto simp: process_eps_def active_in_range [OF g] Let_def)
qed

lemma each_interface_upt:
  assumes "I i px" and "i \<le> n"
    and "\<And>j px. i \<le> j \<Longrightarrow> j < n \<Longrightarrow> I j px \<Longrightarrow> \<exists>cs px'. f j px = Inr (cs, px') \<and> I (Suc j) px'"
  shows "\<exists>cs px'. each_interface f [i..<n] px = Inr (cs, px') \<and> I n px'"
  using assms
proof (induction "n - i" arbitrary: i px)
  case (Suc m)
  obtain cs px1 where f: "f i px = Inr (cs, px1)" "I (Suc i) px1" using Suc(2) Suc.prems(1,3) by fastforce
  have "\<exists>cs px'. each_interface f [Suc i..<n] px1 = Inr (cs, px') \<and> I n px'"
    by (rule Suc(1)) (use Suc(2) f Suc.prems in auto)
  then show ?case using f Suc(2) by (auto simp: upt_conv_Cons)
qed simp

subsection \<open>Phases of a change of configuration\<close>

text \<open>The interfaces in \<open>p\<close> run their current alternate setting, the others nothing.\<close>

definition phase :: "nat \<Rightarrow> (nat \<Rightarrow> bool) \<Rightarrow> gadget_device \<Rightarrow> bool" where
  "phase n p g \<longleftrightarrow> active n (\<lambda>j. if p j then Some (gi_current (interface_at g 0 j)) else None) g"

lemma active_cong: "(\<And>j. j < n \<Longrightarrow> act j = act' j) \<Longrightarrow> active n act g \<longleftrightarrow> active n act' g"
  by (auto simp: active_def)

lemma phase_cong: "(\<And>j. j < n \<Longrightarrow> p j = q j) \<Longrightarrow> phase n p g \<longleftrightarrow> phase n q g"
  unfolding phase_def by (rule active_cong) simp

lemma phase_current_range:
  "phase n p g \<Longrightarrow> j < n \<Longrightarrow> gi_current (interface_at g 0 j) < length (gi_altsettings (interface_at g 0 j))"
  by (auto simp: phase_def active_def alt_runs_def)

lemma phase_shape: "phase n p g \<Longrightarrow> gd_current g = 0 \<and> interface_count g 0 = n \<and> length (gd_configs g) = 1
    \<and> length (gc_interfaces (gd_configs g ! 0)) = n"
  by (simp add: phase_def active_def)

lemma phase_stop:
  assumes g: "phase n p (px_device px)" and j: "j < n" "p j"
  shows "\<exists>cs px'. stop_interface 0 j px = Inr (cs, px') \<and> phase n (p(j := False)) (px_device px')
    \<and> px_configured px' = px_configured px"
proof -
  let ?g = "px_device px" and ?k = "gi_current (interface_at (px_device px) 0 j)"
  note a = g [unfolded phase_def]
  note r = phase_current_range [OF g j(1)]
  obtain cs es mx where t: "terminate_eps 0 j ?k px
       = Inr (cs, px\<lparr>px_device := update_interface 0 j (set_endpoints ?k es) ?g, px_mixer := mx\<rparr>)"
    and act: "active n ((\<lambda>j. if p j then Some (gi_current (interface_at ?g 0 j)) else None)(j := None))
      (update_interface 0 j (set_endpoints ?k es) ?g)"
    using terminate_active [OF a j(1) _ r] j(2) by auto
  have "phase n (p(j := False)) (update_interface 0 j (set_endpoints ?k es) ?g)"
    unfolding phase_def
    by (rule active_cong [THEN iffD1, OF _ act]) (use interface_at_update [OF a j(1)] in auto)
  then show ?thesis using t r phase_shape [OF g] j by (auto simp: stop_interface_def Let_def)
qed

lemma phase_set_current:
  assumes g: "phase n p g" and j: "j < n" "\<not> p j" and r: "k < length (gi_altsettings (interface_at g 0 j))"
  shows "phase n p (update_interface 0 j (set_current k) g)"
proof -
  note a = g [unfolded phase_def]
  have "alt_runs None (set_current k (interface_at g 0 j))"
    using activeD [OF a j(1)] j(2) r by (intro alt_runs_set_current) auto
  from active_update [OF a j(1), where f = "set_current k", OF this] show ?thesis
    unfolding phase_def
    by (rule active_cong [THEN iffD1, rotated]) (use interface_at_update [OF a j(1)] j(2) in auto)
qed

lemma phase_reset:
  assumes g: "phase n p (px_device px)" and j: "j < n" "p j"
  shows "\<exists>cs px'. reset_interface 0 j px = Inr (cs, px') \<and> phase n (p(j := False)) (px_device px')
    \<and> px_configured px' = px_configured px"
proof -
  obtain cs px' where s: "stop_interface 0 j px = Inr (cs, px')" "phase n (p(j := False)) (px_device px')"
    "px_configured px' = px_configured px"
    using phase_stop [OF assms] by blast
  have "0 < length (gi_altsettings (interface_at (px_device px') 0 j))"
    using phase_current_range [OF s(2) j(1)] by (rule le_less_trans [OF le0])
  from phase_set_current [OF s(2) j(1) _ this] show ?thesis using s by (simp add: reset_interface_def)
qed

lemma phase_process:
  assumes g: "phase n p (px_device px)" and j: "j < n" "\<not> p j" and k: "k < length (gi_altsettings (interface_at (px_device px) 0 j))"
  shows "\<exists>cs px'. process_eps extra ans 0 j k px = Inr (cs, px')
    \<and> phase n (p(j := True)) (update_interface 0 j (set_current k) (px_device px')) \<and> px_configured px' = px_configured px
    \<and> (gi_current (interface_at (px_device px) 0 j) = k \<longrightarrow> phase n (p(j := True)) (px_device px'))"
proof -
  let ?g = "px_device px" and ?act = "\<lambda>j. if p j then Some (gi_current (interface_at (px_device px) 0 j)) else None"
  note a = g [unfolded phase_def]
  obtain cs es mx where t: "process_eps extra ans 0 j k px
       = Inr (cs, px\<lparr>px_device := update_interface 0 j (set_endpoints k es) ?g, px_mixer := mx\<rparr>)"
    and act: "active n (?act(j := Some k)) (update_interface 0 j (set_endpoints k es) ?g)"
    using process_active [OF a j(1) _ k, of extra ans] j(2) by auto
  let ?g' = "update_interface 0 j (set_endpoints k es) ?g"
  have at: "interface_at ?g' 0 j = set_endpoints k es (interface_at ?g 0 j)"
    "\<And>i. i \<noteq> j \<Longrightarrow> interface_at ?g' 0 i = interface_at ?g 0 i"
    using interface_at_update [OF a j(1), of "set_endpoints k es"] by simp_all
  have "alt_runs (Some k) (set_current k (interface_at ?g' 0 j))"
    using activeD [OF act j(1)] k at(1) by (intro alt_runs_set_current) simp_all
  from active_update [OF act j(1), where f = "set_current k", OF this]
  have "phase n (p(j := True)) (update_interface 0 j (set_current k) ?g')"
    unfolding phase_def
    by (rule active_cong [THEN iffD1, rotated]) (use interface_at_update [OF act j(1), of "set_current k"] at in auto)
  moreover have "phase n (p(j := True)) ?g'" if "gi_current (interface_at ?g 0 j) = k"
    unfolding phase_def using that at by (intro active_cong [THEN iffD1, OF _ act]) auto
  ultimately show ?thesis using t by simp
qed

lemma phase_start:
  assumes g: "phase n p (px_device px)" and j: "j < n" "\<not> p j"
  shows "\<exists>cs px'. start_interface extra ans 0 j px = Inr (cs, px') \<and> phase n (p(j := True)) (px_device px')
    \<and> px_configured px' = px_configured px"
proof -
  let ?px = "px\<lparr>px_device := update_interface 0 j (set_current 0) (px_device px)\<rparr>"
  have len: "0 < length (gi_altsettings (interface_at (px_device px) 0 j))"
    using phase_current_range [OF g j(1)] by (rule le_less_trans [OF le0])
  have g': "phase n p (px_device ?px)" using phase_set_current [OF g j len] by simp
  have at: "interface_at (px_device ?px) 0 j = set_current 0 (interface_at (px_device px) 0 j)"
    using interface_at_update [OF g [unfolded phase_def] j(1)] by simp
  have len': "0 < length (gi_altsettings (interface_at (px_device ?px) 0 j))" using len by (subst at) simp
  have cur: "gi_current (interface_at (px_device ?px) 0 j) = 0" by (subst at) simp
  obtain cs px' where p: "process_eps extra ans 0 j 0 ?px = Inr (cs, px')" "phase n (p(j := True)) (px_device px')"
    "px_configured px' = px_configured px"
    using phase_process [OF g' j len', of extra ans] cur by auto
  have "alt_in_range (px_device ?px) 0 j 0"
    using active_in_range [OF g' [unfolded phase_def]] j(1) len' by blast
  then show ?thesis using p by (simp add: start_interface_def Let_def)
qed

lemma phase_all:
  fixes px :: proxy
  assumes step: "\<And>p j px. phase n p (px_device px) \<Longrightarrow> j < n \<Longrightarrow> p j = b \<Longrightarrow>
      \<exists>cs px'. f j px = Inr (cs, px') \<and> phase n (p(j := \<not> b)) (px_device px') \<and> px_configured px' = px_configured px"
    and g: "phase n (\<lambda>_. b) (px_device px)"
  shows "\<exists>cs px'. each_interface f [0..<n] px = Inr (cs, px') \<and> phase n (\<lambda>_. \<not> b) (px_device px')
    \<and> px_configured px' = px_configured px"
proof -
  define I where "I = (\<lambda>j (px' :: proxy). phase n (\<lambda>i. if i < j then \<not> b else b) (px_device px') \<and> px_configured px' = px_configured px)"
  have "I 0 px" using g by (simp add: I_def)
  then have "\<exists>cs px'. each_interface f [0..<n] px = Inr (cs, px') \<and> I n px'"
  proof (rule each_interface_upt)
    fix j px1 assume j: "j < n" and I: "I j px1"
    have "\<exists>cs px'. f j px1 = Inr (cs, px') \<and> phase n ((\<lambda>i. if i < j then \<not> b else b)(j := \<not> b)) (px_device px')
        \<and> px_configured px' = px_configured px1"
      using I by (intro step) (auto simp: I_def j)
    moreover have "(\<lambda>i. if i < j then \<not> b else b)(j := \<not> b) = (\<lambda>i. if i < Suc j then \<not> b else b)"
      by (auto simp: fun_eq_iff)
    ultimately show "\<exists>cs px'. f j px1 = Inr (cs, px') \<and> I (Suc j) px'" using I by (auto simp: I_def)
  qed simp
  then obtain cs px' where "each_interface f [0..<n] px = Inr (cs, px')" "I n px'" by blast
  moreover have "phase n (\<lambda>i. if i < n then \<not> b else b) (px_device px') \<longleftrightarrow> phase n (\<lambda>_. \<not> b) (px_device px')"
    by (rule phase_cong) simp
  ultimately show ?thesis by (auto simp: I_def)
qed

subsection \<open>No round faults\<close>

definition proxy_ok :: "proxy \<Rightarrow> bool" where
  "proxy_ok px \<longleftrightarrow> phase (interface_count (px_device px) 0) (\<lambda>_. px_configured px) (px_device px)"

lemma proxy_okI: "phase n (\<lambda>_. px_configured px) (px_device px) \<Longrightarrow> proxy_ok px"
  using phase_shape [of n "\<lambda>_. px_configured px" "px_device px"] by (simp add: proxy_ok_def)

lemma proxy_reset_ok:
  assumes "proxy_ok px"
  shows "\<exists>cs px'. proxy_reset px = Inr (cs, px') \<and> proxy_ok px' \<and> \<not> px_configured px'"
proof (cases "px_configured px")
  case True
  let ?n = "interface_count (px_device px) 0"
  have g: "phase ?n (\<lambda>_. True) (px_device px)" using assms True by (simp add: proxy_ok_def)
  obtain cs px' where e: "each_interface (reset_interface 0) [0..<?n] px = Inr (cs, px')"
    "phase ?n (\<lambda>_. False) (px_device px')"
    using phase_all [OF _ g, of "reset_interface 0"] phase_reset by force
  have "(px_device px')\<lparr>gd_current := 0\<rparr> = px_device px'" using phase_shape [OF e(2)] by simp
  then show ?thesis using e True phase_shape [OF g]
    by (auto simp: proxy_reset_def Let_def intro!: proxy_okI)
qed (use assms in \<open>simp add: proxy_reset_def\<close>)

lemma find_index_Some: "find_index p xs = Some i \<Longrightarrow> i < length xs \<and> p (xs ! i)"
  by (auto simp: find_index_def find_Some_iff)

lemma set_proxy_configuration_ok:
  assumes "proxy_ok px"
  shows "\<exists>found cs px'. set_proxy_configuration extra ans value px = Inr (found, cs, px') \<and> proxy_ok px'"
proof (cases "find_index (\<lambda>c. ucast (cd_value (gc_config c)) = value) (gd_configs (px_device px))")
  case None
  then show ?thesis using assms by (auto simp: set_proxy_configuration_def intro: exI [of _ False])
next
  case (Some d)
  let ?n = "interface_count (px_device px) 0"
  have g: "phase ?n (\<lambda>_. px_configured px) (px_device px)" using assms by (simp add: proxy_ok_def)
  have d: "d = 0" using find_index_Some [OF Some] phase_shape [OF g] by simp
  have "\<exists>cs px'. (if px_configured px then each_interface (stop_interface 0) [0..<?n] px else Inr ([], px)) = Inr (cs, px')
      \<and> phase ?n (\<lambda>_. False) (px_device px')"
  proof (cases "px_configured px")
    case True
    then show ?thesis using phase_all [of ?n True "stop_interface 0" px] phase_stop g by force
  qed (use g in simp)
  then obtain cs px1 where s: "(if px_configured px then each_interface (stop_interface 0) [0..<?n] px else Inr ([], px)) = Inr (cs, px1)"
    and p1: "phase ?n (\<lambda>_. False) (px_device px1)" by blast
  have same: "px1\<lparr>px_device := (px_device px1)\<lparr>gd_current := 0\<rparr>\<rparr> = px1" using phase_shape [OF p1] by simp
  obtain cs' px2 where e: "each_interface (start_interface extra ans 0) [0..<?n] px1 = Inr (cs', px2)"
    and p2: "phase ?n (\<lambda>_. True) (px_device px2)"
    using phase_all [of ?n False "start_interface extra ans 0" px1] phase_start p1 by force
  have "interface_count ((px_device px1)\<lparr>gd_current := 0\<rparr>) 0 = ?n"
    using phase_shape [OF p1] by (simp add: interface_count_def)
  then show ?thesis using Some d s same e p2
    by (auto simp: set_proxy_configuration_def Let_def intro!: proxy_okI [of ?n] exI [of _ True])
qed

lemma set_proxy_interface_ok:
  assumes "proxy_ok px" and "px_configured px"
  shows "\<exists>found cs px'. set_proxy_interface extra ans index value px = Inr (found, cs, px') \<and> proxy_ok px'"
proof -
  let ?n = "interface_count (px_device px) 0" and ?g = "px_device px"
  have g: "phase ?n (\<lambda>_. True) ?g" using assms by (simp add: proxy_ok_def)
  note sh = phase_shape [OF g]
  show ?thesis
  proof (cases "find_index (\<lambda>t. ucast (fd_number (ga_interface (gi_altsettings t ! 0))) = index) (gc_interfaces (gd_configs ?g ! 0))")
    case None
    then show ?thesis using assms(1) sh by (auto simp: set_proxy_interface_def Let_def intro: exI [of _ False])
  next
    case j: (Some j)
    then have jn: "j < ?n" using find_index_Some [OF j] sh by simp
    let ?t = "interface_at ?g 0 j"
    show ?thesis
    proof (cases "find_index (\<lambda>a. ucast (fd_alternate (ga_interface a)) = value) (gi_altsettings ?t)")
      case None
      then show ?thesis using assms(1) sh j by (auto simp: set_proxy_interface_def Let_def intro: exI [of _ False])
    next
      case k: (Some k)
      then have kr: "k < length (gi_altsettings ?t)" using find_index_Some [OF k] by simp
      show ?thesis
      proof (cases "k = gi_current ?t")
        case True
        then show ?thesis using assms(1) sh j k by (auto simp: set_proxy_interface_def Let_def intro: exI [of _ True])
      next
        case False
        have r: "\<not> gi_current ?t \<ge> length (gi_altsettings ?t)" using phase_current_range [OF g jn] by simp
        obtain cs1 px1 where s: "stop_interface 0 j px = Inr (cs1, px1)" and p1: "phase ?n ((\<lambda>_. True)(j := False)) (px_device px1)"
          and c1: "px_configured px1 = px_configured px"
          using phase_stop [OF g jn] by blast
        then obtain cs0 where t: "terminate_eps 0 j (gi_current ?t) px = Inr (cs0, px1)"
          using sh jn r by (cases "terminate_eps 0 j (gi_current ?t) px") (auto simp: stop_interface_def Let_def)
        have all: "(\<lambda>_. True)(j := True) = (\<lambda>_ :: nat. True)" by auto
        from t have "length (gi_altsettings (interface_at (px_device px1) 0 j)) = length (gi_altsettings ?t)"
          using interface_at_update [OF g [unfolded phase_def] jn]
          by (auto simp: terminate_eps_def bind_sum_def split: if_splits sum.splits)
        then obtain cs2 px2 where p: "process_eps extra ans 0 j k px1 = Inr (cs2, px2)"
          "phase ?n (\<lambda>_. True) (update_interface 0 j (set_current k) (px_device px2))" "px_configured px2 = px_configured px1"
          using phase_process [OF p1 jn _ , of k extra ans] kr all by auto
        then show ?thesis using False j k sh t assms(2) c1
          by (auto simp: set_proxy_interface_def Let_def intro!: proxy_okI [of ?n])
      qed
    qed
  qed
qed

text \<open>The other requests leave configurations and threads alone.\<close>

lemma bind_sum_Inr: "bind_sum r f = Inr y \<longleftrightarrow> (\<exists>x. r = Inr x \<and> f x = Inr y)"
  by (cases r) auto

lemma bind_sum_Inl: "bind_sum r f = Inl e \<longleftrightarrow> r = Inl e \<or> (\<exists>x. r = Inr x \<and> f x = Inl e)"
  by (cases r) auto

lemma follow_protocol_frame:
  "px_device (follow_protocol s px) = px_device px \<and> px_configured (follow_protocol s px) = px_configured px"
proof -
  have "px_device (fold (\<lambda>j px. if P j then px\<lparr>px_mixer := F j px\<rparr> else px) js px) = px_device px
      \<and> px_configured (fold (\<lambda>j px. if P j then px\<lparr>px_mixer := F j px\<rparr> else px) js px) = px_configured px"
    for P F and js :: "nat list" and px :: proxy
    by (induction js arbitrary: px) auto
  then show ?thesis by (simp add: follow_protocol_def Let_def)
qed

lemma flag_cases: "flag \<noteq> INJECTION_NONE \<Longrightarrow> flag \<noteq> INJECTION_IGNORE \<Longrightarrow> flag \<noteq> INJECTION_STALL \<Longrightarrow> False"
  by (cases flag) simp_all

lemma control_in_frame:
  "control_in opts ans io s px = Inr (r, cs, px') \<Longrightarrow> px_device px' = px_device px \<and> px_configured px' = px_configured px"
  by (auto simp: control_in_def bind_sum_Inr Let_def dest: flag_cases split: option.splits injection_flag.splits)

lemma control_out_frame:
  "control_out opts ans io s px = Inr (r, cs, px') \<Longrightarrow> px_device px' = px_device px \<and> px_configured px' = px_configured px"
  by (auto simp: control_out_def bind_sum_Inr follow_protocol_frame dest: flag_cases
      split: option.splits injection_flag.splits if_splits sum.splits)

lemma control_injection_fault: "control_injection opts s io = Inl e \<Longrightarrow> e = Fault_No_Return \<and> po_rules opts \<noteq> None"
  by (auto simp: control_injection_def split: option.splits)

lemma control_injection_none: "po_rules opts = None \<Longrightarrow> control_injection opts s io = Inr (s, io, INJECTION_NONE)"
  by (simp add: control_injection_def)

lemma control_in_fault: "control_in opts ans io s px = Inl e \<Longrightarrow> e = Fault_No_Return \<and> po_rules opts \<noteq> None"
  by (auto simp: control_in_def bind_sum_Inl Let_def dest!: control_injection_fault
      dest: flag_cases split: option.splits injection_flag.splits)

lemma control_out_fault:
  assumes "control_out opts ans io s px = Inl e"
  shows "e \<in> {Fault_No_Return, Fault_Overflow} \<and> po_rules opts \<noteq> None"
proof (cases "control_injection opts s io")
  case (Inl e')
  then show ?thesis using assms control_injection_fault by (auto simp: control_out_def)
next
  case (Inr r)
  obtain s' io' flag where r: "r = (s', io', flag)" by (cases r)
  have "flag = INJECTION_NONE \<and> e = Fault_Overflow \<and> unat (ct_length s) < unat (ct_length s')"
    using assms Inr r by (auto simp: control_out_def dest: flag_cases split: option.splits injection_flag.splits if_splits sum.splits)
  moreover have "s' = s" if "po_rules opts = None" using control_injection_none [OF that] Inr r by simp
  ultimately show ?thesis by auto
qed

definition sets_interface :: "control_request \<Rightarrow> bool" where
  "sets_interface s \<longleftrightarrow> (ct_type s AND 0x80) = 0 \<and> is_standard s \<and> ct_request s = USB_REQ_SET_INTERFACE"

lemma proxy_ok_frame: "proxy_ok px \<Longrightarrow> px_device px' = px_device px \<Longrightarrow> px_configured px' = px_configured px \<Longrightarrow> proxy_ok px'"
  by (simp add: proxy_ok_def)

lemma handled_cases:
  "(\<And>e. r = Inl e \<Longrightarrow> P e) \<Longrightarrow> (\<And>x cs px. r = Inr (x, cs, px) \<Longrightarrow> Q px)
    \<Longrightarrow> case r of Inl e \<Rightarrow> P e | Inr (x, cs, px) \<Rightarrow> Q px"
  by (cases r) auto

lemma proxy_control_ok:
  assumes ok: "proxy_ok px" and set: "sets_interface s \<Longrightarrow> px_configured px"
  shows "case proxy_control opts ans junk s px of
     Inl e \<Rightarrow> e \<in> {Fault_No_Return, Fault_Overflow} \<and> po_rules opts \<noteq> None
   | Inr (r, cs, px') \<Rightarrow> proxy_ok px'"
proof -
  let ?io = "no_io\<lparr>io_length := unat (ct_length s), io_data := junk\<rparr>"
  consider "unat (ct_length s) > MAX_TRANSFER_SIZE" | "unat (ct_length s) \<le> MAX_TRANSFER_SIZE" "(ct_type s AND 0x80) \<noteq> 0"
    | "unat (ct_length s) \<le> MAX_TRANSFER_SIZE" "(ct_type s AND 0x80) = 0" "is_standard s" "ct_request s = USB_REQ_SET_CONFIGURATION"
    | "unat (ct_length s) \<le> MAX_TRANSFER_SIZE" "sets_interface s"
    | "unat (ct_length s) \<le> MAX_TRANSFER_SIZE" "(ct_type s AND 0x80) = 0"
      "\<not> (is_standard s \<and> ct_request s = USB_REQ_SET_CONFIGURATION)" "\<not> sets_interface s"
    unfolding sets_interface_def not_less [symmetric] by blast
  then show ?thesis
  proof cases
    case 1
    then show ?thesis using ok by (simp add: proxy_control_def)
  next
    case 2
    then have eq: "proxy_control opts ans junk s px = control_in opts ans ?io s px" by (simp add: proxy_control_def Let_def)
    show ?thesis unfolding eq
    proof (rule handled_cases)
      show "e \<in> {Fault_No_Return, Fault_Overflow} \<and> po_rules opts \<noteq> None" if "control_in opts ans ?io s px = Inl e" for e
        using control_in_fault [OF that] by simp
      show "proxy_ok px'" if "control_in opts ans ?io s px = Inr (r, cs, px')" for r cs px'
        using control_in_frame [OF that] proxy_ok_frame [OF ok] by blast
    qed
  next
    case 3
    obtain found cs px' where c: "set_proxy_configuration (po_extra opts) ans (ct_value s) px = Inr (found, cs, px')" "proxy_ok px'"
      using set_proxy_configuration_ok [OF ok] by blast
    have "proxy_control opts ans junk s px = acknowledge s (set_proxy_configuration (po_extra opts) ans (ct_value s) px)"
      using 3 by (simp add: proxy_control_def Let_def)
    then show ?thesis using c by (simp add: acknowledge_def)
  next
    case 4
    obtain found cs px' where c: "set_proxy_interface (po_extra opts) ans (ct_index s) (ct_value s) px = Inr (found, cs, px')" "proxy_ok px'"
      using set_proxy_interface_ok [OF ok set [OF 4(2)]] by blast
    have "proxy_control opts ans junk s px = acknowledge s (set_proxy_interface (po_extra opts) ans (ct_index s) (ct_value s) px)"
      using 4 by (simp add: proxy_control_def Let_def sets_interface_def usb_requests)
    then show ?thesis using c by (simp add: acknowledge_def)
  next
    case 5
    then have eq: "proxy_control opts ans junk s px = control_out opts ans ?io s px"
      by (auto simp: proxy_control_def Let_def sets_interface_def)
    show ?thesis unfolding eq
    proof (rule handled_cases)
      show "e \<in> {Fault_No_Return, Fault_Overflow} \<and> po_rules opts \<noteq> None" if "control_out opts ans ?io s px = Inl e" for e
        using control_out_fault [OF that] by simp
      show "proxy_ok px'" if "control_out opts ans ?io s px = Inr (r, cs, px')" for r cs px'
        using control_out_frame [OF that] proxy_ok_frame [OF ok] by blast
    qed
  qed
qed

lemma ep0_round_ok:
  assumes ok: "proxy_ok px" and set: "ev_type ev = USB_RAW_EVENT_CONTROL \<Longrightarrow> sets_interface (ev_setup ev) \<Longrightarrow> px_configured px"
  shows "case ep0_round opts ans junk ev px of
     Inl e \<Rightarrow> e \<in> {Fault_No_Return, Fault_Overflow} \<and> po_rules opts \<noteq> None
   | Inr (r, cs, next) \<Rightarrow> (case next of None \<Rightarrow> ev_length ev = EVENT_INTERRUPTED | Some px' \<Rightarrow> proxy_ok px')"
proof -
  consider "ev_length ev = EVENT_INTERRUPTED"
    | "ev_length ev \<noteq> EVENT_INTERRUPTED" "ev_type ev = USB_RAW_EVENT_RESET \<or> ev_type ev = USB_RAW_EVENT_DISCONNECT"
    | "ev_length ev \<noteq> EVENT_INTERRUPTED" "\<not> (ev_type ev = USB_RAW_EVENT_RESET \<or> ev_type ev = USB_RAW_EVENT_DISCONNECT)"
      "ev_type ev \<noteq> USB_RAW_EVENT_CONTROL"
    | "ev_length ev \<noteq> EVENT_INTERRUPTED" "\<not> (ev_type ev = USB_RAW_EVENT_RESET \<or> ev_type ev = USB_RAW_EVENT_DISCONNECT)"
      "ev_type ev = USB_RAW_EVENT_CONTROL" by blast
  then show ?thesis
  proof cases
    case 2
    then show ?thesis using proxy_reset_ok [OF ok] by (auto simp: ep0_round_def)
  next
    case 4
    then show ?thesis using proxy_control_ok [OF ok set, of "ev_setup ev" opts ans junk]
      by (auto simp: ep0_round_def split: sum.splits)
  qed (use ok in \<open>simp_all add: ep0_round_def\<close>)
qed

subsection \<open>The run of the control thread\<close>

definition single_config :: "libusb_descriptors \<Rightarrow> bool" where
  "single_config d \<longleftrightarrow> parsed_ok d \<and> length (ld_configs d) = 1
     \<and> (\<forall>as\<in>set (lc_interfaces (hd (ld_configs d))). as \<noteq> []
          \<and> (\<forall>a\<in>set as. \<forall>e\<in>set (la_endpoints a). ed_address e AND 0x0f \<noteq> 0 \<and> transfer_type_of (ed_attributes e) \<noteq> Control_Type))"

lemma proxy_start_ok:
  assumes "single_config d"
  shows "proxy_ok (proxy_start d mx)"
proof -
  obtain c where c: "ld_configs d = [c]" using assms by (auto simp: single_config_def length_Suc_conv)
  let ?g = "setup_host_usb_desc d" and ?n = "length (lc_interfaces c)"
  have n: "unat (cd_interfaces (lc_config c)) = ?n" "unat (dd_configurations (ld_device d)) = 1"
    using assms c by (auto simp: single_config_def parsed_ok_def)
  have g: "gd_configs ?g = [setup_config 0 c]" using n c by (simp add: setup_host_usb_desc_def)
  have at: "interface_at ?g 0 j = setup_interface 0 j (lc_interfaces c ! j)" if "j < ?n" for j
    using that n g by (simp add: interface_at_def setup_config_def)
  have "alt_runs None (setup_interface 0 j (lc_interfaces c ! j))" if "j < ?n" for j
  proof -
    let ?as = "lc_interfaces c ! j"
    have conj: "\<forall>as\<in>set (lc_interfaces c). as \<noteq> [] \<and> (\<forall>a\<in>set as. unat (fd_endpoints (la_interface a)) = length (la_endpoints a)
        \<and> (\<forall>e\<in>set (la_endpoints a). ed_address e AND 0x0f \<noteq> 0 \<and> transfer_type_of (ed_attributes e) \<noteq> Control_Type))"
      using assms c by (simp add: single_config_def parsed_ok_def)
    have as: "?as \<noteq> []" "\<And>a e. a \<in> set ?as \<Longrightarrow> e \<in> set (la_endpoints a) \<Longrightarrow>
        ed_address e AND 0x0f \<noteq> 0 \<and> transfer_type_of (ed_attributes e) \<noteq> Control_Type"
      "\<And>a. a \<in> set ?as \<Longrightarrow> unat (fd_endpoints (la_interface a)) = length (la_endpoints a)"
      using conj c nth_mem [OF that] by simp_all
    have "runs False e" if "k < length ?as" "e \<in> set (ga_endpoints (setup_altsetting 0 j k (?as ! k)))" for k e
      using that as(2,3) [OF nth_mem [OF that(1)]]
      by (auto simp: setup_altsetting_def runs_def usable_def split: if_splits)
    then show ?thesis using as(1) by (auto simp: alt_runs_def setup_interface_def)
  qed
  then have "active ?n (\<lambda>_. None) ?g"
    using at n g by (simp add: active_def interface_count_def setup_config_def) (simp add: setup_host_usb_desc_def)
  then show ?thesis by (intro proxy_okI [of ?n]) (simp add: proxy_start_def phase_def)
qed

text \<open>
  Between two rounds the other threads change the mixer. The host selects an alternate setting only
  of a configured device.
\<close>

inductive proxy_reach :: "'j proxy_options \<Rightarrow> libusb_descriptors \<Rightarrow> proxy \<Rightarrow> bool" for opts d where
  start: "proxy_reach opts d (proxy_start d mx)"
| mixer: "proxy_reach opts d px \<Longrightarrow> proxy_reach opts d (px\<lparr>px_mixer := mx\<rparr>)"
| round: "proxy_reach opts d px \<Longrightarrow> ep0_round opts ans junk ev px = Inr (r, cs, Some px')
    \<Longrightarrow> (ev_type ev = USB_RAW_EVENT_CONTROL \<Longrightarrow> sets_interface (ev_setup ev) \<Longrightarrow> px_configured px)
    \<Longrightarrow> proxy_reach opts d px'"

lemma proxy_reach_ok:
  assumes "proxy_reach opts d px" and "single_config d"
  shows "proxy_ok px"
  using assms(1)
proof induction
  case (round px ans junk ev r cs px')
  then show ?case using ep0_round_ok [OF round.IH round.hyps(3), of ev opts ans junk] by simp
qed (use assms(2) proxy_start_ok in \<open>auto simp: proxy_ok_def\<close>)

lemma proxy_ok_threads:
  assumes "proxy_ok px" and "j < interface_count (px_device px) 0"
    and "k < length (gi_altsettings (interface_at (px_device px) 0 j))"
    and "e \<in> set (ga_endpoints (gi_altsettings (interface_at (px_device px) 0 j) ! k))"
  shows "ge_reading e = ge_writing e" "ge_reading e \<longleftrightarrow> px_configured px \<and> k = gi_current (interface_at (px_device px) 0 j)"
proof -
  have "alt_runs (if px_configured px then Some (gi_current (interface_at (px_device px) 0 j)) else None)
      (interface_at (px_device px) 0 j)"
    using assms(1,2) activeD by (fastforce simp: proxy_ok_def phase_def)
  then have "runs ((if px_configured px then Some (gi_current (interface_at (px_device px) 0 j)) else None) = Some k) e"
    using assms(3,4) by (auto simp: alt_runs_def)
  then show "ge_reading e = ge_writing e" "ge_reading e \<longleftrightarrow> px_configured px \<and> k = gi_current (interface_at (px_device px) 0 j)"
    by (auto simp: runs_def split: if_splits)
qed

end
