(* ===== verification/Endpoint_Facts.thy ===== *)
theory Endpoint_Facts
  imports Endpoint_Loops
begin

text \<open>
  The retry loops of the transfers end after at most five attempts, at the first good one; the loops
  of a managed mouse endpoint are steps of the mixer's system.
\<close>

subsection \<open>Retries\<close>

definition transfer_calls :: "(nat \<Rightarrow> int \<times> int) \<Rightarrow> nat \<Rightarrow> nat \<Rightarrow> usb_call list" where
  "transfer_calls transfer i k =
    concat (map (\<lambda>n. Transfer (fst (transfer n)) (snd (transfer n)) # halt_calls (fst (transfer n))) [i..<k])"

definition good_transfer :: "int \<Rightarrow> int \<times> int \<Rightarrow> bool" where
  "good_transfer n r \<longleftrightarrow> \<not> halted (fst r) \<and> snd r = n"

lemma transfer_calls_Cons: "i < k \<Longrightarrow> transfer_calls transfer i k
    = Transfer (fst (transfer i)) (snd (transfer i)) # halt_calls (fst (transfer i)) @ transfer_calls transfer (Suc i) k"
  by (simp add: transfer_calls_def upt_conv_Cons)

lemma transfer_calls_same [simp]: "transfer_calls transfer i i = []"
  by (simp add: transfer_calls_def)

lemma send_bulk_step:
  "send_bulk transfer n i calls =
    (let calls = calls @ Transfer (fst (transfer i)) (snd (transfer i)) # halt_calls (fst (transfer i))
     in if \<not> good_transfer n (transfer i) \<and> Suc i < MAX_ATTEMPTS then send_bulk transfer n (Suc i) calls
        else (fst (transfer i), calls))"
  by (cases "transfer i") (subst send_bulk.simps, auto simp: good_transfer_def Let_def)

lemma send_bulk_result:
  assumes "i < MAX_ATTEMPTS"
  shows "\<exists>k. i \<le> k \<and> k < MAX_ATTEMPTS \<and> (\<forall>j. i \<le> j \<and> j < k \<longrightarrow> \<not> good_transfer n (transfer j))
    \<and> (good_transfer n (transfer k) \<or> Suc k = MAX_ATTEMPTS)
    \<and> send_bulk transfer n i calls = (fst (transfer k), calls @ transfer_calls transfer i (Suc k))"
  using assms
proof (induction "MAX_ATTEMPTS - i" arbitrary: i calls rule: less_induct)
  case less
  let ?calls = "calls @ Transfer (fst (transfer i)) (snd (transfer i)) # halt_calls (fst (transfer i))"
  show ?case
  proof (cases "\<not> good_transfer n (transfer i) \<and> Suc i < MAX_ATTEMPTS")
    case True
    then have "MAX_ATTEMPTS - Suc i < MAX_ATTEMPTS - i" "Suc i < MAX_ATTEMPTS" by auto
    from less(1) [OF this, of ?calls] obtain k where k: "Suc i \<le> k" "k < MAX_ATTEMPTS" "\<forall>j. Suc i \<le> j \<and> j < k \<longrightarrow> \<not> good_transfer n (transfer j)"
      "good_transfer n (transfer k) \<or> Suc k = MAX_ATTEMPTS"
      "send_bulk transfer n (Suc i) ?calls = (fst (transfer k), ?calls @ transfer_calls transfer (Suc i) (Suc k))"
      by (elim exE conjE)
    have "send_bulk transfer n i calls = (fst (transfer k), calls @ transfer_calls transfer i (Suc k))"
      using True k(1,5) by (subst send_bulk_step) (simp add: Let_def transfer_calls_Cons [of i])
    moreover have "\<not> good_transfer n (transfer j)" if "i \<le> j" "j < k" for j
      using True k(3) that by (cases "j = i") auto
    ultimately show ?thesis using k by (intro exI [of _ k]) auto
  next
    case False
    then have "send_bulk transfer n i calls = (fst (transfer i), calls @ transfer_calls transfer i (Suc i))"
      by (subst send_bulk_step) (auto simp: Let_def transfer_calls_Cons [of i])
    then show ?thesis using False less(2) by (intro exI [of _ i]) auto
  qed
qed

text \<open>The bytes the device has taken: each attempt starts again at the first byte.\<close>

fun delivered :: "bytes \<Rightarrow> usb_call list \<Rightarrow> bytes" where
  "delivered data [] = []"
| "delivered data (Transfer r n # cs) = take (nat n) data @ delivered data cs"
| "delivered data (Clear_Halt # cs) = delivered data cs"

lemma incomplete_sent_twice:
  "delivered [1, 2, 3] (snd (send_data 2 3 (\<lambda>n. if n = 0 then (LIBUSB_SUCCESS, 2) else (LIBUSB_SUCCESS, 3))))
     = [1, 2, 1, 2, 3]"
  by (simp add: send_data_def transfer_type_of_def send_bulk.simps halt_calls_def halted_def libusb_codes MAX_ATTEMPTS_def)

subsection \<open>The loops of a mouse endpoint\<close>

lemma ep_injection_raw:
  assumes "ep_injection L rules t (read_report n p) = Some io" and "length p \<le> MAX_TRANSFER_SIZE"
  shows "\<exists>k d. io = raw_report n k d \<and> length d = MAX_TRANSFER_SIZE \<and> k \<le> MAX_TRANSFER_SIZE"
proof (cases rules)
  case None
  then have "io = raw_report n (length p) (blit (io_data no_io) 0 p)"
    using assms(1) by (simp add: ep_injection_def read_report_def)
  moreover have "length (blit (io_data no_io) 0 p) = MAX_TRANSFER_SIZE" using assms(2) by simp
  ultimately show ?thesis using assms(2) by blast
next
  case (Some config)
  have i: "injected (read_report n p) io"
    by (rule injection_transfer_injected) (use assms Some in \<open>auto simp: ep_injection_def\<close>)
  then obtain k d where io: "io = (read_report n p)\<lparr>io_length := k, io_data := d\<rparr>" by (auto simp: injected_def)
  have "length (io_data io) = MAX_TRANSFER_SIZE \<and> io_length io \<le> MAX_TRANSFER_SIZE"
    using injected_buffer [OF i] assms(2) by simp
  then show ?thesis using io by (intro exI [of _ k] exI [of _ d]) (simp add: read_report_def raw_report_def)
qed

lemma mouse_read_refines:
  assumes t: "managed_mouse t" and r: "ep_read_in L rules t rv data now (ms_mixer s) = Some (next, rd, mx)"
    and free: "ms_reader s (uint (et_address t)) = None"
  shows "mouse_step\<^sup>*\<^sup>* s (s\<lparr>ms_mixer := mx, ms_reader := (ms_reader s)(uint (et_address t) := rd)\<rparr>)"
proof (cases rd)
  case None
  then have "mx = ms_mixer s" "(ms_reader s)(uint (et_address t) := rd) = ms_reader s"
    using r free by (auto simp: ep_read_in_def bind_eq_Some_conv split: if_splits prod.splits)
  then have "s\<lparr>ms_mixer := mx, ms_reader := (ms_reader s)(uint (et_address t) := rd)\<rparr> = s" by simp
  then show ?thesis by (metis rtranclp.rtrancl_refl)
next
  case (Some io)
  then obtain io0 where len: "length data \<le> MAX_TRANSFER_SIZE"
    and i: "ep_injection L rules t (read_report (et_num t) data) = Some io0"
    and q: "queue_physical_mouse_report (uint (et_address t)) io0 now (ms_mixer s) = (io, mx)"
    using r t by (cases "rv = LIBUSB_ERROR_NO_DEVICE")
      (auto simp: ep_read_in_def managed_mouse_def bind_eq_Some_conv Let_def split_beta split: if_splits)
  from ep_injection_raw [OF i len] obtain k d where io0: "io0 = raw_report (et_num t) k d"
    and d: "length d = MAX_TRANSFER_SIZE" "k \<le> MAX_TRANSFER_SIZE" by blast
  have "mouse_step s (s\<lparr>ms_mixer := mx, ms_reader := (ms_reader s)(uint (et_address t) := Some io)\<rparr>)"
    using q io0 by (intro mouse_step.read [OF d free]) simp
  then show ?thesis using Some by auto
qed

lemma mouse_push_refines:
  assumes "managed_mouse t" and "ms_reader s (uint (et_address t)) = Some io" and "ep_room t (ms_mixer s)"
    and "th_address (mx_threads (ms_mixer s) (et_info t)) = uint (et_address t)"
  shows "mouse_step s (s\<lparr>ms_mixer := ep_push t io (ms_mixer s), ms_reader := (ms_reader s)(uint (et_address t) := None)\<rparr>)"
  using mouse_step.push [OF assms(2,4)] assms(1,3)
  by (simp add: ep_push_def ep_queue_def ep_room_def managed_mouse_def MAX_QUEUED_def)

lemma mouse_take_refines:
  assumes "managed_mouse t" and "ms_writer s (uint (et_address t)) = None" and "ep_take t now (ms_mixer s) = (w, mx)"
  shows "mouse_step s (s\<lparr>ms_mixer := mx, ms_writer := (ms_writer s)(uint (et_address t) := w)\<rparr>)"
proof -
  obtain ok io where "take_mouse_report (uint (et_address t)) no_io now (ms_mixer s) = (ok, io, mx)"
    "w = (if ok then Some io else None)"
    using assms(1,3) by (auto simp: ep_take_def split: prod.splits)
  then show ?thesis using mouse_step.take [OF assms(2)] by simp
qed

lemma mouse_write_refines:
  assumes "managed_mouse t" and "ms_writer s (uint (et_address t)) = Some io" and "usb_raw_ep_write r \<noteq> None"
    and "ep_write_in t io r now (ms_mixer s) = (next, mx)"
  shows "mouse_step s (s\<lparr>ms_mixer := mx, ms_writer := (ms_writer s)(uint (et_address t) := None)\<rparr>)"
proof -
  obtain r' where "usb_raw_ep_write r = Some r'" using assms(3) by blast
  then have "mx = notify_mouse_report_written (uint (et_address t)) io (r' = Inr (int (io_length io))) now (ms_mixer s)"
    using assms(1,4) by (cases r') (auto simp: ep_write_in_def Let_def)
  then show ?thesis using mouse_step.written [OF assms(2)] by simp
qed

end
