(* ===== verification/Injection_Example.thy ===== *)
theory Injection_Example
  imports Injection_Facts Replay_Example
begin

text \<open>A rule for endpoint 0x81 that turns the byte 1 into the bytes 2 3, and its effect on a report.\<close>

definition demo_rules :: json where
  "demo_rules = J_Object [(''int'', J_Array [J_Object [(''enable'', J_Bool True), (''ep_address'', J_Int 81),
     (''content_pattern'', J_Array [J_String [CHR 0x5c, CHR ''x'', CHR ''0'', CHR ''1'']]),
     (''replacement'', J_String [CHR 0x5c, CHR ''x'', CHR ''0'', CHR ''2'', CHR 0x5c, CHR ''x'', CHR ''0'', CHR ''3''])]])]"

definition demo_report :: transfer_io where
  "demo_report = no_io\<lparr>io_length := 2, io_data := [7, 1] @ replicate 4094 0\<rparr>"

definition demo_injected :: transfer_io where
  "demo_injected = no_io\<lparr>io_length := 3, io_data := [7, 2, 3] @ replicate 4093 0\<rparr>"

lemma hex_demo:
  "ascii (hexToAscii [CHR 0x5c, CHR ''x'', CHR ''0'', CHR ''1'']) = [1]"
  "ascii (hexToAscii [CHR 0x5c, CHR ''x'', CHR ''0'', CHR ''2'', CHR 0x5c, CHR ''x'', CHR ''0'', CHR ''3'']) = [2, 3]"
  by code_simp+

lemma demo_replace: "inject_loop [1] [2, 3] [7, 1] False = Some ([7, 2, 3], True)"
  by (subst inject_loop.simps, simp add: MAX_INJECTED_def, subst inject_loop.simps, simp)

lemma hexToDecimal_81: "hexToDecimal 81 = 129"
  by code_simp

lemma demo_blit: "blit (7 # 1 # replicate 4094 0) 0 [7, 2, 3] = 7 # 2 # 3 # replicate 4093 0"
proof -
  have "replicate 4094 (0 :: u8) = 0 # replicate 4093 0" by (simp flip: replicate_Suc)
  then show ?thesis by (simp add: blit_def)
qed

lemma demo_injection:
  "injection_transfer json_library demo_rules ''int'' 129 demo_report = Some demo_injected"
  by (simp add: injection_transfer_def demo_rules_def json_library_def or_else_def rule_disabled_def
      field_differs_def hexToDecimal_81 inject_rule_def injection_io_def inject_pattern_def hex_demo
      demo_report_def demo_injected_def demo_replace demo_blit)

lemma demo_report_lengths: "length (io_data demo_report) = 4096" "io_length demo_report = 2"
  by (simp_all add: demo_report_def)

definition hid_get_request :: control_request where
  "hid_get_request = \<lparr>ct_type = 0xa1, ct_request = 1, ct_value = 0x100, ct_index = 0, ct_length = 8\<rparr>"

lemma hid_get_letter: "hex_letter (uint (ct_type hid_get_request))"
  by (simp add: hid_get_request_def hex_letter_def) (rule exI [of _ 1], simp)

end
