(* ===== verification/Control_Example.thy ===== *)
theory Control_Example
  imports Control_Facts Endpoint_Facts Injection_Example
begin

text \<open>
  What the proxy does with control transfers when no rule interferes, and devices on which it goes wrong: a second
  configuration, and a rule that lengthens the data of an OUT request.
\<close>

subsection \<open>Requests passed through\<close>

lemma take_blit_all: "length p \<le> length q \<Longrightarrow> take (length p) (blit q 0 p) = p"
  by (simp add: blit_def)

lemma take_fix_max_packet:
  assumes "length p \<le> length q"
  shows "take (length p) (fix_max_packet on s (blit q 0 p)) = fix_max_packet on s p"
proof (cases "7 < length p")
  case True
  then have "blit q 0 p ! 7 = p ! 7" by (simp add: blit_def nth_append)
  then show ?thesis using True by (simp add: fix_max_packet_def blit_def list_update_append)
next
  case False
  then have "fix_max_packet on s p = p" by (simp add: fix_max_packet_def not_less list_update_beyond)
  moreover have "take (length p) (fix_max_packet on s (blit q 0 p)) = take (length p) (blit q 0 p)"
    using False by (simp add: fix_max_packet_def not_less list_update_beyond)
  ultimately show ?thesis using take_blit_all [OF assms] by simp
qed

lemma control_in_plain:
  assumes "po_rules opts = None" and "(ct_type s AND 0x80) \<noteq> 0" and "unat (ct_length s) \<le> MAX_TRANSFER_SIZE"
    and "length junk = MAX_TRANSFER_SIZE" and "an_control ans s [] = Inr reply"
  shows "\<exists>mx. proxy_control opts ans junk s px = Inr (Some (Send (fix_max_packet (po_max_packet opts) s
     (take (unat (ct_length s)) reply))), [Device_Request s []], px\<lparr>px_mixer := mx\<rparr>)"
proof -
  let ?reply = "take (unat (ct_length s)) reply"
  have "length ?reply \<le> length junk" using assms(3,4) by simp
  from take_fix_max_packet [OF this, of "po_max_packet opts" s] show ?thesis
    using assms by (auto simp: proxy_control_def control_in_def device_control_def control_injection_def Let_def simp del: length_take)
qed

lemma control_in_error:
  assumes "(ct_type s AND 0x80) \<noteq> 0" and "unat (ct_length s) \<le> MAX_TRANSFER_SIZE" and "an_control ans s [] = Inl e"
  shows "proxy_control opts ans junk s px = Inr (Some Stall, [Device_Request s []], px)"
  using assms by (simp add: proxy_control_def control_in_def device_control_def Let_def)

definition sets_configuration :: "control_request \<Rightarrow> bool" where
  "sets_configuration s \<longleftrightarrow> (ct_type s AND 0x80) = 0 \<and> is_standard s \<and> ct_request s = USB_REQ_SET_CONFIGURATION"

lemma control_out_plain:
  assumes "po_rules opts = None" and "(ct_type s AND 0x80) = 0" and "\<not> sets_configuration s" and "\<not> sets_interface s"
    and "ct_length s \<noteq> 0" and "unat (ct_length s) \<le> MAX_TRANSFER_SIZE" and "length junk = MAX_TRANSFER_SIZE"
    and "an_ack ans = Inr data" and "length data = unat (ct_length s)"
  shows "proxy_control opts ans junk s px = Inr (Some (Receive (unat (ct_length s))), [Device_Request s data], px)"
proof -
  have "take (unat (ct_length s)) (blit junk 0 (take (unat (ct_length s)) data)) = data"
    using assms(6,7,9) take_blit_all [of data junk] by simp
  then show ?thesis using assms
    by (auto simp: proxy_control_def control_out_def control_injection_def sets_configuration_def sets_interface_def Let_def)
qed

subsection \<open>Requests left unanswered\<close>

lemma control_unanswered:
  assumes r: "proxy_control opts ans junk s px = Inr (None, cs, px')" and none: "po_rules opts = None"
  shows "cs = [] \<and> px' = px \<and> (ct_type s AND 0x80) = 0
    \<and> (sets_configuration s \<and> find_index (\<lambda>c. ucast (cd_value (gc_config c)) = ct_value s) (gd_configs (px_device px)) = None
       \<or> sets_interface s \<or> (\<exists>e. an_ack ans = Inl e))"
proof -
  let ?io = "no_io\<lparr>io_length := unat (ct_length s), io_data := junk\<rparr>"
  have len: "\<not> unat (ct_length s) > MAX_TRANSFER_SIZE" using r by (auto simp: proxy_control_def Let_def)
  have "control_in opts ans ?io s px \<noteq> Inr (None, cs, px')"
    using none by (auto simp: control_in_def control_injection_def Let_def split: option.split)
  then have out: "(ct_type s AND 0x80) = 0" using r len by (auto simp: proxy_control_def Let_def split: if_splits)
  consider "sets_configuration s" | "\<not> sets_configuration s" "sets_interface s" | "\<not> sets_configuration s" "\<not> sets_interface s" by blast
  then show ?thesis
  proof cases
    case 1
    then have "acknowledge s (set_proxy_configuration (po_extra opts) ans (ct_value s) px) = Inr (None, cs, px')"
      using r len by (simp add: proxy_control_def sets_configuration_def Let_def)
    then show ?thesis using 1 out
      by (auto simp: acknowledge_def set_proxy_configuration_def bind_sum_Inr Let_def split: option.splits if_splits)
  next
    case 2
    then have "acknowledge s (set_proxy_interface (po_extra opts) ans (ct_index s) (ct_value s) px) = Inr (None, cs, px')"
      using r len by (simp add: proxy_control_def sets_configuration_def sets_interface_def Let_def)
    then show ?thesis using 2 out
      by (auto simp: acknowledge_def set_proxy_interface_def bind_sum_Inr Let_def split: option.splits if_splits)
  next
    case 3
    then have "control_out opts ans ?io s px = Inr (None, cs, px')"
      using r len out by (auto simp: proxy_control_def sets_configuration_def sets_interface_def Let_def split: if_splits)
    then show ?thesis using 3 out none
      by (auto simp: control_out_def control_injection_def split: option.splits if_splits sum.splits)
  qed
qed

subsection \<open>Example devices\<close>

definition bulk_alt :: "u8 \<Rightarrow> u8 \<Rightarrow> libusb_altsetting" where
  "bulk_alt n a = \<lparr>la_interface = \<lparr>fd_length = 9, fd_type = 4, fd_number = n, fd_alternate = 0, fd_endpoints = 1,
       fd_class = 255, fd_subclass = 0, fd_protocol = 0, fd_name = 0\<rparr>,
     la_endpoints = [\<lparr>ed_length = 7, ed_type = 5, ed_address = a, ed_attributes = 2, ed_max_packet = 64,
       ed_interval = 0, ed_refresh = 0, ed_synch = 0\<rparr>], la_extra = []\<rparr>"

definition bulk_config :: "u8 \<Rightarrow> u8 list \<Rightarrow> libusb_config" where
  "bulk_config v as = \<lparr>lc_config = \<lparr>cd_length = 9, cd_type = 2, cd_total = 32, cd_interfaces = of_nat (length as),
       cd_value = v, cd_name = 0, cd_attributes = 0x80, cd_max_power = 50\<rparr>,
     lc_interfaces = map (\<lambda>i. [bulk_alt (of_nat i) (as ! i)]) [0..<length as]\<rparr>"

definition bulk_device :: "libusb_config list \<Rightarrow> libusb_descriptors" where
  "bulk_device cs = \<lparr>ld_device = \<lparr>dd_length = 18, dd_type = 1, dd_usb = 0x200, dd_class = 0, dd_subclass = 0,
       dd_protocol = 0, dd_max_packet = 8, dd_vendor = 1, dd_product = 2, dd_release = 0, dd_manufacturer = 0,
       dd_product_name = 0, dd_serial = 0, dd_configurations = of_nat (length cs)\<rparr>, ld_configs = cs\<rparr>"

definition quiet_answers :: answers where
  "quiet_answers = \<lparr>an_report = \<lambda>_ _. [], an_protocol = \<lambda>_. None, an_ep_num = \<lambda>_. 1, an_speed = 3,
     an_control = \<lambda>_ _. Inr [], an_ack = Inr [7]\<rparr>"

definition plain_options :: "json proxy_options" where
  "plain_options = \<lparr>po_library = json_library, po_rules = None, po_max_packet = True, po_extra = \<lambda>_ _ _. []\<rparr>"

definition idle_mixer :: mixer where
  "idle_mixer = ms_mixer (system_init (\<lambda>_. fresh_thread 0 0 0))"

definition demo_usb :: libusb_descriptors where
  "demo_usb = bulk_device [bulk_config 1 [0x81]]"

lemma demo_usb_single: "single_config demo_usb"
  by (simp add: demo_usb_def single_config_def parsed_ok_def bulk_device_def bulk_config_def bulk_alt_def transfer_type_of_def)

lemma demo_usb_interface: "interface_at (px_device (proxy_start demo_usb mx)) 0 0
    = setup_interface 0 0 [bulk_alt 0 0x81]" "interface_count (px_device (proxy_start demo_usb mx)) 0 = 1"
  by (simp_all add: proxy_start_def demo_usb_def interface_at_def interface_count_def setup_host_usb_desc_def bulk_device_def
      setup_config_def bulk_config_def)

subsection \<open>A second configuration\<close>

lemma interface_at_other: "(c, k) \<noteq> (i, j) \<Longrightarrow> interface_at (update_interface i j f g) c k = interface_at g c k"
  by (cases "i < length (gd_configs g)"; cases "i = c"; cases "j = k")
    (auto simp: interface_at_def update_interface_def not_less list_update_beyond)

definition untouched :: "nat \<Rightarrow> nat \<Rightarrow> proxy \<Rightarrow> proxy \<Rightarrow> bool" where
  "untouched c m px px' \<longleftrightarrow> (\<forall>j\<ge>m. interface_at (px_device px') c j = interface_at (px_device px) c j)
     \<and> gd_current (px_device px') = gd_current (px_device px)
     \<and> interface_count (px_device px') = interface_count (px_device px)"

lemma interface_count_update [simp]: "interface_count (update_interface i j f g) = interface_count g"
proof
  show "interface_count (update_interface i j f g) d = interface_count g d" for d
    by (cases "i < length (gd_configs g)"; cases "i = d")
      (simp_all add: interface_count_def update_interface_def not_less list_update_beyond)
qed

lemma untouched_trans: "untouched c m px px' \<Longrightarrow> untouched c m px' px'' \<Longrightarrow> untouched c m px px''"
  by (simp add: untouched_def)

lemma untouched_refl [simp]: "untouched c m px px"
  by (simp add: untouched_def)

lemma untouched_update:
  "c \<noteq> i \<or> j < m \<Longrightarrow> untouched c m px (px\<lparr>px_device := update_interface i j f (px_device px), px_mixer := mx\<rparr>)"
  "c \<noteq> i \<or> j < m \<Longrightarrow> untouched c m px (px\<lparr>px_device := update_interface i j f (px_device px)\<rparr>)"
  by (auto simp: untouched_def interface_at_other) (auto simp: update_interface_def)

lemma each_interface_untouched:
  assumes "each_interface f js px = Inr (cs, px')"
    and "\<And>j px cs px'. j \<in> set js \<Longrightarrow> f j px = Inr (cs, px') \<Longrightarrow> untouched c m px px'"
  shows "untouched c m px px'"
  using assms
proof (induction js arbitrary: px cs)
  case (Cons j js)
  then obtain cs1 px1 cs2 where "f j px = Inr (cs1, px1)" "each_interface f js px1 = Inr (cs2, px')"
    by (auto simp: bind_sum_Inr)
  then show ?case using Cons.IH [of px1 cs2] Cons.prems(2) untouched_trans by fastforce
qed simp

lemma stop_interface_untouched: "stop_interface d j px = Inr (cs, px') \<Longrightarrow> j < m \<Longrightarrow> untouched c m px px'"
  by (auto simp: stop_interface_def terminate_eps_def bind_sum_Inr Let_def intro!: untouched_update split: if_splits)

lemma process_eps_untouched: "process_eps extra ans d j k px = Inr (cs, px') \<Longrightarrow> j < m \<Longrightarrow> untouched c m px px'"
  by (auto simp: process_eps_def bind_sum_Inr Let_def intro!: untouched_update split: if_splits)

lemma start_interface_untouched:
  assumes "start_interface extra ans d j px = Inr (cs, px')" and "j < m"
  shows "untouched c m px px'"
proof -
  let ?px = "px\<lparr>px_device := update_interface d j (set_current 0) (px_device px)\<rparr>"
  obtain cs' where "process_eps extra ans d j 0 ?px = Inr (cs', px')"
    using assms(1) by (auto simp: start_interface_def bind_sum_Inr Let_def split: if_splits)
  from process_eps_untouched [OF this assms(2), of c] show ?thesis
    using untouched_update(2) [of c d j m px] assms(2) untouched_trans by blast
qed

text \<open>
  A change to a configuration with fewer interfaces does not stop the threads of the other interfaces of the old one:
  the loop runs over the interfaces of the new configuration.
\<close>

lemma configuration_change_leaks:
  assumes "set_proxy_configuration extra ans value px = Inr (True, cs, px')"
    and "find_index (\<lambda>c. ucast (cd_value (gc_config c)) = value) (gd_configs (px_device px)) = Some d"
    and "interface_count (px_device px) d \<le> j"
  shows "interface_at (px_device px') c j = interface_at (px_device px) c j"
proof -
  let ?m = "interface_count (px_device px) d"
  obtain cs1 px1 where stop: "(if px_configured px then each_interface (stop_interface d) [0..<?m] px else Inr ([], px)) = Inr (cs1, px1)"
    and start: "\<exists>cs2 px2. each_interface (start_interface extra ans d)
        [0..<interface_count ((px_device px1)\<lparr>gd_current := d\<rparr>) d] (px1\<lparr>px_device := (px_device px1)\<lparr>gd_current := d\<rparr>\<rparr>) = Inr (cs2, px2)
      \<and> px' = px2\<lparr>px_configured := True\<rparr>"
    using assms(1,2) by (auto simp: set_proxy_configuration_def bind_sum_Inr Let_def)
  have "untouched c ?m px px1"
  proof (cases "px_configured px")
    case True
    then show ?thesis using stop each_interface_untouched [of "stop_interface d"] stop_interface_untouched by fastforce
  qed (use stop in simp)
  then have same: "interface_count (px_device px1) d = ?m"
    and "interface_at (px_device px1) c j = interface_at (px_device px) c j" using assms(3) by (simp_all add: untouched_def)
  moreover obtain cs2 px2 where e: "each_interface (start_interface extra ans d) [0..<?m]
      (px1\<lparr>px_device := (px_device px1)\<lparr>gd_current := d\<rparr>\<rparr>) = Inr (cs2, px2)" and px': "px' = px2\<lparr>px_configured := True\<rparr>"
    using start same by (auto simp: interface_count_def)
  have "untouched c ?m (px1\<lparr>px_device := (px_device px1)\<lparr>gd_current := d\<rparr>\<rparr>) px2"
    using each_interface_untouched [OF e] start_interface_untouched by fastforce
  ultimately show ?thesis using px' assms(3) by (simp add: untouched_def interface_at_def)
qed

subsection \<open>A longer OUT request\<close>

definition vendor_out :: control_request where
  "vendor_out = \<lparr>ct_type = 0x40, ct_request = 1, ct_value = 0, ct_index = 0, ct_length = 1\<rparr>"

definition growing_rules :: json where
  "growing_rules = J_Object [(''control'', J_Object [(''modify'', J_Array [J_Object [(''enable'', J_Bool True),
     (''bRequestType'', J_Int 40), (''bRequest'', J_Int 1), (''wValue'', J_Int 0), (''wIndex'', J_Int 0), (''wLength'', J_Int 1),
     (''content_pattern'', J_Array [J_String [CHR 0x5c, CHR ''x'', CHR ''0'', CHR ''0'']]), (''replacement'', J_String ''ab'')]])])]"

definition growing_options :: "json proxy_options" where
  "growing_options = \<lparr>po_library = json_library, po_rules = Some growing_rules, po_max_packet = True, po_extra = \<lambda>_ _ _. []\<rparr>"

lemma growing_text:
  "ascii (hexToAscii [CHR 0x5c, CHR ''x'', CHR ''0'', CHR ''0'']) = [0]" "ascii (hexToAscii ''ab'') = [97, 98]"
  "hexToDecimal 40 = 64" "hexToDecimal 1 = 1" "hexToDecimal 0 = 0"
  by code_simp+

lemma growing_loop: "inject_loop [0] [97, 98] [0] False = Some ([97, 98], True)"
  by (subst inject_loop.simps, simp add: MAX_INJECTED_def, subst inject_loop.simps, simp)

text \<open>
  The rule matches the indeterminate byte of the buffer before the data of the host has been read, and the
  copy of the data, allocated for one byte, receives two.
\<close>

lemma modify_rule_overflows:
  "proxy_control growing_options quiet_answers (replicate 4096 0) vendor_out px = Inl Fault_Overflow"
proof -
  have "take 1 (replicate 4096 (0 :: u8)) = [0]" by (simp add: numeral_eq_Suc)
  then have "injection_control json_library growing_rules vendor_out (no_io\<lparr>io_length := 1, io_data := replicate 4096 0\<rparr>)
      = Some (vendor_out\<lparr>ct_length := 2\<rparr>, no_io\<lparr>io_length := 2, io_data := blit (replicate 4096 0) 0 [97, 98]\<rparr>, INJECTION_NONE)"
    by (simp add: injection_control_def control_rules_def control_rule_def growing_rules_def json_library_def
        control_skip_def or_else_def rule_disabled_def field_differs_def growing_text vendor_out_def
        apply_control_rule_def inject_rule_def injection_io_def inject_pattern_def growing_loop)
  then show ?thesis
    by (simp add: proxy_control_def growing_options_def control_out_def control_injection_def quiet_answers_def
        is_standard_def MAX_TRANSFER_SIZE_def Let_def) (simp add: vendor_out_def)
qed

text \<open>A host that asks for configuration 0, as it does to deconfigure a device, gets no answer.\<close>

lemma deconfigure_unanswered:
  assumes "find_index (\<lambda>c. ucast (cd_value (gc_config c)) = (0 :: u16)) (gd_configs (px_device px)) = None"
  shows "proxy_control opts ans junk \<lparr>ct_type = 0, ct_request = USB_REQ_SET_CONFIGURATION, ct_value = 0, ct_index = 0, ct_length = 0\<rparr> px
     = Inr (None, [], px)"
  using assms by (simp add: proxy_control_def is_standard_def acknowledge_def set_proxy_configuration_def Let_def)

subsection \<open>Starting points\<close>

definition bulk_thread :: ep_thread where
  "bulk_thread = \<lparr>et_info = 0, et_num = 1, et_address = 0x81, et_attributes = 2, et_type = ''bulk'', et_mouse = False\<rparr>"

definition mouse_thread_demo :: ep_thread where
  "mouse_thread_demo = \<lparr>et_info = 0, et_num = 1, et_address = 0x81, et_attributes = 3, et_type = ''int'', et_mouse = True\<rparr>"

lemma mouse_thread_managed: "managed_mouse mouse_thread_demo"
  by (simp add: managed_mouse_def mouse_thread_demo_def dir_in_def)

definition bulk_start :: fifo where
  "bulk_start = \<lparr>ff_mixer = idle_mixer, ff_reader = None, ff_writer = None, ff_in = [], ff_out = []\<rparr>"

text \<open>A packet read from the device and waiting in the reader.\<close>

definition bulk_read :: fifo where
  "bulk_read = bulk_start\<lparr>ff_reader := Some (read_report 1 [7]), ff_in := [read_report 1 [7]]\<rparr>"

lemma bulk_read_reach: "fifo_reach json_library None bulk_thread bulk_read"
proof -
  have q: "ep_queue bulk_thread idle_mixer = []"
    by (simp add: ep_queue_def bulk_thread_def idle_mixer_def system_init_def fresh_thread_def)
  have start: "fifo_reach json_library None bulk_thread bulk_start"
    unfolding bulk_start_def by (rule fifo_reach.start [OF q])
  have "fifo_step json_library None bulk_thread bulk_start
      (bulk_start\<lparr>ff_mixer := idle_mixer, ff_reader := Some (read_report 1 [7]),
        ff_in := ff_in bulk_start @ (case Some (read_report 1 [7]) of None \<Rightarrow> [] | Some io \<Rightarrow> [io])\<rparr>)"
    by (rule fifo_step.read_in [where rv = 0 and data = "[7]" and now = 0])
      (simp_all add: bulk_start_def bulk_thread_def dir_in_def read_ready_def q [unfolded bulk_thread_def] MAX_QUEUED_def
        ep_read_in_def ep_injection_def libusb_codes MAX_TRANSFER_SIZE_def)
  from fifo_reach.step [OF start this] show ?thesis by (simp add: bulk_read_def bulk_start_def)
qed

definition first_request :: control_request where
  "first_request = \<lparr>ct_type = 0x80, ct_request = 6, ct_value = 0x100, ct_index = 0, ct_length = 18\<rparr>"

lemma setup_quiet:
  "\<forall>c\<in>set (gd_configs (setup_host_usb_desc d)). \<forall>t\<in>set (gc_interfaces c). gi_current t = 0
     \<and> (\<forall>a\<in>set (gi_altsettings t). \<forall>e\<in>set (ga_endpoints a). \<not> ge_reading e \<and> \<not> ge_writing e)"
  by (auto simp: setup_host_usb_desc_def setup_config_def setup_interface_def setup_altsetting_def)

lemma distinct_nested:
  assumes "\<And>i. i < n \<Longrightarrow> distinct (f i)" and "\<And>i j. i < j \<Longrightarrow> j < n \<Longrightarrow> set (f i) \<inter> set (f j) = {}"
  shows "distinct (concat (map f [0..<n]))"
  using assms
proof (induction n)
  case (Suc n)
  then show ?case by (auto simp: less_Suc_eq) blast
qed simp

definition alt_infos :: "nat \<Rightarrow> nat \<Rightarrow> nat \<Rightarrow> nat \<Rightarrow> nat list" where
  "alt_infos i j k n = map (slot i j k) [0..<n]"

lemma alt_infos_setup: "map ge_info (ga_endpoints (setup_altsetting i j k a)) = alt_infos i j k (unat (fd_endpoints (la_interface a)))"
  by (simp add: alt_infos_def setup_altsetting_def comp_def)

lemma setup_infos_distinct:
  "distinct (concat (map (\<lambda>c. concat (map (\<lambda>t. concat (map (\<lambda>a. map ge_info (ga_endpoints a)) (gi_altsettings t)))
     (gc_interfaces c))) (gd_configs (setup_host_usb_desc d))))"
  unfolding setup_host_usb_desc_def setup_config_def setup_interface_def
  by (auto simp: comp_def alt_infos_setup alt_infos_def distinct_map inj_on_def intro!: distinct_nested)

definition set_one :: raw_event where
  "set_one = \<lparr>ev_type = 2, ev_length = 8, ev_setup = \<lparr>ct_type = 0, ct_request = 9, ct_value = 1, ct_index = 0, ct_length = 0\<rparr>\<rparr>"

lemma demo_start: "proxy_start demo_usb mx = \<lparr>px_device = \<lparr>gd_device = ld_device demo_usb,
   gd_configs = [\<lparr>gc_config = lc_config (bulk_config 1 [0x81]), gc_interfaces = [setup_interface 0 0 [bulk_alt 0 0x81]]\<rparr>],
   gd_current = 0\<rparr>, px_mixer = mx, px_configured = False\<rparr>"
  by (simp add: proxy_start_def demo_usb_def setup_host_usb_desc_def bulk_device_def setup_config_def bulk_config_def)

lemma demo_round:
  "\<exists>px. ep0_round plain_options quiet_answers [] set_one (proxy_start demo_usb idle_mixer)
     = Inr (Some (Receive 0), [Set_Configuration 1, Claim_Interface 0, Start_Threads (slot 0 0 0 0)], Some px)
   \<and> px_configured px \<and> interface_count (px_device px) 0 = 1
   \<and> gi_altsettings (interface_at (px_device px) 0 0) \<noteq> []
   \<and> (\<exists>e. set (ga_endpoints (gi_altsettings (interface_at (px_device px) 0 0) ! 0)) = {e})
   \<and> gi_current (interface_at (px_device px) 0 0) = 0"
  by (simp add: demo_start set_one_def ep0_round_def proxy_control_def usb_raw_events EVENT_INTERRUPTED_def is_standard_def
     usb_requests acknowledge_def set_proxy_configuration_def find_index_def bulk_config_def Let_def MAX_TRANSFER_SIZE_def
     interface_count_def start_interface_def update_interface_def interface_at_def alt_in_range_def setup_interface_def
     set_current_def process_eps_def setup_altsetting_def bulk_alt_def learn_interface_def USB_CLASS_HID_def
     start_endpoint_def transfer_type_of_def set_endpoints_def setup_endpoint_def)
definition demo_proxy :: proxy where
  "demo_proxy = (case ep0_round plain_options quiet_answers [] set_one (proxy_start demo_usb idle_mixer) of
     Inr (_, _, Some px) \<Rightarrow> px | _ \<Rightarrow> proxy_start demo_usb idle_mixer)"

lemma demo_proxy_round: "ep0_round plain_options quiet_answers [] set_one (proxy_start demo_usb idle_mixer)
    = Inr (Some (Receive 0), [Set_Configuration 1, Claim_Interface 0, Start_Threads (slot 0 0 0 0)], Some demo_proxy)"
  using demo_round by (auto simp: demo_proxy_def)

lemma demo_proxy_reach: "proxy_reach plain_options demo_usb demo_proxy"
  by (rule proxy_reach.round [OF proxy_reach.start demo_proxy_round])
    (simp add: set_one_def sets_interface_def usb_requests)

lemma demo_proxy_shape: "px_configured demo_proxy" "interface_count (px_device demo_proxy) 0 = 1"
  "gi_altsettings (interface_at (px_device demo_proxy) 0 0) \<noteq> []"
  "\<exists>e. set (ga_endpoints (gi_altsettings (interface_at (px_device demo_proxy) 0 0) ! 0)) = {e}"
  "gi_current (interface_at (px_device demo_proxy) 0 0) = 0"
  using demo_round demo_proxy_round by auto

end
