(* ===== verification/Program_Entry.thy ===== *)
theory Program_Entry
  imports Control_Proxy
begin

text \<open>
  \<open>main\<close> of \<open>usb-proxy.cpp\<close> up to the control loop, and its signal handler. The options as
  \<open>getopt_long\<close> delivers them, in their order, and the outcome of opening and parsing the files are
  arguments. \<open>Inl\<close> is the exit status, \<open>None\<close> an exception no handler catches.
\<close>

datatype cli_option = Opt_Help | Opt_Verbose | Opt_Device string | Opt_Driver string | Opt_Vendor string
  | Opt_Product string | Opt_Injection | Opt_Injection_File string | Opt_Custom_Config | Opt_Debug string
  | Opt_Descriptor_File string | Opt_Record string | Opt_Unknown

record settings =
  st_device :: string
  st_driver :: string
  st_vendor :: int
  st_product :: int
  st_verbose :: nat
  st_injection :: bool
  st_injection_file :: string
  st_custom_config :: bool
  st_debug :: int
  st_descriptor_file :: string
  st_recording :: string

definition default_settings :: settings where
  "default_settings = \<lparr>st_device = ''dummy_udc.0'', st_driver = ''dummy_udc'', st_vendor = -1, st_product = -1,
     st_verbose = 0, st_injection = False, st_injection_file = ''injection.json'', st_custom_config = False,
     st_debug = 0, st_descriptor_file = ''usb_descriptors.json'', st_recording = []\<rparr>"

subsection \<open>Numbers on the command line\<close>

definition c_space :: "char \<Rightarrow> bool" where
  "c_space c \<longleftrightarrow> (let n = of_char c :: nat in n = 32 \<or> (9 \<le> n \<and> n \<le> 13))"

definition take_sign :: "string \<Rightarrow> bool \<times> string" where
  "take_sign s = (case dropWhile c_space s of [] \<Rightarrow> (False, [])
     | c # cs \<Rightarrow> if c = CHR ''-'' then (True, cs) else if c = CHR ''+'' then (False, cs) else (False, c # cs))"

definition drop_prefix :: "string \<Rightarrow> string" where
  "drop_prefix s = (case s of a # b # c # cs \<Rightarrow>
       if a = CHR ''0'' \<and> (b = CHR ''x'' \<or> b = CHR ''X'') \<and> hex_value c \<noteq> None then c # cs else s
     | _ \<Rightarrow> s)"

text \<open>\<open>std::stoul(s, nullptr, 16)\<close>, assigned to an \<open>int\<close>.\<close>

definition stoul16 :: "string \<Rightarrow> int option" where
  "stoul16 s = (let (negative, s) = take_sign s; s = drop_prefix s; n = hex_run 0 s in
     if s = [] \<or> hex_value (hd s) = None \<or> n \<ge> 2 ^ 64 then None
     else Some (sint (word_of_int (if negative then - int n else int n) :: u32)))"

definition decimal_value :: "char \<Rightarrow> nat option" where
  "decimal_value c = (let n = of_char c :: nat in if 48 \<le> n \<and> n \<le> 57 then Some (n - 48) else None)"

fun decimal_run :: "nat \<Rightarrow> string \<Rightarrow> nat" where
  "decimal_run n [] = n"
| "decimal_run n (c # cs) = (case decimal_value c of None \<Rightarrow> n | Some d \<Rightarrow> decimal_run (10 * n + d) cs)"

definition stoi :: "string \<Rightarrow> int option" where
  "stoi s = (let (negative, s) = take_sign s; n = decimal_run 0 s; v = (if negative then - int n else int n) in
     if s = [] \<or> decimal_value (hd s) = None \<or> v < - (2 ^ 31) \<or> v \<ge> 2 ^ 31 then None else Some v)"

subsection \<open>The option loop\<close>

definition apply_option :: "cli_option \<Rightarrow> settings \<Rightarrow> (int + settings) option" where
  "apply_option opt st = (case opt of
     Opt_Help \<Rightarrow> Some (Inl 1)
   | Opt_Verbose \<Rightarrow> Some (Inr (st\<lparr>st_verbose := st_verbose st + 1\<rparr>))
   | Opt_Device s \<Rightarrow> Some (Inr (st\<lparr>st_device := s\<rparr>))
   | Opt_Driver s \<Rightarrow> Some (Inr (st\<lparr>st_driver := s\<rparr>))
   | Opt_Vendor s \<Rightarrow> map_option (\<lambda>n. Inr (st\<lparr>st_vendor := n\<rparr>)) (stoul16 s)
   | Opt_Product s \<Rightarrow> map_option (\<lambda>n. Inr (st\<lparr>st_product := n\<rparr>)) (stoul16 s)
   | Opt_Injection \<Rightarrow> Some (Inr (st\<lparr>st_injection := True\<rparr>))
   | Opt_Injection_File s \<Rightarrow> Some (Inr (st\<lparr>st_injection_file := s\<rparr>))
   | Opt_Custom_Config \<Rightarrow> Some (Inr (st\<lparr>st_custom_config := True\<rparr>))
   | Opt_Debug s \<Rightarrow> map_option (\<lambda>n. if n < 0 \<or> n > 3 then Inl 1 else Inr (st\<lparr>st_debug := n\<rparr>)) (stoi s)
   | Opt_Descriptor_File s \<Rightarrow> Some (Inr (st\<lparr>st_descriptor_file := s\<rparr>))
   | Opt_Record s \<Rightarrow> Some (Inr (st\<lparr>st_recording := s\<rparr>))
   | Opt_Unknown \<Rightarrow> Some (Inl 1))"

fun apply_options :: "cli_option list \<Rightarrow> settings \<Rightarrow> (int + settings) option" where
  "apply_options [] st = Some (Inr st)"
| "apply_options (opt # opts) st = (case apply_option opt st of
     None \<Rightarrow> None | Some (Inl e) \<Rightarrow> Some (Inl e) | Some (Inr st) \<Rightarrow> apply_options opts st)"

subsection \<open>Files\<close>

text \<open>
  Opening the recording, with the recorder's own result; the injection and configuration files:
  \<open>None\<close> is a missing file, \<open>Some None\<close> one that does not parse. \<open>is_false\<close> is the comparison of a value
  with \<open>false\<close>.
\<close>

record 'j startup_files =
  sf_recording :: bool
  sf_injection :: "'j option option"
  sf_custom :: "'j option option"

definition load_rules :: "settings \<Rightarrow> 'j startup_files \<Rightarrow> int + 'j option" where
  "load_rules st files =
    (if \<not> st_injection st then Inr None
     else if st_injection_file st = [] then Inl 1
     else case sf_injection files of None \<Rightarrow> Inl 1 | Some None \<Rightarrow> Inl 1 | Some (Some config) \<Rightarrow> Inr (Some config))"

text \<open>The options \<open>reset_device_before_proxy\<close> and \<open>bmaxpacketsize0_must_greater_than_64\<close>.\<close>

definition load_custom ::
    "'j json_library \<Rightarrow> ('j \<Rightarrow> bool) \<Rightarrow> settings \<Rightarrow> 'j startup_files \<Rightarrow> (int + bool \<times> bool) option" where
  "load_custom L is_false st files =
    (if \<not> st_custom_config st then Some (Inr (True, True))
     else case sf_custom files of None \<Rightarrow> Some (Inl 1) | Some None \<Rightarrow> Some (Inl 1)
      | Some (Some config) \<Rightarrow> do {
          reset \<leftarrow> jl_get L config ''reset_device_before_proxy'';
          packet \<leftarrow> jl_get L config ''bmaxpacketsize0_must_greater_than_64'';
          Some (Inr (\<not> is_false reset, \<not> is_false packet)) })"

text \<open>What the control loop starts with: the options of the proxy and whether to reset the device first.\<close>

definition startup ::
    "'j json_library \<Rightarrow> ('j \<Rightarrow> bool) \<Rightarrow> (nat \<Rightarrow> nat \<Rightarrow> nat \<Rightarrow> bytes) \<Rightarrow> cli_option list \<Rightarrow> 'j startup_files
       \<Rightarrow> (int + settings \<times> bool \<times> 'j proxy_options) option" where
  "startup L is_false extra opts files = (case apply_options opts default_settings of
     None \<Rightarrow> None
   | Some (Inl e) \<Rightarrow> Some (Inl e)
   | Some (Inr st) \<Rightarrow>
       (if st_recording st \<noteq> [] \<and> \<not> sf_recording files then Some (Inl 1)
        else case load_rules st files of
          Inl e \<Rightarrow> Some (Inl e)
        | Inr rules \<Rightarrow> (case load_custom L is_false st files of
            None \<Rightarrow> None
          | Some (Inl e) \<Rightarrow> Some (Inl e)
          | Some (Inr (reset, packet)) \<Rightarrow> Some (Inr (st, reset,
              \<lparr>po_library = L, po_rules = rules, po_max_packet = packet, po_extra = extra\<rparr>)))))"

text \<open>The speed the gadget announces: low and full speed, and anything faster than high, become full speed.\<close>

definition gadget_speed :: "int \<Rightarrow> int" where
  "gadget_speed physical = (if physical = 3 then 3 else 2)"

text \<open>
  The UDP server runs beside the control loop only with injection; if it cannot be started the
  program ends.
\<close>

definition start_server :: "settings \<Rightarrow> bool \<Rightarrow> int + bool" where
  "start_server st started = (if st_injection st \<and> \<not> started then Inl 1 else Inr (st_injection st))"

subsection \<open>From the device to the control loop\<close>

text \<open>
  What \<open>main\<close> does once it is configured, in its order, with the exit status: it connects again until
  \<open>connect_device\<close> succeeds, here after \<open>failures\<close> failed attempts, copies and saves the
  descriptors, brings up the gadget and runs the control loop with the server beside it.
\<close>

datatype main_action = Act_Connect int int | Act_Sleep | Act_Setup | Act_Save string | Act_Open | Act_Init int string string
  | Act_Run | Act_Start_Server | Act_Control_Loop | Act_Stop_Server | Act_Close

definition connect_actions :: "settings \<Rightarrow> nat \<Rightarrow> main_action list" where
  "connect_actions st failures =
    concat (replicate failures [Act_Connect (st_vendor st) (st_product st), Act_Sleep]) @ [Act_Connect (st_vendor st) (st_product st)]"

definition gadget_actions :: "settings \<Rightarrow> int \<Rightarrow> main_action list" where
  "gadget_actions st speed = [Act_Setup, Act_Save (st_descriptor_file st), Act_Open,
     Act_Init (gadget_speed speed) (st_driver st) (st_device st), Act_Run]"

definition main_run :: "settings \<Rightarrow> nat \<Rightarrow> int \<Rightarrow> bool \<Rightarrow> int \<times> main_action list" where
  "main_run st failures speed started =
    (let before = connect_actions st failures @ gadget_actions st speed @ (if st_injection st then [Act_Start_Server] else [])
     in case start_server st started of
          Inl e \<Rightarrow> (e, before @ [Act_Close])
        | Inr _ \<Rightarrow> (0, before @ [Act_Control_Loop, Act_Stop_Server, Act_Close]))"

lemma connect_actions_set: "set (connect_actions st n) \<subseteq> {Act_Connect (st_vendor st) (st_product st), Act_Sleep}"
  by (induction n) (auto simp: connect_actions_def)

text \<open>The control loop runs exactly where the server it needs has started; the gadget is closed in any case.\<close>

lemma main_run_loop:
  "Act_Control_Loop \<in> set (snd (main_run st failures speed started)) \<longleftrightarrow> st_injection st \<longrightarrow> started"
  "last (snd (main_run st failures speed started)) = Act_Close"
  using connect_actions_set [of st failures]
  by (auto simp: main_run_def start_server_def gadget_actions_def Let_def)

subsection \<open>Signals\<close>

record stop_flags =
  sg_received :: bool
  sg_stop_ep0 :: bool
  sg_stop_eps :: bool

definition handle_signal :: "stop_flags \<Rightarrow> int + stop_flags" where
  "handle_signal f = (if sg_received f then Inl 1
     else Inr \<lparr>sg_received = True, sg_stop_ep0 = True, sg_stop_eps = True\<rparr>)"

end
