(* ===== verification/Click_Protocol.thy ===== *)
theory Click_Protocol
  imports Proxy_Prelude
begin

text \<open>
  \<open>click_protocol.h\<close>: the 40-byte \<open>UPC1\<close> click request and the 48-byte \<open>UPA1\<close>
  acknowledgment, their builders and their parsers. A parser that rejects returns \<open>None\<close>.
\<close>

datatype click_operation = CO_Schedule | CO_ReleaseAll

datatype click_status = CS_Accepted | CS_Duplicate | CS_Completed | CS_Busy | CS_QueueFull
  | CS_UnsupportedButton | CS_Invalid | CS_Cancelled | CS_ButtonActive | CS_NotReady | CS_StaleCommand

definition VERSION1 :: u8 where
  "VERSION1 = 1"

definition VERSION2 :: u8 where
  "VERSION2 = 2"

definition REQUEST_SIZE :: nat where
  "REQUEST_SIZE = 40"

definition ACK_SIZE :: nat where
  "ACK_SIZE = 48"

fun op_code :: "click_operation \<Rightarrow> u8" where
  "op_code CO_Schedule = 1"
| "op_code CO_ReleaseAll = 2"

definition op_of :: "u8 \<Rightarrow> click_operation option" where
  "op_of b = (if b = 1 then Some CO_Schedule else if b = 2 then Some CO_ReleaseAll else None)"

fun status_code :: "click_status \<Rightarrow> u8" where
  "status_code CS_Accepted = 1"
| "status_code CS_Duplicate = 2"
| "status_code CS_Completed = 3"
| "status_code CS_Busy = 4"
| "status_code CS_QueueFull = 5"
| "status_code CS_UnsupportedButton = 6"
| "status_code CS_Invalid = 7"
| "status_code CS_Cancelled = 8"
| "status_code CS_ButtonActive = 9"
| "status_code CS_NotReady = 10"
| "status_code CS_StaleCommand = 11"

definition status_of :: "u8 \<Rightarrow> click_status option" where
  "status_of b = (if b = 1 then Some CS_Accepted else if b = 2 then Some CS_Duplicate
    else if b = 3 then Some CS_Completed else if b = 4 then Some CS_Busy
    else if b = 5 then Some CS_QueueFull else if b = 6 then Some CS_UnsupportedButton
    else if b = 7 then Some CS_Invalid else if b = 8 then Some CS_Cancelled
    else if b = 9 then Some CS_ButtonActive else if b = 10 then Some CS_NotReady
    else if b = 11 then Some CS_StaleCommand else None)"

record click_request =
  cr_operation :: click_operation
  cr_button :: u8
  cr_session :: u64
  cr_command :: u64
  cr_count :: u32
  cr_press_us :: u32
  cr_interval_us :: u32
  cr_version :: u8

record click_ack =
  ca_status :: click_status
  ca_button :: u8
  ca_session :: u64
  ca_command :: u64
  ca_server_epoch :: u64
  ca_accepted :: u32
  ca_completed :: u32
  ca_queue_depth :: u16
  ca_version :: u8

definition click_parse :: "bytes \<Rightarrow> click_request option" where
  "click_parse p =
    (if length p \<noteq> REQUEST_SIZE \<or> \<not> has_magic p ''UPC1''
        \<or> (p ! 4 \<noteq> VERSION1 \<and> p ! 4 \<noteq> VERSION2) \<or> p ! 7 \<noteq> 0 \<or> get32 p 36 \<noteq> 0 then None
     else case op_of (p ! 5) of
       None \<Rightarrow> None
     | Some op \<Rightarrow>
         (let r = \<lparr>cr_operation = op, cr_button = p ! 6, cr_session = get64 p 8,
                   cr_command = get64 p 16, cr_count = get32 p 24, cr_press_us = get32 p 28,
                   cr_interval_us = get32 p 32, cr_version = p ! 4\<rparr>
          in if cr_session r = 0 \<or> cr_command r = 0 then None
             else if op = CO_ReleaseAll \<and> (cr_button r \<noteq> 0 \<or> cr_count r \<noteq> 0
                     \<or> cr_press_us r \<noteq> 0 \<or> cr_interval_us r \<noteq> 0) then None
             else Some r))"

definition click_request_packet :: "click_request \<Rightarrow> bytes" where
  "click_request_packet r =
    (let p = blit (replicate REQUEST_SIZE 0) 0 (ascii ''UPC1'');
         p = p[4 := cr_version r];
         p = p[5 := op_code (cr_operation r), 6 := cr_button r];
         p = put64 p 8 (cr_session r);
         p = put64 p 16 (cr_command r);
         p = put32 p 24 (cr_count r);
         p = put32 p 28 (cr_press_us r)
     in put32 p 32 (cr_interval_us r))"

definition click_ack_packet :: "click_ack \<Rightarrow> bytes" where
  "click_ack_packet a =
    (let p = blit (replicate ACK_SIZE 0) 0 (ascii ''UPA1'');
         p = p[4 := ca_version a, 5 := status_code (ca_status a), 6 := ca_button a];
         p = put64 p 8 (ca_session a);
         p = put64 p 16 (ca_command a);
         p = put32 p 24 (ca_accepted a);
         p = put32 p 28 (ca_completed a);
         p = put64 p 32 (ca_server_epoch a)
     in put16 p 40 (ca_queue_depth a))"

definition click_parse_ack :: "bytes \<Rightarrow> click_ack option" where
  "click_parse_ack p =
    (if length p \<noteq> ACK_SIZE \<or> \<not> has_magic p ''UPA1''
        \<or> (p ! 4 \<noteq> VERSION1 \<and> p ! 4 \<noteq> VERSION2) \<or> p ! 7 \<noteq> 0
        \<or> get16 p 42 \<noteq> 0 \<or> get32 p 44 \<noteq> 0 then None
     else case status_of (p ! 5) of
       None \<Rightarrow> None
     | Some st \<Rightarrow>
         Some \<lparr>ca_status = st, ca_button = p ! 6, ca_session = get64 p 8,
               ca_command = get64 p 16, ca_server_epoch = get64 p 32,
               ca_accepted = get32 p 24, ca_completed = get32 p 28,
               ca_queue_depth = get16 p 40, ca_version = p ! 4\<rparr>)"

subsection \<open>What the formats admit\<close>

definition click_request_wf :: "click_request \<Rightarrow> bool" where
  "click_request_wf r \<longleftrightarrow> (cr_version r = VERSION1 \<or> cr_version r = VERSION2)
     \<and> cr_session r \<noteq> 0 \<and> cr_command r \<noteq> 0
     \<and> (cr_operation r = CO_ReleaseAll \<longrightarrow> cr_button r = 0 \<and> cr_count r = 0
          \<and> cr_press_us r = 0 \<and> cr_interval_us r = 0)"

definition click_ack_wf :: "click_ack \<Rightarrow> bool" where
  "click_ack_wf a \<longleftrightarrow> ca_version a = VERSION1 \<or> ca_version a = VERSION2"

lemma op_of_code [simp]: "op_of (op_code x) = Some x"
  by (cases x) (simp_all add: op_of_def)

lemma op_of_Some: "op_of b = Some x \<longleftrightarrow> b = op_code x"
  by (cases x) (auto simp: op_of_def)

lemma status_of_code [simp]: "status_of (status_code x) = Some x"
  by (cases x) (simp_all add: status_of_def)

lemma status_of_Some: "status_of b = Some x \<Longrightarrow> b = status_code x"
  by (auto simp: status_of_def split: if_splits)

lemmas click_sizes = REQUEST_SIZE_def ACK_SIZE_def

lemma length_click_request_packet [simp]: "length (click_request_packet r) = REQUEST_SIZE"
  by (simp add: click_request_packet_def click_sizes)

lemma length_click_ack_packet [simp]: "length (click_ack_packet a) = ACK_SIZE"
  by (simp add: click_ack_packet_def click_sizes)

lemma click_request_roundtrip:
  "click_request_wf r \<Longrightarrow> click_parse (click_request_packet r) = Some r"
  by (auto simp: click_parse_def click_request_packet_def click_request_wf_def click_sizes
      wire_simps)

lemma click_ack_roundtrip:
  "click_ack_wf a \<Longrightarrow> click_parse_ack (click_ack_packet a) = Some a"
  by (auto simp: click_parse_ack_def click_ack_packet_def click_ack_wf_def click_sizes wire_simps)

lemma click_parse_wf: "click_parse p = Some r \<Longrightarrow> click_request_wf r"
  by (auto simp: click_parse_def click_request_wf_def Let_def split: if_splits option.splits)

lemma click_parse_ack_wf: "click_parse_ack p = Some a \<Longrightarrow> click_ack_wf a"
  by (auto simp: click_parse_ack_def click_ack_wf_def split: if_splits option.splits)

text \<open>The bytes a field does not cover are checked to be zero, so parsing loses nothing.\<close>

lemma click_parse_canonical: "click_parse p = Some r \<Longrightarrow> click_request_packet r = p"
proof -
  assume parse: "click_parse p = Some r"
  then have len: "length p = 40" and magic: "has_magic p ''UPC1''"
    and zero: "p ! 7 = 0" "get32 p 36 = 0" and op: "op_code (cr_operation r) = p ! 5"
    and r: "cr_button r = p ! 6" "cr_session r = get64 p 8" "cr_command r = get64 p 16"
      "cr_count r = get32 p 24" "cr_press_us r = get32 p 28" "cr_interval_us r = get32 p 32"
      "cr_version r = p ! 4"
    by (auto simp: click_parse_def Let_def click_sizes op_of_Some split: if_splits option.splits)
  show ?thesis
  proof (rule nth_equalityI)
    show "length (click_request_packet r) = length p"
      by (simp add: click_sizes len)
  next
    fix i assume "i < length (click_request_packet r)"
    then have i: "i < 40" by (simp add: click_sizes)
    have "6 < i \<Longrightarrow> i < 8 \<Longrightarrow> p ! i = 0" using zero(1) by (cases "i = 7") auto
    with i show "click_request_packet r ! i = p ! i"
      using get32_zeroD [OF zero(2), of i] has_magicD [OF magic, of i]
      by (auto simp: click_request_packet_def click_sizes op r len nth_copy)
  qed
qed

lemma click_parse_ack_canonical: "click_parse_ack p = Some a \<Longrightarrow> click_ack_packet a = p"
proof -
  assume parse: "click_parse_ack p = Some a"
  then have len: "length p = 48" and magic: "has_magic p ''UPA1''"
    and zero: "p ! 7 = 0" "get16 p 42 = 0" "get32 p 44 = 0"
    and st: "status_code (ca_status a) = p ! 5"
    and a: "ca_button a = p ! 6" "ca_session a = get64 p 8" "ca_command a = get64 p 16"
      "ca_server_epoch a = get64 p 32" "ca_accepted a = get32 p 24"
      "ca_completed a = get32 p 28" "ca_queue_depth a = get16 p 40" "ca_version a = p ! 4"
    by (auto simp: click_parse_ack_def click_sizes dest: status_of_Some
        split: if_splits option.splits)
  show ?thesis
  proof (rule nth_equalityI)
    show "length (click_ack_packet a) = length p"
      by (simp add: click_sizes len)
  next
    fix i assume "i < length (click_ack_packet a)"
    then have i: "i < 48" by (simp add: click_sizes)
    have "6 < i \<Longrightarrow> i < 8 \<Longrightarrow> p ! i = 0" using zero(1) by (cases "i = 7") auto
    with i show "click_ack_packet a ! i = p ! i"
      using get16_zeroD [OF zero(2), of i] get32_zeroD [OF zero(3), of i]
        has_magicD [OF magic, of i]
      by (cases "i < 44") (auto simp: click_ack_packet_def click_sizes st a len nth_copy)
  qed
qed

subsection \<open>Both formats meet the codec interface\<close>

interpretation upc1: codec click_request_packet click_parse click_request_wf REQUEST_SIZE
  by unfold_locales (auto simp: click_request_roundtrip click_parse_canonical click_parse_wf)

interpretation upa1: codec click_ack_packet click_parse_ack click_ack_wf ACK_SIZE
  by unfold_locales (auto simp: click_ack_roundtrip click_parse_ack_canonical click_parse_ack_wf)

end
