(* ===== verification/Session_Tracker.thy ===== *)
theory Session_Tracker
  imports Proxy_Prelude
begin

text \<open>
  \<open>session_tracker.h\<close>: the high-water command number of each client session. At most 32
  sessions are active, in the order of their last use; up to 256 retired ones keep their number
  for ten minutes. Clock values and the callback \<open>protected_session\<close> are arguments.
\<close>

record session_entry =
  se_session :: u64
  se_highest :: u64
  se_stamp :: u64

record session_tracker =
  st_active :: "session_entry list"
  st_retired :: "session_entry list"

definition MAX_ACTIVE :: nat where
  "MAX_ACTIVE = 32"

definition MAX_RETIRED :: nat where
  "MAX_RETIRED = 256"

definition SESSION_RETENTION_NS :: u64 where
  "SESSION_RETENTION_NS = 600000000000"

definition no_sessions :: session_tracker where
  "no_sessions = \<lparr>st_active = [], st_retired = []\<rparr>"

text \<open>The first entry of a session, with what is before and behind it.\<close>

definition session_find ::
    "session_entry list \<Rightarrow> u64 \<Rightarrow> (session_entry list \<times> session_entry \<times> session_entry list) option" where
  "session_find es s = List.extract (\<lambda>e. se_session e = s) es"

definition session_erase :: "session_entry list \<Rightarrow> u64 \<Rightarrow> session_entry list" where
  "session_erase es s = (case session_find es s of None \<Rightarrow> es | Some (a, _, b) \<Rightarrow> a @ b)"

definition session_expired :: "u64 \<Rightarrow> session_entry \<Rightarrow> bool" where
  "session_expired now e \<longleftrightarrow> now \<ge> se_stamp e \<and> now - se_stamp e > SESSION_RETENTION_NS"

definition session_prune :: "u64 \<Rightarrow> session_tracker \<Rightarrow> session_tracker" where
  "session_prune now tr = tr\<lparr>st_retired := filter (\<lambda>e. \<not> session_expired now e) (st_retired tr)\<rparr>"

definition session_stale :: "session_tracker \<Rightarrow> u64 \<Rightarrow> u64 \<Rightarrow> u64 \<Rightarrow> bool \<times> session_tracker" where
  "session_stale tr s c now =
    (let tr = session_prune now tr
     in (case session_find (st_active tr) s of
           Some (_, e, _) \<Rightarrow> c \<le> se_highest e
         | None \<Rightarrow>
             (case session_find (st_retired tr) s of
                Some (_, e, _) \<Rightarrow> c \<le> se_highest e
              | None \<Rightarrow> False), tr))"

text \<open>\<open>retire\<close>: the victim, with the active entries around it, moves to the retired list.\<close>

definition session_retire ::
    "session_entry list \<times> session_entry \<times> session_entry list \<Rightarrow> u64 \<Rightarrow> session_tracker \<Rightarrow> session_tracker" where
  "session_retire v now tr =
    (case v of (a, e, b) \<Rightarrow>
       let retired = session_erase (st_retired tr) (se_session e) @ [e\<lparr>se_stamp := now\<rparr>]
       in tr\<lparr>st_active := a @ b, st_retired := drop (length retired - MAX_RETIRED) retired\<rparr>)"

text \<open>\<open>victim\<close>: the outer option is the early \<open>return false\<close>, the inner one \<open>active_.end()\<close>.\<close>

definition session_victim ::
    "session_entry list \<Rightarrow> bool \<Rightarrow> (u64 \<Rightarrow> bool)
     \<Rightarrow> (session_entry list \<times> session_entry \<times> session_entry list) option option" where
  "session_victim es force prot =
    (if length es \<ge> MAX_ACTIVE then
       (case List.extract (\<lambda>e. \<not> prot (se_session e)) es of
          Some v \<Rightarrow> Some (Some v)
        | None \<Rightarrow> if \<not> force then None
                 else Some (case es of [] \<Rightarrow> None | e # es' \<Rightarrow> Some ([], e, es')))
     else Some None)"

definition session_admit ::
    "session_tracker \<Rightarrow> u64 \<Rightarrow> u64 \<Rightarrow> bool \<Rightarrow> (u64 \<Rightarrow> bool) \<Rightarrow> bool \<times> session_tracker" where
  "session_admit tr s now force prot =
    (let tr = session_prune now tr
     in case session_find (st_active tr) s of
          Some (a, e, b) \<Rightarrow> (True, tr\<lparr>st_active := a @ b @ [e\<lparr>se_stamp := now\<rparr>]\<rparr>)
        | None \<Rightarrow>
            (let highest = (case session_find (st_retired tr) s of None \<Rightarrow> 0 | Some (_, e, _) \<Rightarrow> se_highest e)
             in case session_victim (st_active tr) force prot of
                  None \<Rightarrow> (False, tr)
                | Some victim \<Rightarrow>
                    let tr = tr\<lparr>st_retired := session_erase (st_retired tr) s\<rparr>;
                        tr = (case victim of None \<Rightarrow> tr | Some v \<Rightarrow> session_retire v now tr)
                    in (True, tr\<lparr>st_active := st_active tr
                                @ [\<lparr>se_session = s, se_highest = highest, se_stamp = now\<rparr>]\<rparr>)))"

definition session_accept :: "session_tracker \<Rightarrow> u64 \<Rightarrow> u64 \<Rightarrow> u64 \<Rightarrow> session_tracker" where
  "session_accept tr s c now =
    (case session_find (st_active tr) s of
       None \<Rightarrow> tr
     | Some (a, e, b) \<Rightarrow>
         tr\<lparr>st_active := a @ b @ [e\<lparr>se_highest := max (se_highest e) c, se_stamp := now\<rparr>]\<rparr>)"

subsection \<open>Lookups\<close>

definition highest_in :: "session_entry list \<Rightarrow> u64 \<Rightarrow> u64 option" where
  "highest_in es s = map_option (\<lambda>(_, e, _). se_highest e) (session_find es s)"

definition session_mark :: "session_tracker \<Rightarrow> u64 \<Rightarrow> u64 \<Rightarrow> u64 option" where
  "session_mark tr now s =
    (case highest_in (st_active tr) s of Some h \<Rightarrow> Some h
     | None \<Rightarrow> highest_in (st_retired (session_prune now tr)) s)"

abbreviation sessions :: "session_entry list \<Rightarrow> u64 set" where
  "sessions es \<equiv> se_session ` set es"

definition session_ok :: "session_tracker \<Rightarrow> bool" where
  "session_ok tr \<longleftrightarrow> distinct (map se_session (st_active tr @ st_retired tr))
     \<and> length (st_active tr) \<le> MAX_ACTIVE \<and> length (st_retired tr) \<le> MAX_RETIRED"

lemma session_find_None: "session_find es s = None \<longleftrightarrow> s \<notin> sessions es"
  by (auto simp: session_find_def extract_None_iff)

lemma session_find_Some:
  assumes "session_find es s = Some (a, e, b)"
  shows "es = a @ e # b" and "se_session e = s" and "s \<notin> sessions a"
  using extract_SomeE [OF assms [unfolded session_find_def]] by auto

lemma highest_in_map_of: "highest_in es s = map_of (map (\<lambda>e. (se_session e, se_highest e)) es) s"
  by (induction es) (auto simp: highest_in_def session_find_def extract_Nil_code extract_Cons_code split: option.splits)

lemma highest_in_None: "highest_in es s = None \<longleftrightarrow> s \<notin> sessions es"
  by (simp add: highest_in_def session_find_None)

lemma highest_in_append: "highest_in (a @ b) s = (case highest_in a s of Some h \<Rightarrow> Some h | None \<Rightarrow> highest_in b s)"
  by (auto simp: highest_in_map_of map_add_def split: option.splits)

lemma highest_in_Cons: "highest_in (e # b) s = (if se_session e = s then Some (se_highest e) else highest_in b s)"
  by (simp add: highest_in_map_of)

lemma highest_in_Nil [simp]: "highest_in [] s = None"
  by (simp add: highest_in_map_of)

lemma filter_absent: "s \<notin> sessions es \<Longrightarrow> filter (\<lambda>e. se_session e \<noteq> s) es = es"
  by (auto simp: filter_id_conv)

lemma session_erase_eq:
  assumes "distinct (map se_session es)"
  shows "session_erase es s = filter (\<lambda>e. se_session e \<noteq> s) es"
proof (cases "session_find es s")
  case None
  then have "s \<notin> sessions es" by (simp add: session_find_None)
  with None show ?thesis by (simp add: session_erase_def filter_absent)
next
  case (Some r)
  obtain a e b where r: "r = (a, e, b)" by (cases r)
  note f = session_find_Some [OF Some [unfolded r]]
  have "s \<notin> sessions b" using assms f by auto
  with f(3) have "filter (\<lambda>e. se_session e \<noteq> s) (a @ e # b) = a @ b"
    using f(2) by (simp add: filter_absent)
  with f(1) Some r show ?thesis by (simp add: session_erase_def)
qed

lemma highest_in_filter_other:
  "s \<noteq> s' \<Longrightarrow> highest_in (filter (\<lambda>e. se_session e \<noteq> s) es) s' = highest_in es s'"
  by (induction es) (auto simp: highest_in_Cons)

lemma session_stale_iff: "fst (session_stale tr s c now) \<longleftrightarrow> (\<exists>h. session_mark tr now s = Some h \<and> \<not> h < c)"
  by (auto simp: session_stale_def session_mark_def highest_in_def Let_def session_prune_def not_less
      split: option.splits)

subsection \<open>The operations on the marks\<close>

lemma session_prune_idem [simp]: "session_prune now (session_prune now tr) = session_prune now tr"
  by (simp add: session_prune_def)

lemma session_prune_active [simp]: "st_active (session_prune now tr) = st_active tr"
  by (simp add: session_prune_def)

lemma session_stale_snd [simp]: "snd (session_stale tr s c now) = session_prune now tr"
  by (simp add: session_stale_def Let_def)

lemma session_mark_prune [simp]: "session_mark (session_prune now tr) now s = session_mark tr now s"
  by (simp add: session_mark_def split: option.split)

lemma session_ok_prune [simp]: "session_ok tr \<Longrightarrow> session_ok (session_prune now tr)"
  by (auto simp: session_ok_def session_prune_def distinct_map_filter intro: order_trans [OF length_filter_le])

lemma session_ok_empty [simp]: "session_ok no_sessions"
  by (simp add: session_ok_def no_sessions_def)

lemma session_accept_active:
  assumes "session_ok tr" and "session_find (st_active tr) s = Some (a, e, b)"
  shows "session_ok (session_accept tr s c now)"
    and "session_mark (session_accept tr s c now) now' s' =
      (if s' = s then Some (max (se_highest e) c) else session_mark tr now' s')"
proof -
  note f = session_find_Some [OF assms(2)]
  have acc: "session_accept tr s c now = tr\<lparr>st_active := a @ b @ [e\<lparr>se_highest := max (se_highest e) c, se_stamp := now\<rparr>]\<rparr>"
    using assms(2) by (simp add: session_accept_def)
  show "session_ok (session_accept tr s c now)"
    using assms(1) f unfolding acc by (auto simp: session_ok_def)
  have "s \<notin> sessions b" using assms(1) f by (auto simp: session_ok_def)
  with f show "session_mark (session_accept tr s c now) now' s' =
      (if s' = s then Some (max (se_highest e) c) else session_mark tr now' s')"
    unfolding acc session_mark_def
    by (auto simp: highest_in_append highest_in_Cons highest_in_None [THEN iffD2] session_prune_def split: option.splits)
qed

lemma session_accept_ok: "session_ok tr \<Longrightarrow> session_ok (session_accept tr s c now)"
  using session_accept_active(1)
  by (cases "session_find (st_active tr) s") (auto simp: session_accept_def)

lemma distinct_append_drop:
  assumes "distinct (map f (xs @ ys))"
  shows "distinct (map f (xs @ drop k ys))"
proof -
  have "distinct (drop k (map f ys))" using assms by (simp add: distinct_drop)
  then have "distinct (map f (drop k ys))" by (simp only: drop_map)
  with assms set_drop_subset [of k ys] show ?thesis by auto
qed

text \<open>Retiring a victim: its number is kept, and only the oldest retired one may be dropped.\<close>

lemma session_retire_props:
  assumes ok: "session_ok tr" and act: "st_active tr = a @ e # b"
  shows "session_ok (session_retire (a, e, b) now tr)"
    and "st_active (session_retire (a, e, b) now tr) = a @ b"
    and "\<exists>d. st_retired tr @ [e\<lparr>se_stamp := now\<rparr>] = d @ st_retired (session_retire (a, e, b) now tr)
      \<and> (d = [] \<or> length (st_retired tr) = MAX_RETIRED \<and> length d = 1)"
proof -
  have "session_erase (st_retired tr) (se_session e) = st_retired tr"
    using ok act by (subst session_erase_eq) (auto simp: session_ok_def intro!: filter_absent)
  then have r: "session_retire (a, e, b) now tr
      = tr\<lparr>st_active := a @ b, st_retired := drop (Suc (length (st_retired tr)) - MAX_RETIRED)
          (st_retired tr @ [e\<lparr>se_stamp := now\<rparr>])\<rparr>"
    by (simp add: session_retire_def Let_def)
  have len: "length (st_retired tr) \<le> MAX_RETIRED" using ok by (simp add: session_ok_def)
  show "st_active (session_retire (a, e, b) now tr) = a @ b" by (simp add: r)
  have d: "st_retired tr @ [e\<lparr>se_stamp := now\<rparr>]
      = take (Suc (length (st_retired tr)) - MAX_RETIRED) (st_retired tr @ [e\<lparr>se_stamp := now\<rparr>])
        @ st_retired (session_retire (a, e, b) now tr)"
    unfolding r by (simp del: take_append drop_append)
  show "\<exists>d. st_retired tr @ [e\<lparr>se_stamp := now\<rparr>] = d @ st_retired (session_retire (a, e, b) now tr)
      \<and> (d = [] \<or> length (st_retired tr) = MAX_RETIRED \<and> length d = 1)"
    by (rule exI, rule conjI, rule d) (use len in \<open>auto simp: MAX_RETIRED_def\<close>)
  let ?k = "Suc (length (st_retired tr)) - MAX_RETIRED" and ?x = "st_retired tr @ [e\<lparr>se_stamp := now\<rparr>]"
  have "distinct (map se_session ((a @ b) @ ?x))" using ok act by (auto simp: session_ok_def)
  then have "distinct (map se_session ((a @ b) @ drop ?k ?x))" by (rule distinct_append_drop)
  moreover have "length (drop ?k ?x) \<le> MAX_RETIRED" by (simp add: MAX_RETIRED_def)
  ultimately show "session_ok (session_retire (a, e, b) now tr)"
    using ok act unfolding r session_ok_def by simp
qed

lemma session_victim_cases:
  obtains "session_victim es force prot = None" "length es \<ge> MAX_ACTIVE" "\<forall>e\<in>set es. prot (se_session e)" "\<not> force"
  | "session_victim es force prot = Some None" "length es < MAX_ACTIVE"
  | a e b where "session_victim es force prot = Some (Some (a, e, b))" "length es \<ge> MAX_ACTIVE" "es = a @ e # b"
      "\<not> prot (se_session e) \<or> force \<and> a = [] \<and> (\<forall>e\<in>set es. prot (se_session e))"
proof (cases "length es \<ge> MAX_ACTIVE")
  case False
  with that(2) show thesis by (simp add: session_victim_def)
next
  case full: True
  show thesis
  proof (cases "List.extract (\<lambda>e. \<not> prot (se_session e)) es")
    case None
    then have all: "\<forall>e\<in>set es. prot (se_session e)" by (simp add: extract_None_iff)
    obtain e es' where es: "es = e # es'" using full by (cases es) (auto simp: MAX_ACTIVE_def)
    show thesis
    proof (cases force)
      case True
      with None full es have "session_victim es force prot = Some (Some ([], e, es'))"
        by (simp add: session_victim_def)
      from that(3) [OF this full] es True all show thesis by simp
    next
      case False
      with None full have "session_victim es force prot = None" by (simp add: session_victim_def)
      from that(1) [OF this full all False] show thesis .
    qed
  next
    case (Some v)
    obtain a e b where v: "v = (a, e, b)" by (cases v)
    from extract_SomeE [OF Some [unfolded v]] have "es = a @ e # b" "\<not> prot (se_session e)" by auto
    with Some v full that(3) show thesis by (simp add: session_victim_def)
  qed
qed

lemma highest_in_dropped:
  assumes "distinct (map se_session es)" and "es = d @ es'"
  shows "highest_in es' s = highest_in es s \<or> s \<in> sessions d \<and> highest_in es' s = None"
proof (cases "s \<in> sessions d")
  case True
  with assms have "s \<notin> sessions es'" by auto
  with True show ?thesis by (simp add: highest_in_None)
next
  case False
  then show ?thesis by (simp add: assms(2) highest_in_append highest_in_None [THEN iffD2])
qed

lemma session_admit_cases:
  assumes ok: "session_ok tr"
  obtains
    (kept) a e b where "session_find (st_active tr) s = Some (a, e, b)"
      "session_admit tr s now force prot
        = (True, (session_prune now tr)\<lparr>st_active := a @ b @ [e\<lparr>se_stamp := now\<rparr>]\<rparr>)"
  | (refused) "s \<notin> sessions (st_active tr)" "length (st_active tr) = MAX_ACTIVE"
      "\<forall>e\<in>set (st_active tr). prot (se_session e)" "\<not> force"
      "session_admit tr s now force prot = (False, session_prune now tr)"
  | (added) h tr' where "s \<notin> sessions (st_active tr)"
      "h = (case session_mark tr now s of None \<Rightarrow> 0 | Some h \<Rightarrow> h)"
      "tr' = (session_prune now tr)\<lparr>st_retired := session_erase (st_retired (session_prune now tr)) s\<rparr>"
      "length (st_active tr) < MAX_ACTIVE"
      "session_admit tr s now force prot
        = (True, tr'\<lparr>st_active := st_active tr @ [\<lparr>se_session = s, se_highest = h, se_stamp = now\<rparr>]\<rparr>)"
  | (replaced) h tr' a e b where "s \<notin> sessions (st_active tr)"
      "h = (case session_mark tr now s of None \<Rightarrow> 0 | Some h \<Rightarrow> h)"
      "tr' = (session_prune now tr)\<lparr>st_retired := session_erase (st_retired (session_prune now tr)) s\<rparr>"
      "length (st_active tr) = MAX_ACTIVE" "st_active tr = a @ e # b"
      "\<not> prot (se_session e) \<or> force \<and> a = [] \<and> (\<forall>e\<in>set (st_active tr). prot (se_session e))"
      "session_admit tr s now force prot
        = (True, (session_retire (a, e, b) now tr')\<lparr>st_active := a @ b @ [\<lparr>se_session = s, se_highest = h, se_stamp = now\<rparr>]\<rparr>)"
proof (cases "session_find (st_active tr) s")
  case (Some r)
  obtain a e b where "r = (a, e, b)" by (cases r)
  with Some kept show thesis by (simp add: session_admit_def Let_def)
next
  case None
  then have s: "s \<notin> sessions (st_active tr)" by (simp add: session_find_None)
  have len: "length (st_active tr) \<le> MAX_ACTIVE" using ok by (simp add: session_ok_def)
  define h where "h = (case session_mark tr now s of None \<Rightarrow> 0 | Some h \<Rightarrow> h)"
  have h: "(case session_find (st_retired (session_prune now tr)) s of None \<Rightarrow> 0 | Some (_, e, _) \<Rightarrow> se_highest e) = h"
    using None by (auto simp: h_def session_mark_def highest_in_def split: option.splits)
  define tr' where "tr' = (session_prune now tr)\<lparr>st_retired := session_erase (st_retired (session_prune now tr)) s\<rparr>"
  note unfold = session_admit_def Let_def session_prune_active None option.case h
  show thesis
  proof (cases rule: session_victim_cases [of "st_active tr" force prot])
    case 1
    with s len show thesis by (intro refused) (simp_all add: unfold)
  next
    case 2
    with s show thesis by (intro added [OF s h_def tr'_def]) (simp_all add: unfold tr'_def)
  next
    case (3 a e b)
    have "session_admit tr s now force prot = (True, (session_retire (a, e, b) now tr')
        \<lparr>st_active := st_active (session_retire (a, e, b) now tr')
           @ [\<lparr>se_session = s, se_highest = h, se_stamp = now\<rparr>]\<rparr>)"
      using 3(1) by (simp add: unfold flip: tr'_def)
    moreover have "st_active (session_retire (a, e, b) now tr') = a @ b"
      by (simp add: session_retire_def Let_def)
    ultimately show thesis using 3(2) len by (intro replaced [OF s h_def tr'_def _ 3(3,4)]) simp_all
  qed
qed

subsection \<open>What admitting a session keeps\<close>

text \<open>Dropping the session's own retired entry, then adding it in front, as \<open>admit\<close> does.\<close>

lemma session_forget:
  assumes "session_ok tr"
    and "tr' = (session_prune now tr)\<lparr>st_retired := session_erase (st_retired (session_prune now tr)) s\<rparr>"
  shows "session_ok tr'" and "st_active tr' = st_active tr" and "s \<notin> sessions (st_retired tr')"
    and "sessions (st_retired tr') \<subseteq> sessions (st_retired tr)"
    and "length (st_retired tr') \<le> length (st_retired tr)"
    and "\<forall>e\<in>set (st_retired tr'). \<not> session_expired now e"
    and "s' \<noteq> s \<Longrightarrow> session_mark tr' now s' = session_mark tr now s'"
proof -
  let ?r = "filter (\<lambda>e. \<not> session_expired now e) (st_retired tr)"
  have "distinct (map se_session ?r)" using assms(1) by (simp add: session_ok_def distinct_map_filter)
  then have r: "st_retired tr' = filter (\<lambda>e. se_session e \<noteq> s) ?r" "st_active tr' = st_active tr"
    by (simp_all add: assms(2) session_prune_def session_erase_eq)
  show "st_active tr' = st_active tr" by (rule r(2))
  show "s \<notin> sessions (st_retired tr')" "sessions (st_retired tr') \<subseteq> sessions (st_retired tr)"
    "\<forall>e\<in>set (st_retired tr'). \<not> session_expired now e"
    by (auto simp: r)
  show l: "length (st_retired tr') \<le> length (st_retired tr)"
    unfolding r by (meson length_filter_le order_trans)
  with assms(1) show "session_ok tr'"
    by (auto simp: session_ok_def r intro: distinct_map_filter order_trans [OF length_filter_le])
  assume "s' \<noteq> s"
  then have "highest_in (st_retired tr') s' = highest_in ?r s'"
    unfolding r(1) by (intro highest_in_filter_other) simp
  moreover have "st_retired (session_prune now tr') = st_retired tr'"
    unfolding session_prune_def r by (simp add: conj_ac cong: conj_cong)
  ultimately show "session_mark tr' now s' = session_mark tr now s'"
    by (simp add: session_mark_def session_prune_def r(2) split: option.split)
qed

lemma session_add:
  assumes "session_ok tr" and "s \<notin> sessions (st_active tr)" and "s \<notin> sessions (st_retired tr)"
    and "length (st_active tr) < MAX_ACTIVE"
    and "tr' = tr\<lparr>st_active := st_active tr @ [\<lparr>se_session = s, se_highest = h, se_stamp = now\<rparr>]\<rparr>"
  shows "session_ok tr'" and "session_mark tr' now' s' = (if s' = s then Some h else session_mark tr now' s')"
proof -
  show "session_ok tr'" using assms by (auto simp: session_ok_def)
  show "session_mark tr' now' s' = (if s' = s then Some h else session_mark tr now' s')"
    using assms(2) by (auto simp: assms(5) session_mark_def session_prune_def highest_in_append highest_in_Cons
        highest_in_None [THEN iffD2] split: option.splits)
qed

lemma session_retire_mark:
  assumes ok: "session_ok tr" and act: "st_active tr = a @ e # b"
    and live: "\<forall>e\<in>set (st_retired tr). \<not> session_expired now e"
  shows "session_mark (session_retire (a, e, b) now tr) now s = session_mark tr now s
    \<or> session_mark (session_retire (a, e, b) now tr) now s = None
      \<and> length (st_retired tr) = MAX_RETIRED \<and> s \<in> sessions (st_retired tr)"
proof -
  let ?t = "session_retire (a, e, b) now tr" and ?e = "e\<lparr>se_stamp := now\<rparr>"
  obtain d where d: "st_retired tr @ [?e] = d @ st_retired ?t"
    "d = [] \<or> length (st_retired tr) = MAX_RETIRED \<and> length d = 1"
    using session_retire_props(3) [OF ok act] by blast
  have sub: "set d \<subseteq> set (st_retired tr)"
  proof (cases "d = []")
    case False
    with d(2) have "take 1 (st_retired tr @ [?e]) = d" using d(1) by (metis append_eq_conv_conj)
    with d(2) False show ?thesis by (cases "st_retired tr") (auto simp: MAX_RETIRED_def)
  qed simp
  have "\<forall>x\<in>set (st_retired tr @ [?e]). \<not> session_expired now x"
    using live by (simp add: session_expired_def SESSION_RETENTION_NS_def)
  then have live': "\<forall>x\<in>set (st_retired ?t). \<not> session_expired now x" by (simp add: d(1))
  have m: "session_mark ?t now s = (case highest_in (a @ b) s of Some h \<Rightarrow> Some h | None \<Rightarrow> highest_in (st_retired ?t) s)"
    using live' session_retire_props(2) [OF ok act] by (simp add: session_mark_def session_prune_def filter_id_conv split: option.split)
  have m': "session_mark tr now s = (case highest_in (a @ b) s of Some h \<Rightarrow> Some h
      | None \<Rightarrow> highest_in (st_retired tr @ [?e]) s)"
    using ok live act
    by (auto simp: session_mark_def session_prune_def filter_id_conv session_ok_def highest_in_append
        highest_in_Cons highest_in_None [THEN iffD2] split: option.splits)
  have dist: "distinct (map se_session (st_retired tr @ [?e]))" using ok act by (auto simp: session_ok_def)
  show ?thesis
    using highest_in_dropped [OF dist d(1), of s] sub d(2) unfolding m m'
    by (auto split: option.splits)
qed

lemma session_admit_props:
  assumes ok: "session_ok tr" and adm: "session_admit tr s now force prot = (r, tr')"
  shows "session_ok tr'"
    and "r \<Longrightarrow> s \<in> sessions (st_active tr')
      \<and> session_mark tr' now' s = Some (case session_mark tr now s of None \<Rightarrow> 0 | Some h \<Rightarrow> h)"
    and "s' \<noteq> s \<Longrightarrow> session_mark tr' now s' = session_mark tr now s'
      \<or> session_mark tr' now s' = None \<and> length (st_retired tr) = MAX_RETIRED \<and> s' \<in> sessions (st_retired tr)"
    and "s' \<in> sessions (st_active tr) \<Longrightarrow> prot s' \<Longrightarrow> s' \<in> sessions (st_active tr') \<or> force"
    and "\<not> r \<longleftrightarrow> s \<notin> sessions (st_active tr) \<and> length (st_active tr) = MAX_ACTIVE
      \<and> (\<forall>e\<in>set (st_active tr). prot (se_session e)) \<and> \<not> force"
proof -
  have "session_ok tr'
    \<and> (r \<longrightarrow> s \<in> sessions (st_active tr')
        \<and> session_mark tr' now' s = Some (case session_mark tr now s of None \<Rightarrow> 0 | Some h \<Rightarrow> h))
    \<and> (s' \<noteq> s \<longrightarrow> session_mark tr' now s' = session_mark tr now s'
        \<or> session_mark tr' now s' = None \<and> length (st_retired tr) = MAX_RETIRED \<and> s' \<in> sessions (st_retired tr))
    \<and> (s' \<in> sessions (st_active tr) \<longrightarrow> prot s' \<longrightarrow> s' \<in> sessions (st_active tr') \<or> force)
    \<and> (\<not> r \<longleftrightarrow> s \<notin> sessions (st_active tr) \<and> length (st_active tr) = MAX_ACTIVE
        \<and> (\<forall>e\<in>set (st_active tr). prot (se_session e)) \<and> \<not> force)"
    using ok
  proof (cases rule: session_admit_cases [of tr s now force prot])
    case (kept a e b)
    note f = session_find_Some [OF kept(1)]
    have s: "s \<in> sessions (st_active tr)" using f by auto
    have nb: "s \<notin> sessions b" using ok f by (auto simp: session_ok_def)
    have t: "r" "tr' = (session_prune now tr)\<lparr>st_active := a @ b @ [e\<lparr>se_stamp := now\<rparr>]\<rparr>"
      using adm kept(2) by simp_all
    have mark: "session_mark tr' t k = session_mark (session_prune now tr) t k" for t k
      using f nb
      by (auto simp: t(2) session_mark_def session_prune_def highest_in_append highest_in_Cons
          highest_in_None [THEN iffD2] split: option.splits)
    have "session_mark (session_prune now tr) now' s = session_mark tr now s"
      "session_mark tr now s \<noteq> None"
      using s highest_in_None [of "st_active tr" s] by (auto simp: session_mark_def split: option.splits)
    moreover have "session_ok tr'"
      using session_ok_prune [OF ok, of now] f unfolding t(2) by (auto simp: session_ok_def session_prune_def)
    moreover have "sessions (st_active tr') = sessions (st_active tr)" using f by (auto simp: t(2))
    ultimately show ?thesis using s t(1) by (auto simp: mark)
  next
    case refused
    then have "\<not> r" "tr' = session_prune now tr" using adm by simp_all
    with refused ok show ?thesis by simp
  next
    case (added h t)
    note F = session_forget [OF ok added(3)]
    have r: "r" "tr' = t\<lparr>st_active := st_active t @ [\<lparr>se_session = s, se_highest = h, se_stamp = now\<rparr>]\<rparr>"
      using adm added(5) F(2) by simp_all
    have "s \<notin> sessions (st_active t)" "length (st_active t) < MAX_ACTIVE" using added F(2) by simp_all
    note A = session_add [OF F(1) this(1) F(3) this(2) r(2)]
    show ?thesis
      using A F added(2,4) r by auto
  next
    case (replaced h t a e b)
    note F = session_forget [OF ok replaced(3)]
    have act: "st_active t = a @ e # b" using F(2) replaced(5) by simp
    let ?u = "session_retire (a, e, b) now t"
    note R = session_retire_props [OF F(1) act, of now]
    have r: "r" "tr' = ?u\<lparr>st_active := st_active ?u @ [\<lparr>se_session = s, se_highest = h, se_stamp = now\<rparr>]\<rparr>"
      using adm replaced(7) R(2) by simp_all
    have s: "s \<notin> sessions (st_active ?u)" "length (st_active ?u) < MAX_ACTIVE"
      using replaced(1,4,5) R(2) by auto
    have "s \<notin> sessions (st_retired t @ [e\<lparr>se_stamp := now\<rparr>])" using F(3) replaced(1,5) by auto
    moreover have "set (st_retired ?u) \<subseteq> set (st_retired t @ [e\<lparr>se_stamp := now\<rparr>])"
      using R(3) by (metis Un_upper2 set_append)
    ultimately have s': "s \<notin> sessions (st_retired ?u)" by blast
    note A = session_add [OF R(1) s(1) s' s(2) r(2)]
    have "length (st_retired t) = MAX_RETIRED \<longrightarrow> length (st_retired tr) = MAX_RETIRED"
      using F(5) ok by (auto simp: session_ok_def)
    moreover have "s' \<in> sessions (st_active tr) \<longrightarrow> prot s' \<longrightarrow> s' \<in> sessions (st_active tr') \<or> force"
      using replaced(5,6) R(2) by (auto simp: r(2))
    moreover have "\<not> ((\<forall>e\<in>set (st_active tr). prot (se_session e)) \<and> \<not> force)"
      using replaced(5,6) by auto
    moreover have "s' \<noteq> s \<longrightarrow> session_mark tr' now s' = session_mark ?u now s'"
      using A(2) by simp
    moreover have "s \<in> sessions (st_active tr')" by (simp add: r(2))
    ultimately show ?thesis
      using A(1) A(2) [of now' s] replaced(2) r(1) F(4) F(7) [of s']
        session_retire_mark [OF F(1) act F(6), of s']
      by (metis (no_types, lifting) subsetD)
  qed
  then show "session_ok tr'"
    and "r \<Longrightarrow> s \<in> sessions (st_active tr')
      \<and> session_mark tr' now' s = Some (case session_mark tr now s of None \<Rightarrow> 0 | Some h \<Rightarrow> h)"
    and "s' \<noteq> s \<Longrightarrow> session_mark tr' now s' = session_mark tr now s'
      \<or> session_mark tr' now s' = None \<and> length (st_retired tr) = MAX_RETIRED \<and> s' \<in> sessions (st_retired tr)"
    and "s' \<in> sessions (st_active tr) \<Longrightarrow> prot s' \<Longrightarrow> s' \<in> sessions (st_active tr') \<or> force"
    and "\<not> r \<longleftrightarrow> s \<notin> sessions (st_active tr) \<and> length (st_active tr) = MAX_ACTIVE
      \<and> (\<forall>e\<in>set (st_active tr). prot (se_session e)) \<and> \<not> force"
    by blast+
qed

subsection \<open>The tracker as a replay guard\<close>

text \<open>What the server does with a command that is not stale: admit its session, then accept it.\<close>

definition session_keep :: "(u64 \<Rightarrow> bool) \<Rightarrow> session_tracker \<Rightarrow> u64 \<Rightarrow> u64 \<Rightarrow> u64 \<Rightarrow> session_tracker" where
  "session_keep prot tr s c now = session_accept (snd (session_admit tr s now True prot)) s c now"

lemma session_forced: "session_ok tr \<Longrightarrow> fst (session_admit tr s now True prot)"
  using session_admit_props(5) [of tr s now True prot] by (cases "session_admit tr s now True prot") auto

lemma session_accept_mark:
  assumes "session_ok tr" and "s \<in> sessions (st_active tr)" and "session_mark tr now' s = Some h"
  shows "session_mark (session_accept tr s c now) now' s = Some (max h c)"
proof -
  obtain a e b where f: "session_find (st_active tr) s = Some (a, e, b)"
    using assms(2) session_find_None [of "st_active tr" s] by (metis not_None_eq prod_cases3)
  then have "h = se_highest e" using assms(3) by (simp add: session_mark_def highest_in_def)
  then show ?thesis using session_accept_active(2) [OF assms(1) f] by simp
qed

lemma session_keep_ok: "session_ok tr \<Longrightarrow> session_ok (session_keep prot tr s c now)"
  using session_admit_props(1) [of tr s now True prot]
  by (cases "session_admit tr s now True prot") (auto simp: session_keep_def session_accept_ok)

lemma session_keep_mark:
  assumes "session_ok tr" and "\<And>h. session_mark tr now s = Some h \<Longrightarrow> h < c"
  shows "session_mark (session_keep prot tr s c now) now' s = Some c"
proof -
  obtain tr' where a: "session_admit tr s now True prot = (True, tr')"
    using session_forced [OF assms(1), of s now prot] by (cases "session_admit tr s now True prot") auto
  let ?h = "case session_mark tr now s of None \<Rightarrow> 0 | Some h \<Rightarrow> h"
  have "s \<in> sessions (st_active tr')" "session_mark tr' now' s = Some ?h" "session_ok tr'"
    using session_admit_props(1,2) [OF assms(1) a] by auto
  moreover have "max ?h c = c"
    using assms(2) by (auto simp: max_def less_imp_le split: option.splits)
  ultimately show ?thesis using session_accept_mark [of tr' s now' ?h c now] by (simp add: session_keep_def a)
qed

interpretation session_guard: replay_guard session_ok session_mark "\<lambda>a b. b < a" "\<lambda>_ _. True"
    session_stale "session_keep prot" for prot
  by unfold_locales
    (auto simp: session_stale_iff session_keep_ok session_keep_mark)

end
