(* ===== verification/Telemetry_Protocol.thy ===== *)
theory Telemetry_Protocol
  imports Proxy_Prelude
begin

text \<open>
  \<open>telemetry_protocol.h\<close>: the telemetry snapshot, its comparison, the subscription that UPS1,
  UPS2 and UPS3 datagrams renew, and the three packet formats. The counter \<open>sequence++\<close> of a
  packet is the subscription returned beside the bytes.
\<close>

record telemetry =
  tl_ready :: bool
  tl_physical :: u8
  tl_persistent :: u8
  tl_scheduled :: u8
  tl_xmin :: int
  tl_xmax :: int
  tl_ymin :: int
  tl_ymax :: int
  tl_physical_dx :: int
  tl_physical_dy :: int
  tl_accepted :: u32
  tl_completed :: u32
  tl_active :: u16
  tl_queued :: u16
  tl_generation :: u64
  tl_poll_us :: u32
  tl_physical_age_us :: u32
  tl_physical_received :: u32
  tl_physical_submitted :: u32
  tl_output_queue :: u16
  tl_synthetic_pending :: u16
  tl_superseded :: u32
  tl_writer_failures :: u32
  tl_snapshot_ns :: u64
  tl_cumulative_x :: int
  tl_cumulative_y :: int

definition same_telemetry :: "telemetry \<Rightarrow> telemetry \<Rightarrow> bool" where
  "same_telemetry a b \<longleftrightarrow> tl_ready a = tl_ready b \<and> tl_physical a = tl_physical b
     \<and> tl_persistent a = tl_persistent b \<and> tl_scheduled a = tl_scheduled b
     \<and> tl_xmin a = tl_xmin b \<and> tl_xmax a = tl_xmax b \<and> tl_ymin a = tl_ymin b \<and> tl_ymax a = tl_ymax b
     \<and> tl_physical_dx a = tl_physical_dx b \<and> tl_physical_dy a = tl_physical_dy b
     \<and> tl_accepted a = tl_accepted b \<and> tl_completed a = tl_completed b
     \<and> tl_active a = tl_active b \<and> tl_queued a = tl_queued b \<and> tl_generation a = tl_generation b
     \<and> tl_poll_us a = tl_poll_us b \<and> tl_physical_received a = tl_physical_received b
     \<and> tl_physical_submitted a = tl_physical_submitted b \<and> tl_output_queue a = tl_output_queue b
     \<and> tl_synthetic_pending a = tl_synthetic_pending b \<and> tl_superseded a = tl_superseded b
     \<and> tl_writer_failures a = tl_writer_failures b
     \<and> tl_cumulative_x a = tl_cumulative_x b \<and> tl_cumulative_y a = tl_cumulative_y b"

record subscription =
  sb_client :: u64
  sb_token :: u64
  sb_last_ns :: u64
  sb_sequence :: u32
  sb_version :: u8

definition no_subscription :: subscription where
  "no_subscription = \<lparr>sb_client = 0, sb_token = 0, sb_last_ns = 0, sb_sequence = 0, sb_version = 0\<rparr>"

definition sub_accept :: "subscription \<Rightarrow> bytes \<Rightarrow> u64 \<Rightarrow> bool \<times> subscription" where
  "sub_accept s p now =
    (if length p \<noteq> 24
        \<or> \<not> has_magic p ''UPS1'' \<and> \<not> has_magic p ''UPS2'' \<and> \<not> has_magic p ''UPS3''
        \<or> get32 p 4 \<noteq> 0 then (False, s)
     else let c = get64 p 8; t = get64 p 16
     in if c = 0 \<or> t = 0 then (False, s)
     else if c = sb_client s \<and> now - sb_last_ns s \<le> 100000000 \<and> t \<le> sb_token s then (False, s)
     else let s = (if c \<noteq> sb_client s then s\<lparr>sb_sequence := 0\<rparr> else s)
     in (True, s\<lparr>sb_client := c, sb_token := t, sb_last_ns := now, sb_version := p ! 3 - 48\<rparr>))"

definition sub_alive :: "subscription \<Rightarrow> u64 \<Rightarrow> bool" where
  "sub_alive s now \<longleftrightarrow> sb_client s \<noteq> 0 \<and> now \<ge> sb_last_ns s \<and> now - sb_last_ns s \<le> 100000000"

definition bool_byte :: "bool \<Rightarrow> u8" where
  "bool_byte b = (if b then 1 else 0)"

definition sub_next :: "subscription \<Rightarrow> subscription" where
  "sub_next s = s\<lparr>sb_sequence := sb_sequence s + 1\<rparr>"

definition packet1 :: "subscription \<Rightarrow> u64 \<Rightarrow> telemetry \<Rightarrow> bytes \<times> subscription" where
  "packet1 s server t =
    (let p = blit (replicate 56 0) 0 (ascii ''UPT1'');
         p = p[4 := bool_byte (tl_ready t), 5 := tl_physical t];
         p = put64 p 8 (sb_client s);
         p = put64 p 16 server;
         p = put64 p 24 (sb_token s);
         p = put32 p 32 (sb_sequence s);
         p = put32 p 36 (word_of_int (tl_xmin t));
         p = put32 p 40 (word_of_int (tl_xmax t));
         p = put32 p 44 (word_of_int (tl_ymin t));
         p = put32 p 48 (word_of_int (tl_ymax t))
     in (p, sub_next s))"

definition packet2 :: "subscription \<Rightarrow> u64 \<Rightarrow> telemetry \<Rightarrow> bytes \<times> subscription" where
  "packet2 s server t =
    (let p = blit (replicate 80 0) 0 (ascii ''UPT2'');
         p = p[4 := bool_byte (tl_ready t), 5 := tl_physical t];
         p = put64 p 8 (sb_client s);
         p = put64 p 16 server;
         p = put64 p 24 (sb_token s);
         p = put32 p 32 (sb_sequence s);
         p = put32 p 36 (word_of_int (tl_xmin t));
         p = put32 p 40 (word_of_int (tl_xmax t));
         p = put32 p 44 (word_of_int (tl_ymin t));
         p = put32 p 48 (word_of_int (tl_ymax t));
         p = put64 p 56 (tl_generation t);
         p = put64 p 64 (tl_snapshot_ns t);
         p = put16 p 72 (word_of_int (tl_physical_dx t));
         p = put16 p 74 (word_of_int (tl_physical_dy t));
         p = put32 p 76 (tl_physical_age_us t)
     in (p, sub_next s))"

definition packet3 :: "subscription \<Rightarrow> u64 \<Rightarrow> telemetry \<Rightarrow> bytes \<times> subscription" where
  "packet3 s server t =
    (let p = blit (replicate 128 0) 0 (ascii ''UPT3'');
         p = p[4 := bool_byte (tl_ready t), 5 := tl_physical t, 6 := tl_persistent t, 7 := tl_scheduled t];
         p = put64 p 8 (sb_client s);
         p = put64 p 16 server;
         p = put64 p 24 (sb_token s);
         p = put32 p 32 (sb_sequence s);
         p = put32 p 36 (word_of_int (tl_xmin t));
         p = put32 p 40 (word_of_int (tl_xmax t));
         p = put32 p 44 (word_of_int (tl_ymin t));
         p = put32 p 48 (word_of_int (tl_ymax t));
         p = put32 p 52 (tl_poll_us t);
         p = put64 p 56 (tl_generation t);
         p = put64 p 64 (tl_snapshot_ns t);
         p = put64 p 72 (word_of_int (tl_cumulative_x t));
         p = put64 p 80 (word_of_int (tl_cumulative_y t));
         p = put32 p 88 (tl_physical_age_us t);
         p = put32 p 92 (tl_accepted t);
         p = put32 p 96 (tl_completed t);
         p = put16 p 100 (tl_active t);
         p = put16 p 102 (tl_queued t);
         p = put32 p 104 (tl_physical_received t);
         p = put32 p 108 (tl_physical_submitted t);
         p = put16 p 112 (tl_output_queue t);
         p = put16 p 114 (tl_synthetic_pending t);
         p = put32 p 116 (tl_superseded t);
         p = put32 p 120 (tl_writer_failures t)
     in (p, sub_next s))"

subsection \<open>The packets\<close>

lemma packet_sequence [simp]:
  "snd (packet1 s v t) = sub_next s" "snd (packet2 s v t) = sub_next s" "snd (packet3 s v t) = sub_next s"
  by (simp_all add: packet1_def packet2_def packet3_def Let_def)

lemma length_packets [simp]:
  "length (fst (packet1 s v t)) = 56" "length (fst (packet2 s v t)) = 80" "length (fst (packet3 s v t)) = 128"
  by (simp_all add: packet1_def packet2_def packet3_def)

text \<open>The fields every format carries at the same place.\<close>

definition telemetry_header :: "bytes \<Rightarrow> subscription \<Rightarrow> u64 \<Rightarrow> telemetry \<Rightarrow> bool" where
  "telemetry_header p s server t \<longleftrightarrow> p ! 4 = bool_byte (tl_ready t) \<and> p ! 5 = tl_physical t
     \<and> get64 p 8 = sb_client s \<and> get64 p 16 = server \<and> get64 p 24 = sb_token s \<and> get32 p 32 = sb_sequence s
     \<and> get32 p 36 = word_of_int (tl_xmin t) \<and> get32 p 40 = word_of_int (tl_xmax t)
     \<and> get32 p 44 = word_of_int (tl_ymin t) \<and> get32 p 48 = word_of_int (tl_ymax t)"

lemma packet_headers:
  "telemetry_header (fst (packet1 s v t)) s v t" "has_magic (fst (packet1 s v t)) ''UPT1''"
  "telemetry_header (fst (packet2 s v t)) s v t" "has_magic (fst (packet2 s v t)) ''UPT2''"
  "telemetry_header (fst (packet3 s v t)) s v t" "has_magic (fst (packet3 s v t)) ''UPT3''"
  by (simp_all add: telemetry_header_def packet1_def packet2_def packet3_def wire_simps)

lemma packet2_fields:
  "let p = fst (packet2 s v t) in get64 p 56 = tl_generation t \<and> get64 p 64 = tl_snapshot_ns t
     \<and> get16 p 72 = word_of_int (tl_physical_dx t) \<and> get16 p 74 = word_of_int (tl_physical_dy t)
     \<and> get32 p 76 = tl_physical_age_us t"
  by (simp add: Let_def packet2_def wire_simps)

lemma packet3_fields:
  "let p = fst (packet3 s v t) in p ! 6 = tl_persistent t \<and> p ! 7 = tl_scheduled t
     \<and> get32 p 52 = tl_poll_us t \<and> get64 p 56 = tl_generation t \<and> get64 p 64 = tl_snapshot_ns t
     \<and> get64 p 72 = word_of_int (tl_cumulative_x t) \<and> get64 p 80 = word_of_int (tl_cumulative_y t)
     \<and> get32 p 88 = tl_physical_age_us t \<and> get32 p 92 = tl_accepted t \<and> get32 p 96 = tl_completed t
     \<and> get16 p 100 = tl_active t \<and> get16 p 102 = tl_queued t
     \<and> get32 p 104 = tl_physical_received t \<and> get32 p 108 = tl_physical_submitted t
     \<and> get16 p 112 = tl_output_queue t \<and> get16 p 114 = tl_synthetic_pending t
     \<and> get32 p 116 = tl_superseded t \<and> get32 p 120 = tl_writer_failures t"
  by (simp add: Let_def packet3_def wire_simps)

subsection \<open>The subscription\<close>

lemma sub_accept_alive:
  "sub_accept s p now = (True, s') \<Longrightarrow> now \<le> t \<Longrightarrow> t - now \<le> 100000000 \<Longrightarrow> sub_alive s' t"
  by (auto simp: sub_accept_def sub_alive_def Let_def split: if_splits)

lemma magic_version:
  "has_magic p (''UPS'' @ [c]) \<Longrightarrow> 4 \<le> length p \<Longrightarrow> p ! 3 = of_char c"
proof -
  assume "has_magic p (''UPS'' @ [c])" "4 \<le> length p"
  then have "take 4 p = ascii (''UPS'' @ [c])" by (simp add: has_magic_def eval_nat_numeral)
  then have "take 4 p ! 3 = of_char c" by (simp add: ascii_def)
  then show ?thesis by simp
qed

lemma sub_accept_version:
  assumes "sub_accept s p now = (True, s')"
  shows "sb_version s' = 1 \<and> has_magic p ''UPS1'' \<or> sb_version s' = 2 \<and> has_magic p ''UPS2''
    \<or> sb_version s' = 3 \<and> has_magic p ''UPS3''"
  using assms magic_version [of p "CHR ''1''"] magic_version [of p "CHR ''2''"] magic_version [of p "CHR ''3''"]
  by (auto simp: sub_accept_def Let_def split: if_splits)

text \<open>While the subscription lives, its client only gets on with a higher token.\<close>

lemma sub_accept_token:
  assumes "sub_accept s p now = (True, s')" and "sub_alive s now"
  shows "sb_client s' = sb_client s \<Longrightarrow> sb_token s < sb_token s' \<and> sb_sequence s' = sb_sequence s"
    and "sb_client s' \<noteq> sb_client s \<Longrightarrow> sb_sequence s' = 0"
  using assms by (auto simp: sub_accept_def sub_alive_def Let_def not_le split: if_splits)

end
