(* ===== verification/Upx_Replay.thy ===== *)
theory Upx_Replay
  imports Mouse_Protocol
begin

text \<open>
  \<open>upx_replay.h\<close>: the bounded history of UPX1 sequence numbers, one entry per peer, in the
  order of the last acceptance (oldest first). The list of the source is the HOL list; the clock
  value of each call is an argument, as in the source.
\<close>

record peer =
  pe_address :: u32
  pe_port :: u16

record upx_entry =
  ue_peer :: peer
  ue_sequence :: u32
  ue_stamp :: u64

type_synonym upx_tracker = "upx_entry list"

definition MAX_PEERS :: nat where
  "MAX_PEERS = 256"

definition RETENTION_NS :: u64 where
  "RETENTION_NS = 600000000000"

text \<open>The search runs from the back; the result is the entry with what is before and behind it.\<close>

definition upx_find :: "peer \<Rightarrow> upx_tracker \<Rightarrow> (upx_tracker \<times> upx_entry \<times> upx_tracker) option" where
  "upx_find p es =
    (case List.extract (\<lambda>e. ue_peer e = p) (rev es) of
       None \<Rightarrow> None
     | Some (behind, e, before) \<Rightarrow> Some (rev before, e, rev behind))"

definition upx_expired :: "u64 \<Rightarrow> upx_entry \<Rightarrow> bool" where
  "upx_expired now e \<longleftrightarrow> \<not> (now < ue_stamp e \<or> now - ue_stamp e \<le> RETENTION_NS)"

definition upx_prune :: "u64 \<Rightarrow> upx_tracker \<Rightarrow> upx_tracker" where
  "upx_prune now es = dropWhile (upx_expired now) es"

definition upx_stale :: "upx_tracker \<Rightarrow> peer \<Rightarrow> u32 \<Rightarrow> u64 \<Rightarrow> bool \<times> upx_tracker" where
  "upx_stale es p q now =
    (let es = upx_prune now es
     in (case upx_find p es of
           None \<Rightarrow> False
         | Some (_, e, _) \<Rightarrow> \<not> sequence_newer q (ue_sequence e), es))"

definition upx_accept :: "upx_tracker \<Rightarrow> peer \<Rightarrow> u32 \<Rightarrow> u64 \<Rightarrow> upx_tracker" where
  "upx_accept es p q now =
    (let es = upx_prune now es
     in case upx_find p es of
          Some (before, e, behind) \<Rightarrow> before @ behind @ [e\<lparr>ue_sequence := q, ue_stamp := now\<rparr>]
        | None \<Rightarrow> (if length es \<ge> MAX_PEERS then tl es else es)
            @ [\<lparr>ue_peer = p, ue_sequence = q, ue_stamp = now\<rparr>])"

subsection \<open>Lookups\<close>

definition upx_ok :: "upx_tracker \<Rightarrow> bool" where
  "upx_ok es \<longleftrightarrow> distinct (map ue_peer es) \<and> length es \<le> MAX_PEERS"

lemma upx_find_Some:
  assumes "upx_find p es = Some (a, e, b)"
  shows "es = a @ e # b" and "ue_peer e = p" and "p \<notin> ue_peer ` set b"
proof -
  have x: "List.extract (\<lambda>e. ue_peer e = p) (rev es) = Some (rev b, e, rev a)"
    using assms by (auto simp: upx_find_def split: option.splits)
  from extract_SomeE [OF x] show "es = a @ e # b" "ue_peer e = p" "p \<notin> ue_peer ` set b"
    by (auto simp: rev_swap)
qed

lemma upx_find_None: "upx_find p es = None \<longleftrightarrow> p \<notin> ue_peer ` set es"
proof (cases "upx_find p es")
  case None
  then have "List.extract (\<lambda>e. ue_peer e = p) (rev es) = None"
    by (auto simp: upx_find_def split: option.splits)
  with None show ?thesis by (auto simp: extract_None_iff)
next
  case (Some r)
  obtain a e b where "r = (a, e, b)" by (cases r)
  with Some upx_find_Some [of p es a e b] show ?thesis by auto
qed

lemma upx_find_split:
  assumes "distinct (map ue_peer es)" and "es = a @ e # b" and "ue_peer e = p"
  shows "upx_find p es = Some (a, e, b)"
proof (cases "upx_find p es")
  case None
  with assms show ?thesis by (auto simp: upx_find_None)
next
  case (Some r)
  obtain a' e' b' where r: "r = (a', e', b')" by (cases r)
  note f = upx_find_Some [OF Some [unfolded r]]
  have "p \<notin> ue_peer ` set a" "p \<notin> ue_peer ` set b" using assms by auto
  moreover have "a @ e # b = a' @ e' # b'" using f(1) assms(2) by simp
  ultimately have "a = a' \<and> e = e' \<and> b = b'"
    using f(2,3) assms(3)
    by (auto simp: append_eq_append_conv2 append_eq_Cons_conv Cons_eq_append_conv)
  with Some r show ?thesis by simp
qed

definition upx_mark :: "upx_tracker \<Rightarrow> u64 \<Rightarrow> peer \<Rightarrow> u32 option" where
  "upx_mark es now p = map_option (\<lambda>(_, e, _). ue_sequence e) (upx_find p (upx_prune now es))"

lemma upx_stale_iff: "fst (upx_stale es p q now)
    \<longleftrightarrow> (\<exists>h. upx_mark es now p = Some h \<and> \<not> sequence_newer q h)"
  by (auto simp: upx_stale_def upx_mark_def Let_def split: option.splits)

lemma upx_prune_idem [simp]: "upx_prune now (upx_prune now es) = upx_prune now es"
  by (simp add: upx_prune_def dropWhile_idem)

lemma upx_stale_mark [simp]: "upx_mark (snd (upx_stale es p q now)) now = upx_mark es now"
  by (rule ext) (simp add: upx_mark_def upx_stale_def Let_def)

lemma upx_prune_suffix: "\<exists>d. es = d @ upx_prune now es \<and> (\<forall>e\<in>set d. upx_expired now e)"
  by (rule exI [of _ "takeWhile (upx_expired now) es"]) (auto simp: upx_prune_def dest: set_takeWhileD)

lemma upx_ok_suffix: "upx_ok (d @ es) \<Longrightarrow> upx_ok es"
  by (auto simp: upx_ok_def)

lemma upx_ok_prune [simp]: "upx_ok es \<Longrightarrow> upx_ok (upx_prune now es)"
  using upx_prune_suffix [of es now] upx_ok_suffix by metis

lemma upx_ok_stale: "upx_ok es \<Longrightarrow> upx_ok (snd (upx_stale es p q now))"
  by (simp add: upx_stale_def Let_def)

lemma upx_ok_accept:
  assumes "upx_ok es"
  shows "upx_ok (upx_accept es p q now)"
proof -
  have ok: "upx_ok (upx_prune now es)" using assms by simp
  show ?thesis
  proof (cases "upx_find p (upx_prune now es)")
    case None
    then have "upx_accept es p q now
        = (if length (upx_prune now es) \<ge> MAX_PEERS then tl (upx_prune now es) else upx_prune now es)
          @ [\<lparr>ue_peer = p, ue_sequence = q, ue_stamp = now\<rparr>]"
      by (simp add: upx_accept_def Let_def)
    with ok None [unfolded upx_find_None] show ?thesis
      by (cases "upx_prune now es") (auto simp: upx_ok_def MAX_PEERS_def)
  next
    case (Some r)
    obtain a e b where r: "r = (a, e, b)" by (cases r)
    from upx_find_Some [OF Some [unfolded r]] ok Some r show ?thesis
      by (auto simp: upx_accept_def Let_def upx_ok_def)
  qed
qed

text \<open>The accepted entry is the last one.\<close>

lemma upx_accept_last:
  "\<exists>es'. upx_accept es p q now = es' @ [\<lparr>ue_peer = p, ue_sequence = q, ue_stamp = now\<rparr>]"
proof (cases "upx_find p (upx_prune now es)")
  case (Some r)
  obtain a e b where r: "r = (a, e, b)" by (cases r)
  have "e\<lparr>ue_sequence := q, ue_stamp := now\<rparr> = \<lparr>ue_peer = p, ue_sequence = q, ue_stamp = now\<rparr>"
    using upx_find_Some(2) [OF Some [unfolded r]] by (simp add: upx_entry.equality)
  with Some r show ?thesis by (auto simp: upx_accept_def Let_def)
qed (simp add: upx_accept_def Let_def)

definition upx_fresh :: "u64 \<Rightarrow> u64 \<Rightarrow> bool" where
  "upx_fresh t now \<longleftrightarrow> now < t \<or> now - t \<le> RETENTION_NS"

lemma upx_expired_fresh [simp]: "upx_expired now e \<longleftrightarrow> \<not> upx_fresh (ue_stamp e) now"
  by (simp add: upx_expired_def upx_fresh_def)

lemma upx_fresh_refl [simp]: "upx_fresh t t"
  by (simp add: upx_fresh_def RETENTION_NS_def)

lemma upx_accept_mark:
  assumes "upx_ok es" and "upx_fresh t now"
  shows "upx_mark (upx_accept es p q t) now p = Some q"
proof -
  let ?e = "\<lparr>ue_peer = p, ue_sequence = q, ue_stamp = t\<rparr>"
  obtain es' where es': "upx_accept es p q t = es' @ [?e]" using upx_accept_last by blast
  have ok: "upx_ok (es' @ [?e])" using upx_ok_accept [OF assms(1), of p q t] es' by simp
  have "upx_prune now (es' @ [?e]) = upx_prune now es' @ [?e]"
    using assms(2) by (induction es') (simp_all add: upx_prune_def)
  then have "upx_find p (upx_prune now (es' @ [?e])) = Some (upx_prune now es', ?e, [])"
    using upx_ok_prune [OF ok, of now] by (intro upx_find_split) (auto simp: upx_ok_def)
  then show ?thesis by (simp add: upx_mark_def es')
qed

subsection \<open>The tracker is a bounded least-recently-used list\<close>

text \<open>
  The specification keeps every peer ever accepted, in the order of its last acceptance. With a
  clock that does not go back, the tracker is the unexpired part of its last 256 entries.
\<close>

type_synonym upx_event = "peer \<times> u32 \<times> u64"

definition upx_touch :: "upx_event \<Rightarrow> upx_entry list \<Rightarrow> upx_entry list" where
  "upx_touch ev es = (case ev of (p, q, t) \<Rightarrow>
     filter (\<lambda>e. ue_peer e \<noteq> p) es @ [\<lparr>ue_peer = p, ue_sequence = q, ue_stamp = t\<rparr>])"

definition upx_recency :: "upx_event list \<Rightarrow> upx_entry list" where
  "upx_recency h = fold upx_touch h []"

definition upx_run :: "upx_event list \<Rightarrow> upx_tracker \<Rightarrow> upx_tracker" where
  "upx_run h es = fold (\<lambda>(p, q, t) es. upx_accept es p q t) h es"

definition last_n :: "nat \<Rightarrow> 'a list \<Rightarrow> 'a list" where
  "last_n n xs = drop (length xs - n) xs"

lemma fresh_mono: "s \<le> s' \<Longrightarrow> s' \<le> t' \<Longrightarrow> t' \<le> t \<Longrightarrow> upx_fresh s t \<Longrightarrow> upx_fresh s' t'"
proof -
  assume a: "s \<le> s'" "s' \<le> t'" "t' \<le> t" "upx_fresh s t"
  then have "t - s \<le> RETENTION_NS" "s \<le> t" by (auto simp: upx_fresh_def)
  with a(1-3) have "unat t' - unat s' \<le> unat RETENTION_NS"
    by (simp add: word_le_nat_alt unat_sub)
  with a(2) show ?thesis by (simp add: upx_fresh_def word_le_nat_alt unat_sub)
qed

definition lru_rel :: "u64 \<Rightarrow> upx_tracker \<Rightarrow> upx_entry list \<Rightarrow> bool" where
  "lru_rel t es L \<longleftrightarrow> distinct (map ue_peer L) \<and> sorted (map ue_stamp L) \<and> (\<forall>e\<in>set L. ue_stamp e \<le> t)
     \<and> (\<exists>d. last_n MAX_PEERS L = d @ es \<and> (\<forall>e\<in>set d. upx_expired t e))"

lemma dropWhile_filter:
  "sorted_wrt (\<lambda>x y. P y \<longrightarrow> P x) xs \<Longrightarrow> dropWhile P xs = filter (\<lambda>x. \<not> P x) xs"
  by (induction xs) (auto simp: filter_id_conv)

lemma lru_rel_prune:
  assumes "lru_rel t es L" and "t \<le> t'"
  shows "lru_rel t' (upx_prune t' es) L" and "upx_prune t' es = filter (\<lambda>e. upx_fresh (ue_stamp e) t') (last_n MAX_PEERS L)"
proof -
  obtain d where d: "last_n MAX_PEERS L = d @ es" "\<forall>e\<in>set d. upx_expired t e"
    and L: "distinct (map ue_peer L)" "sorted (map ue_stamp L)" "\<forall>e\<in>set L. ue_stamp e \<le> t"
    using assms(1) by (auto simp: lru_rel_def)
  have sub: "set d \<union> set es \<subseteq> set L"
    using d(1) set_drop_subset [of "length L - MAX_PEERS" L] by (auto simp: last_n_def)
  have d': "\<forall>e\<in>set d. upx_expired t' e"
  proof
    fix e assume "e \<in> set d"
    with sub L(3) have "ue_stamp e \<le> t" "\<not> upx_fresh (ue_stamp e) t" using d(2) by auto
    then show "upx_expired t' e" using fresh_mono [OF order_refl _ assms(2)] by auto
  qed
  obtain k where k: "es = k @ upx_prune t' es" "\<forall>e\<in>set k. upx_expired t' e"
    using upx_prune_suffix by blast
  have "last_n MAX_PEERS L = (d @ k) @ upx_prune t' es" using d(1) k(1) by simp
  moreover have "\<forall>e\<in>set (d @ k). upx_expired t' e" using d' k(2) by auto
  ultimately show "lru_rel t' (upx_prune t' es) L"
    using L assms(2) unfolding lru_rel_def by (meson order_trans)
  have "sorted (map ue_stamp (d @ es))"
    using L(2) d(1) by (metis last_n_def drop_map sorted_wrt_drop)
  then have "sorted_wrt (\<lambda>x y. ue_stamp x \<le> ue_stamp y) es" by (simp add: sorted_map sorted_wrt_append)
  then have "sorted_wrt (\<lambda>x y. upx_expired t' y \<longrightarrow> upx_expired t' x) es"
  proof (rule sorted_wrt_mono_rel [rotated])
    fix x y assume "x \<in> set es" "y \<in> set es" "ue_stamp x \<le> ue_stamp y"
    with sub L(3) assms(2) show "upx_expired t' y \<longrightarrow> upx_expired t' x"
      using fresh_mono [of "ue_stamp x" "ue_stamp y" t' t'] by force
  qed
  then have "upx_prune t' es = filter (\<lambda>e. \<not> upx_expired t' e) es"
    unfolding upx_prune_def by (rule dropWhile_filter)
  moreover have "filter (\<lambda>e. \<not> upx_expired t' e) (d @ es) = filter (\<lambda>e. \<not> upx_expired t' e) es"
    using d' by auto
  ultimately show "upx_prune t' es = filter (\<lambda>e. upx_fresh (ue_stamp e) t') (last_n MAX_PEERS L)"
    by (simp add: d(1))
qed

lemma filter_other: "p \<notin> ue_peer ` set xs \<Longrightarrow> filter (\<lambda>e. ue_peer e \<noteq> p) xs = xs"
  by (auto simp: filter_id_conv)

text \<open>What moving or adding one peer does to the window of the last entries.\<close>

lemma last_n_append: "length ys \<le> n \<Longrightarrow> last_n n (xs @ ys) = last_n (n - length ys) xs @ ys"
  by (simp add: last_n_def)

lemma last_n_decomp: obtains pre where "xs = pre @ last_n n xs" "pre = [] \<or> length (last_n n xs) = n"
proof
  show "xs = take (length xs - n) xs @ last_n n xs" by (simp add: last_n_def)
  show "take (length xs - n) xs = [] \<or> length (last_n n xs) = n" by (auto simp: last_n_def)
qed

lemma last_n_window: "xs = [] \<or> n \<le> length ys \<Longrightarrow> set (last_n n (xs @ ys)) \<subseteq> set ys"
  using set_drop_subset [of "length ys - n" ys] by (auto simp: last_n_def)

lemma distinct_filter_length:
  "distinct (map ue_peer d) \<Longrightarrow> length d \<le> Suc (length (filter (\<lambda>e. ue_peer e \<noteq> p) d))"
  by (induction d) (auto simp: filter_other)

lemma lru_rel_step:
  assumes rel: "lru_rel t es L" and "t \<le> t'"
  shows "lru_rel t' (upx_accept es p q t') (upx_touch (p, q, t') L)"
proof -
  let ?n = "\<lparr>ue_peer = p, ue_sequence = q, ue_stamp = t'\<rparr>" and ?P = "\<lambda>e. ue_peer e \<noteq> p"
  let ?es = "upx_prune t' es"
  have rel': "lru_rel t' ?es L" by (rule lru_rel_prune(1) [OF assms])
  then obtain d where d: "last_n MAX_PEERS L = d @ ?es" "\<forall>e\<in>set d. upx_expired t' e"
    and L: "distinct (map ue_peer L)" "sorted (map ue_stamp L)" "\<forall>e\<in>set L. ue_stamp e \<le> t'"
    by (auto simp: lru_rel_def)
  obtain pre where pre: "L = pre @ d @ ?es" "pre = [] \<or> length (d @ ?es) = MAX_PEERS"
    using last_n_decomp [of L MAX_PEERS] d(1) by metis
  have len: "length (d @ ?es) \<le> MAX_PEERS" using d(1) by (auto simp: last_n_def simp flip: d(1))
  have touched: "upx_touch (p, q, t') L = filter ?P L @ [?n]" by (simp add: upx_touch_def)
  have base: "distinct (map ue_peer (filter ?P L @ [?n]))" "sorted (map ue_stamp (filter ?P L @ [?n]))"
    "\<forall>e\<in>set (filter ?P L @ [?n]). ue_stamp e \<le> t'"
    using L by (auto simp: sorted_append distinct_map_filter sorted_filter)
  have "\<exists>d'. last_n MAX_PEERS (filter ?P L @ [?n]) = d' @ upx_accept es p q t' \<and> set d' \<subseteq> set d"
  proof (cases "upx_find p ?es")
    case (Some r)
    obtain a e b where r: "r = (a, e, b)" by (cases r)
    note f = upx_find_Some [OF Some [unfolded r]]
    have acc: "upx_accept es p q t' = a @ b @ [?n]"
      using Some r f(2) by (simp add: upx_accept_def Let_def upx_entry.equality)
    have "distinct (map ue_peer (pre @ d @ a @ e # b))" using L(1) pre(1) f(1) by simp
    then have out: "p \<notin> ue_peer ` set pre" "p \<notin> ue_peer ` set d" "p \<notin> ue_peer ` set a" "p \<notin> ue_peer ` set b"
      using f(2) by auto
    have "filter ?P L = pre @ d @ a @ b"
      using out f by (subst pre(1)) (simp add: filter_other)
    moreover have "last_n MAX_PEERS (pre @ d @ a @ b @ [?n]) = d @ a @ b @ [?n]"
      using pre(2) len f(1) by (auto simp: last_n_def)
    ultimately show ?thesis by (auto simp: acc)
  next
    case None
    then have out: "p \<notin> ue_peer ` set ?es" by (simp add: upx_find_None)
    have acc: "upx_accept es p q t' = (if length ?es \<ge> MAX_PEERS then tl ?es else ?es) @ [?n]"
      using None by (simp add: upx_accept_def Let_def)
    have fl: "filter ?P L = filter ?P pre @ filter ?P d @ ?es"
      using out by (subst pre(1)) (simp add: filter_other)
    show ?thesis
    proof (cases "length ?es \<ge> MAX_PEERS")
      case True
      have l: "length d + length ?es \<le> MAX_PEERS" using len by simp
      with True have "length d = 0" by linarith
      with l True have "d = []" "length ?es = MAX_PEERS" by simp_all
      with fl True acc show ?thesis by (auto simp: last_n_def MAX_PEERS_def drop_Suc)
    next
      case False
      have "last_n MAX_PEERS (filter ?P L @ [?n]) = last_n (MAX_PEERS - length (?es @ [?n])) (filter ?P pre @ filter ?P d) @ ?es @ [?n]"
        using False by (simp add: fl last_n_append flip: append_assoc)
      moreover have "set (last_n (MAX_PEERS - length (?es @ [?n])) (filter ?P pre @ filter ?P d)) \<subseteq> set (filter ?P d)"
      proof (rule last_n_window)
        show "filter ?P pre = [] \<or> MAX_PEERS - length (?es @ [?n]) \<le> length (filter ?P d)"
          using pre(2) distinct_filter_length [of d p] L(1) pre(1) by auto
      qed
      moreover have "set (filter ?P d) \<subseteq> set d" by auto
      ultimately show ?thesis using False acc by auto
    qed
  qed
  then obtain d' where "last_n MAX_PEERS (filter ?P L @ [?n]) = d' @ upx_accept es p q t'" "set d' \<subseteq> set d"
    by blast
  with base d(2) show ?thesis unfolding touched lru_rel_def by blast
qed

lemma lru_rel_run:
  assumes "lru_rel t es L" and "sorted (t # map (\<lambda>(p, q, t). t) h)"
    and "\<forall>(p, q, u)\<in>set h. u \<le> now" and "t \<le> now"
  shows "\<exists>u\<le>now. lru_rel u (upx_run h es) (fold upx_touch h L)"
  using assms
proof (induction h arbitrary: t es L)
  case Nil
  then show ?case by (auto simp: upx_run_def)
next
  case (Cons ev h)
  obtain p q u where ev: "ev = (p, q, u)" by (cases ev)
  with Cons.prems have u: "t \<le> u" "u \<le> now" by auto
  have "lru_rel u (upx_accept es p q u) (upx_touch ev L)"
    unfolding ev by (rule lru_rel_step [OF Cons.prems(1) u(1)])
  then have "\<exists>u'\<le>now. lru_rel u' (upx_run h (upx_accept es p q u)) (fold upx_touch h (upx_touch ev L))"
    using Cons.prems ev u(2) by (intro Cons.IH [of u]) auto
  then show ?case by (simp add: upx_run_def ev)
qed

lemma lru_rel_empty: "lru_rel t [] []"
  by (simp add: lru_rel_def last_n_def)

lemma upx_run_lru:
  assumes "sorted (map (\<lambda>(p, q, t). t) h)" and "\<forall>(p, q, t)\<in>set h. t \<le> now"
  shows "upx_prune now (upx_run h [])
    = filter (\<lambda>e. upx_fresh (ue_stamp e) now) (last_n MAX_PEERS (upx_recency h))"
proof -
  have "sorted (0 # map (\<lambda>(p, q, t). t) h)" using assms(1) by simp
  then obtain u where u: "u \<le> now" "lru_rel u (upx_run h []) (upx_recency h)"
    using lru_rel_run [OF lru_rel_empty [of 0] _ assms(2)] by (auto simp: upx_recency_def)
  show ?thesis by (rule lru_rel_prune(2) [OF u(2,1)])
qed

lemma upx_run_ok: "upx_ok es \<Longrightarrow> upx_ok (upx_run h es)"
  by (induction h arbitrary: es) (auto simp: upx_run_def upx_ok_accept split: prod.splits)

lemma upx_run_snoc: "upx_run (h @ [(p, q, t)]) es = upx_accept (upx_run h es) p q t"
  by (simp add: upx_run_def)

interpretation upx_guard: replay_guard upx_ok upx_mark sequence_newer upx_fresh upx_stale upx_accept
proof unfold_locales
  show "upx_ok es \<Longrightarrow> (\<And>h. upx_mark es t k = Some h \<Longrightarrow> sequence_newer v h) \<Longrightarrow> upx_fresh t t'
      \<Longrightarrow> upx_mark (upx_accept es k v t) t' k = Some v" for es t k v t'
    by (rule upx_accept_mark)
qed (auto simp: upx_stale_iff upx_ok_stale upx_ok_accept dest: sequence_newer_asym)

end
