(* ===== verification/Udp_Server.thy ===== *)
theory Udp_Server
  imports Click_Protocol Move_Executor Session_Tracker Telemetry_Protocol Upx_Replay
begin

text \<open>
  \<open>udp_server.cpp\<close>: the server thread. Its locals are the record \<open>server\<close>; the lambdas and the
  handlers of the datagram loop are its state transformers, in the order of the source. The
  mixer, shared with the USB threads, is the field \<open>sv_mixer\<close>; datagrams sent are appended to
  \<open>sv_out\<close>. One clock reading \<open>now\<close> stands for the readings inside one handler.
\<close>

definition MAX_CLICK_COMMANDS :: nat where
  "MAX_CLICK_COMMANDS = 64"

definition MAX_CACHE_RECORDS :: nat where
  "MAX_CACHE_RECORDS = 256"

type_synonym key = "u64 \<times> u64"

record cached_command =
  cc_key :: key
  cc_request :: click_request
  cc_button :: u8
  cc_accepted :: u32
  cc_completed :: u32
  cc_status :: click_status
  cc_terminal :: bool
  cc_peer :: peer
  cc_movement :: bool
  cc_move_request :: move_request
  cc_move_ack :: move_ack

datatype click_phase = CP_AwaitPress | CP_PressInflight | CP_Holding | CP_AwaitRelease | CP_ReleaseInflight

record click_work =
  ck_key :: key
  ck_button :: u8
  ck_count :: u32
  ck_press_us :: u32
  ck_interval_us :: u32
  ck_index :: u32
  ck_press_written :: u64
  ck_due :: u64
  ck_phase :: click_phase
  ck_version :: u8
  ck_blocked :: bool
  ck_binary :: bool

definition no_click_request :: click_request where
  "no_click_request = \<lparr>cr_operation = CO_Schedule, cr_button = 0, cr_session = 0, cr_command = 0,
     cr_count = 0, cr_press_us = 0, cr_interval_us = 0, cr_version = VERSION1\<rparr>"

definition no_work :: click_work where
  "no_work = \<lparr>ck_key = (0, 0), ck_button = 0, ck_count = 0, ck_press_us = 0, ck_interval_us = 0,
     ck_index = 0, ck_press_written = 0, ck_due = 0, ck_phase = CP_AwaitPress, ck_version = VERSION1,
     ck_blocked = False, ck_binary = False\<rparr>"

definition same_request :: "click_request \<Rightarrow> click_request \<Rightarrow> bool" where
  "same_request a b \<longleftrightarrow> cr_version a = cr_version b \<and> cr_operation a = cr_operation b
     \<and> cr_button a = cr_button b \<and> cr_count a = cr_count b
     \<and> cr_press_us a = cr_press_us b \<and> cr_interval_us a = cr_interval_us b"

record server =
  sv_epoch :: u64
  sv_persistent :: u8
  sv_scheduled :: u8
  sv_tracked :: u64
  sv_owner :: peer
  sv_owned :: bool
  sv_last :: u64
  sv_cache :: "cached_command list"
  sv_work :: "click_work list"
  sv_mover :: mover
  sv_sessions :: session_tracker
  sv_accepted :: u64
  sv_completed :: u64
  sv_replay :: upx_tracker
  sv_release_pending :: bool
  sv_release_inflight :: bool
  sv_release_key :: key
  sv_subscription :: subscription
  sv_telemetry :: telemetry
  sv_subscriber :: peer
  sv_last_telemetry :: u64
  sv_mixer :: mixer
  sv_out :: "(peer \<times> bytes) list"

definition no_telemetry :: telemetry where
  "no_telemetry = \<lparr>tl_ready = False, tl_physical = 0, tl_persistent = 0, tl_scheduled = 0, tl_xmin = 0,
     tl_xmax = 0, tl_ymin = 0, tl_ymax = 0, tl_physical_dx = 0, tl_physical_dy = 0, tl_accepted = 0,
     tl_completed = 0, tl_active = 0, tl_queued = 0, tl_generation = 0, tl_poll_us = 0,
     tl_physical_age_us = 0xffffffff, tl_physical_received = 0, tl_physical_submitted = 0,
     tl_output_queue = 0, tl_synthetic_pending = 0, tl_superseded = 0, tl_writer_failures = 0,
     tl_snapshot_ns = 0, tl_cumulative_x = 0, tl_cumulative_y = 0\<rparr>"

text \<open>The state on entry to \<open>server_loop\<close>: the drawn epoch, the time and the shared mixer.\<close>

definition server_init :: "u64 \<Rightarrow> u64 \<Rightarrow> mixer \<Rightarrow> server" where
  "server_init epoch now mx =
    \<lparr>sv_epoch = (if epoch \<noteq> 0 then epoch else 1), sv_persistent = 0, sv_scheduled = 0, sv_tracked = 0,
     sv_owner = \<lparr>pe_address = 0, pe_port = 0\<rparr>, sv_owned = False, sv_last = now, sv_cache = [],
     sv_work = [], sv_mover = no_mover, sv_sessions = no_sessions, sv_accepted = 0, sv_completed = 0,
     sv_replay = [], sv_release_pending = False, sv_release_inflight = False, sv_release_key = (0, 0),
     sv_subscription = no_subscription, sv_telemetry = no_telemetry,
     sv_subscriber = \<lparr>pe_address = 0, pe_port = 0\<rparr>, sv_last_telemetry = 0, sv_mixer = mx, sv_out = []\<rparr>"

subsection \<open>Replies\<close>

definition saturate :: "u64 \<Rightarrow> u32" where
  "saturate v = ucast (min v 0xffffffff)"

definition depth :: "server \<Rightarrow> u16" where
  "depth sv = of_nat (min 65535 (length (sv_work sv) + (if sv_release_pending sv then 1 else 0)))"

definition find_cache :: "key \<Rightarrow> server \<Rightarrow> cached_command option" where
  "find_cache k sv = find (\<lambda>c. cc_key c = k) (sv_cache sv)"

fun update_first :: "('a \<Rightarrow> bool) \<Rightarrow> ('a \<Rightarrow> 'a) \<Rightarrow> 'a list \<Rightarrow> 'a list" where
  "update_first P f [] = []"
| "update_first P f (x # xs) = (if P x then f x # xs else x # update_first P f xs)"

text \<open>Writing through the pointer \<open>find_cache\<close> returned.\<close>

definition update_cache :: "key \<Rightarrow> (cached_command \<Rightarrow> cached_command) \<Rightarrow> server \<Rightarrow> server" where
  "update_cache k f sv = sv\<lparr>sv_cache := update_first (\<lambda>c. cc_key c = k) f (sv_cache sv)\<rparr>"

definition send_packet :: "peer \<Rightarrow> bytes \<Rightarrow> server \<Rightarrow> server" where
  "send_packet p bs sv = sv\<lparr>sv_out := sv_out sv @ [(p, bs)]\<rparr>"

definition reply :: "peer \<Rightarrow> string \<Rightarrow> server \<Rightarrow> server" where
  "reply p s = send_packet p (ascii s)"

definition send_ack :: "peer \<Rightarrow> key \<Rightarrow> u8 \<Rightarrow> click_status \<Rightarrow> u32 \<Rightarrow> u32 \<Rightarrow> u8 \<Rightarrow> server \<Rightarrow> server" where
  "send_ack p k button st accepted completed version sv =
     send_packet p (click_ack_packet \<lparr>ca_status = st, ca_button = button, ca_session = fst k,
       ca_command = snd k, ca_server_epoch = sv_epoch sv, ca_accepted = accepted,
       ca_completed = completed, ca_queue_depth = depth sv, ca_version = version\<rparr>) sv"

definition send_cached :: "cached_command \<Rightarrow> click_status \<Rightarrow> server \<Rightarrow> server" where
  "send_cached c st sv =
    (if cc_movement c then send_packet (cc_peer c) (move_ack_packet (cc_move_ack c)) sv
     else send_ack (cc_peer c) (cc_key c) (cc_button c) st (cc_accepted c) (cc_completed c)
            (cr_version (cc_request c)) sv)"

definition make_terminal :: "key \<Rightarrow> click_status \<Rightarrow> server \<Rightarrow> server" where
  "make_terminal k st sv =
    (case find_cache k sv of
       None \<Rightarrow> sv
     | Some c \<Rightarrow> send_cached (c\<lparr>cc_status := st, cc_terminal := True\<rparr>) st
         (update_cache k (\<lambda>c. c\<lparr>cc_status := st, cc_terminal := True\<rparr>) sv))"

definition sync_move :: "server \<Rightarrow> server" where
  "sync_move sv =
    (let a = mv_ack (sv_mover sv); k = (ma_session a, ma_command a) in
     if ma_session a = 0 then sv
     else case find_cache k sv of
       None \<Rightarrow> sv
     | Some c \<Rightarrow>
         (let f = (\<lambda>c. c\<lparr>cc_move_ack := a, cc_terminal := terminal (ma_status a)\<rparr>);
              sv = update_cache k f sv
          in if move_ack_packet (cc_move_ack c) \<noteq> move_ack_packet a then send_cached (f c) (cc_status c) sv
             else sv))"

fun cancel_clicks :: "click_work list \<Rightarrow> server \<Rightarrow> server" where
  "cancel_clicks [] sv = sv"
| "cancel_clicks (w # ws) sv =
    cancel_clicks ws (let sv = sv\<lparr>sv_work := ws\<rparr>
      in if ck_binary w then make_terminal (ck_key w) CS_Cancelled sv else sv)"

definition cancel_work :: "server \<Rightarrow> server" where
  "cancel_work sv = (cancel_clicks (sv_work sv) sv)\<lparr>sv_scheduled := 0\<rparr>"

definition stop_mover :: "u64 \<Rightarrow> server \<Rightarrow> server" where
  "stop_mover now sv = sync_move (sv\<lparr>sv_mover := mover_stop MS_Cancelled now (sv_mover sv)\<rparr>)"

definition begin_reset :: "bool \<Rightarrow> key \<Rightarrow> u64 \<Rightarrow> server \<Rightarrow> server" where
  "begin_reset attach k now sv =
    (let sv = stop_mover now sv;
         sv = (if attach \<and> fst (sv_release_key sv) \<noteq> 0 \<and> sv_release_key sv \<noteq> k
               then make_terminal (sv_release_key sv) CS_Cancelled sv else sv);
         sv = stop_mover now sv;
         sv = (cancel_work sv)\<lparr>sv_persistent := 0, sv_scheduled := 0\<rparr>;
         (cleared, mx) = clear_synthetic_state now (sv_mixer sv);
         sv = sv\<lparr>sv_mixer := mx, sv_tracked := es_generation cleared,
                 sv_release_inflight := False, sv_release_pending := True\<rparr>
     in if attach then sv\<lparr>sv_release_key := k\<rparr> else sv)"

text \<open>\<open>begin_reset(false,{})\<close>, mostly followed by giving up the owner.\<close>

definition reset_all :: "u64 \<Rightarrow> server \<Rightarrow> server" where
  "reset_all now = begin_reset False (0, 0) now"

definition drop_owner :: "server \<Rightarrow> server" where
  "drop_owner sv = sv\<lparr>sv_owned := False\<rparr>"

definition set_owner :: "peer \<Rightarrow> u64 \<Rightarrow> server \<Rightarrow> server" where
  "set_owner p now sv = sv\<lparr>sv_owner := p, sv_owned := True, sv_last := now\<rparr>"

subsection \<open>The command cache\<close>

fun evict_terminal :: "nat \<Rightarrow> cached_command list \<Rightarrow> cached_command list" where
  "evict_terminal 0 cs = cs"
| "evict_terminal (Suc n) cs =
    (if length cs < MAX_CACHE_RECORDS then cs
     else case List.extract cc_terminal cs of
       None \<Rightarrow> cs
     | Some (a, _, b) \<Rightarrow> evict_terminal n (a @ b))"

text \<open>Each round of the loop removes an entry, so as many rounds as entries are enough.\<close>

definition remove_old_cache :: "server \<Rightarrow> server" where
  "remove_old_cache sv = sv\<lparr>sv_cache := evict_terminal (length (sv_cache sv)) (sv_cache sv)\<rparr>"

definition cache_full :: "server \<Rightarrow> bool" where
  "cache_full sv \<longleftrightarrow> length (sv_cache sv) \<ge> MAX_CACHE_RECORDS"

definition accept_record :: "click_request \<Rightarrow> peer \<Rightarrow> u32 \<Rightarrow> server \<Rightarrow> cached_command option \<times> server" where
  "accept_record r from accepted sv =
    (let sv = remove_old_cache sv in
     if cache_full sv then (None, sv)
     else let c = \<lparr>cc_key = (cr_session r, cr_command r), cc_request = r, cc_button = cr_button r,
            cc_accepted = accepted, cc_completed = 0, cc_status = CS_Accepted, cc_terminal = False,
            cc_peer = from, cc_movement = False, cc_move_request = no_request, cc_move_ack = no_ack\<rparr>
     in (Some c, sv\<lparr>sv_cache := sv_cache sv @ [c]\<rparr>))"

definition session_protected :: "server \<Rightarrow> u64 \<Rightarrow> bool" where
  "session_protected sv s = list_ex (\<lambda>c. fst (cc_key c) = s \<and> \<not> cc_terminal c) (sv_cache sv)"

definition finish_front :: "click_status \<Rightarrow> server \<Rightarrow> server" where
  "finish_front st sv =
    (case sv_work sv of [] \<Rightarrow> sv
     | w # ws \<Rightarrow>
         (let sv = sv\<lparr>sv_work := ws, sv_scheduled := 0\<rparr>
          in if ck_binary w then make_terminal (ck_key w) st sv else sv))"

subsection \<open>The click scheduler\<close>

definition button_bit :: "u8 \<Rightarrow> u8" where
  "button_bit b = push_bit (unat b - 1) 1"

definition server_enqueue ::
    "mouse_command \<Rightarrow> u8 \<Rightarrow> u8 \<Rightarrow> report_kind \<Rightarrow> bool \<Rightarrow> key \<Rightarrow> u32 \<Rightarrow> u8 \<Rightarrow> u64 \<Rightarrow> server
     \<Rightarrow> enqueue_result \<times> server" where
  "server_enqueue c persistent scheduled kind latest k index button now sv =
    (let (r, mx) = enqueue_report c persistent scheduled kind latest (fst k) (snd k) index button
           UINT64_MAX 0 now (sv_mixer sv)
     in (r, sv\<lparr>sv_mixer := mx\<rparr>))"

definition front_work :: "(click_work \<Rightarrow> click_work) \<Rightarrow> server \<Rightarrow> server" where
  "front_work f sv = sv\<lparr>sv_work := (case sv_work sv of [] \<Rightarrow> [] | w # ws \<Rightarrow> f w # ws)\<rparr>"

definition release_tick :: "u64 \<Rightarrow> server \<Rightarrow> server" where
  "release_tick now sv =
    (if sv_release_pending sv \<and> \<not> sv_release_inflight sv
     then let (r, sv) = server_enqueue no_command 0 0 RK_ReleaseAll False (sv_release_key sv) 0 0 now sv
          in if r = ER_Ok then sv\<lparr>sv_release_inflight := True\<rparr> else sv
     else sv)"

definition press_tick :: "u64 \<Rightarrow> click_work \<Rightarrow> server \<Rightarrow> server" where
  "press_tick now w sv =
    (let s = endpoint_snapshot now (sv_mixer sv); bit = button_bit (ck_button w) in
     if \<not> es_ready s \<or> es_generation s \<noteq> sv_tracked sv then reset_all now sv
     else if ((es_physical s OR sv_persistent sv OR sv_scheduled sv) AND bit) \<noteq> 0
       then finish_front CS_ButtonActive sv
     else let next = sv_scheduled sv OR bit;
              (r, sv) = server_enqueue no_command (sv_persistent sv) next RK_ClickPress False
                          (ck_key w) (ck_index w) (ck_button w) now sv
     in case r of
          ER_Ok \<Rightarrow> front_work (\<lambda>w. w\<lparr>ck_phase := CP_PressInflight\<rparr>) (sv\<lparr>sv_scheduled := next\<rparr>)
        | ER_Unsupported \<Rightarrow> reset_all now sv
        | _ \<Rightarrow> sv)"

definition unpress_tick :: "u64 \<Rightarrow> click_work \<Rightarrow> server \<Rightarrow> server" where
  "unpress_tick now w sv =
    (let next = sv_scheduled sv AND NOT (button_bit (ck_button w));
         (r, sv) = server_enqueue no_command (sv_persistent sv) next RK_ClickRelease False
                     (ck_key w) (ck_index w) (ck_button w) now sv
     in case r of
          ER_Ok \<Rightarrow> front_work (\<lambda>w. w\<lparr>ck_phase := CP_ReleaseInflight\<rparr>) (sv\<lparr>sv_scheduled := next\<rparr>)
        | ER_Unsupported \<Rightarrow> reset_all now sv
        | _ \<Rightarrow> front_work (\<lambda>w. w\<lparr>ck_phase := CP_AwaitRelease\<rparr>) sv)"

definition scheduler_tick :: "u64 \<Rightarrow> server \<Rightarrow> server" where
  "scheduler_tick now sv =
    (let sv = release_tick now sv in
     if sv_release_pending sv then sv
     else case sv_work sv of
       [] \<Rightarrow> sv
     | w # _ \<Rightarrow>
         if ck_phase w = CP_AwaitPress \<and> now \<ge> ck_due w then press_tick now w sv
         else if (ck_phase w = CP_Holding \<or> ck_phase w = CP_AwaitRelease) \<and> now \<ge> ck_due w
           then unpress_tick now w sv
         else sv)"

subsection \<open>Writer events\<close>

definition after :: "u64 \<Rightarrow> u32 \<Rightarrow> u64" where
  "after base delay_us =
    (let delay = us delay_us in if base > UINT64_MAX - delay then UINT64_MAX else base + delay)"

definition press_written :: "writer_event \<Rightarrow> click_work \<Rightarrow> click_work" where
  "press_written e w =
    w\<lparr>ck_press_written := we_written_ns e, ck_blocked := we_blocked e,
      ck_due := after (we_written_ns e) (if we_blocked e then 0 else ck_press_us w),
      ck_phase := (if we_blocked e then CP_AwaitRelease else CP_Holding)\<rparr>"

definition release_written :: "writer_event \<Rightarrow> click_work \<Rightarrow> server \<Rightarrow> server" where
  "release_written e w sv =
    (if ck_blocked w \<or> (we_final_buttons e AND button_bit (ck_button w)) \<noteq> 0
     then finish_front CS_ButtonActive sv
     else let w = w\<lparr>ck_index := ck_index w + 1\<rparr>;
              sv = (front_work (\<lambda>_. w) sv)\<lparr>sv_completed := sv_completed sv + 1\<rparr>;
              sv = update_cache (ck_key w) (\<lambda>c. c\<lparr>cc_completed := ck_index w\<rparr>) sv
     in if ck_index w \<ge> ck_count w then finish_front CS_Completed sv
        else let base = (if ck_version w = VERSION2 then we_written_ns e else ck_press_written w)
        in front_work (\<lambda>w. w\<lparr>ck_phase := CP_AwaitPress, ck_blocked := False,
                              ck_due := after base (ck_interval_us w)\<rparr>) sv)"

definition release_completed :: "writer_event \<Rightarrow> server \<Rightarrow> bool" where
  "release_completed e sv \<longleftrightarrow> we_kind e = RK_ReleaseAll \<and> sv_release_inflight sv
     \<and> we_session e = fst (sv_release_key sv) \<and> we_command e = snd (sv_release_key sv)"

definition process_event :: "u64 \<Rightarrow> writer_event \<Rightarrow> server \<Rightarrow> server" where
  "process_event now e sv =
    (let sv = sync_move (sv\<lparr>sv_mover := mover_event e (sv_mover sv)\<rparr>) in
     if \<not> we_success e then drop_owner (reset_all now sv)
     else if release_completed e sv then
       (let sv = sv\<lparr>sv_release_inflight := False, sv_release_pending := False\<rparr>;
            sv = (if fst (sv_release_key sv) \<noteq> 0 then make_terminal (sv_release_key sv) CS_Completed sv else sv)
        in sv\<lparr>sv_release_key := (0, 0)\<rparr>)
     else case sv_work sv of
       [] \<Rightarrow> sv
     | w # _ \<Rightarrow>
         if we_session e \<noteq> fst (ck_key w) \<or> we_command e \<noteq> snd (ck_key w) \<or> we_index e \<noteq> ck_index w then sv
         else if we_kind e = RK_ClickPress \<and> ck_phase w = CP_PressInflight
           then front_work (press_written e) sv
         else if we_kind e = RK_ClickRelease \<and> ck_phase w = CP_ReleaseInflight
           then release_written e w sv
         else sv)"

definition process_writer_events :: "u64 \<Rightarrow> server \<Rightarrow> server" where
  "process_writer_events now sv =
    (let (events, mx) = take_writer_events (sv_mixer sv)
     in fold (process_event now) events (sv\<lparr>sv_mixer := mx\<rparr>))"

subsection \<open>The head of the loop\<close>

definition generation_check :: "u64 \<Rightarrow> server \<Rightarrow> server" where
  "generation_check now sv =
    (let s = endpoint_snapshot now (sv_mixer sv);
         sv = (if sv_tracked sv = 0 \<and> es_ready s then sv\<lparr>sv_tracked := es_generation s\<rparr> else sv)
     in if sv_tracked sv \<noteq> 0 \<and> es_generation s \<noteq> sv_tracked sv
        then let sv = drop_owner (reset_all now sv)
             in sv\<lparr>sv_tracked := es_generation (endpoint_snapshot now (sv_mixer sv))\<rparr>
        else sv)"

definition overflow_check :: "u64 \<Rightarrow> server \<Rightarrow> server" where
  "overflow_check now sv =
    (let (over, mx) = take_writer_overflow (sv_mixer sv); sv = sv\<lparr>sv_mixer := mx\<rparr>
     in if over then drop_owner (reset_all now sv) else sv)"

definition watchdog :: "u64 \<Rightarrow> server \<Rightarrow> server" where
  "watchdog now sv =
    (if sv_owned sv \<and> now \<ge> sv_last sv \<and> now - sv_last sv > 250000000
     then drop_owner (reset_all now sv) else sv)"

definition mover_step :: "u64 \<Rightarrow> server \<Rightarrow> server" where
  "mover_step now sv =
    (let (reset, m, mx) = mover_tick (endpoint_snapshot now (sv_mixer sv)) now (sv_mover sv) (sv_mixer sv);
         sv = sv\<lparr>sv_mover := m, sv_mixer := mx\<rparr>;
         sv = (if reset then reset_all now (sync_move sv) else sv)
     in sync_move sv)"

definition telemetry_of :: "snapshot \<Rightarrow> server \<Rightarrow> telemetry" where
  "telemetry_of e sv =
    \<lparr>tl_ready = es_ready e, tl_physical = es_physical e, tl_persistent = es_persistent e,
     tl_scheduled = es_scheduled e, tl_xmin = es_xmin e, tl_xmax = es_xmax e, tl_ymin = es_ymin e,
     tl_ymax = es_ymax e, tl_physical_dx = es_physical_dx e, tl_physical_dy = es_physical_dy e,
     tl_accepted = saturate (sv_accepted sv), tl_completed = saturate (sv_completed sv),
     tl_active = (if sv_work sv = [] then 0 else 1),
     tl_queued = (if length (sv_work sv) > 1 then of_nat (min 65535 (length (sv_work sv) - 1)) else 0),
     tl_generation = es_generation e, tl_poll_us = es_poll_us e,
     tl_physical_age_us = es_physical_age_us e, tl_physical_received = es_physical_received e,
     tl_physical_submitted = es_physical_submitted e, tl_output_queue = es_output_queue e,
     tl_synthetic_pending = es_synthetic_pending e, tl_superseded = es_superseded e,
     tl_writer_failures = es_writer_failures e, tl_snapshot_ns = es_snapshot_ns e,
     tl_cumulative_x = es_cumulative_x e, tl_cumulative_y = es_cumulative_y e\<rparr>"

definition telemetry_tick :: "u64 \<Rightarrow> server \<Rightarrow> server" where
  "telemetry_tick now sv =
    (let sub = sv_subscription sv in
     if \<not> sub_alive sub now then sv
     else let t = telemetry_of (endpoint_snapshot now (sv_mixer sv)) sv
     in if same_telemetry t (sv_telemetry sv) \<and> \<not> now - sv_last_telemetry sv \<ge> 10000000 then sv
     else let (p, sub) = (if sb_version sub = 1 then packet1 sub (sv_epoch sv) t
                          else if sb_version sub = 2 then packet2 sub (sv_epoch sv) t
                          else packet3 sub (sv_epoch sv) t)
     in (send_packet (sv_subscriber sv) p sv)
          \<lparr>sv_subscription := sub, sv_telemetry := t, sv_last_telemetry := now\<rparr>)"

definition loop_head :: "u64 \<Rightarrow> server \<Rightarrow> server" where
  "loop_head now sv = telemetry_tick now (scheduler_tick now (mover_step now (watchdog now
     (overflow_check now (process_writer_events now (generation_check now sv))))))"

subsection \<open>Subscriptions and queries\<close>

definition handle_subscribe :: "u64 \<Rightarrow> peer \<Rightarrow> bytes \<Rightarrow> server \<Rightarrow> server" where
  "handle_subscribe now from data sv =
    (if sub_alive (sv_subscription sv) now \<and> sv_subscriber sv \<noteq> from then reply from ''busy'' sv
     else let (ok, sub) = sub_accept (sv_subscription sv) data now; sv = sv\<lparr>sv_subscription := sub\<rparr>
     in if ok then sv\<lparr>sv_subscriber := from, sv_last_telemetry := 0\<rparr> else sv)"

definition handle_query :: "u64 \<Rightarrow> peer \<Rightarrow> bytes \<Rightarrow> server \<Rightarrow> server" where
  "handle_query now from data sv =
    (case parse_query data of
       None \<Rightarrow> sv
     | Some (session, token) \<Rightarrow>
         (let e = endpoint_snapshot now (sv_mixer sv)
          in send_packet from (capabilities_packet \<lparr>mc_ready = es_ready e, mc_buttons = es_supported e,
               mc_session = session, mc_token = token, mc_epoch = sv_epoch sv,
               mc_generation = es_generation e, mc_layout = es_layout e, mc_poll_us = es_poll_us e,
               mc_max_segments = 32, mc_xmin = es_xmin e, mc_xmax = es_xmax e, mc_ymin = es_ymin e,
               mc_ymax = es_ymax e\<rparr>) sv))"

subsection \<open>Move transactions\<close>

definition reject_move :: "u64 \<Rightarrow> peer \<Rightarrow> move_request \<Rightarrow> move_status \<Rightarrow> server \<Rightarrow> server" where
  "reject_move now from r st sv =
    send_packet from (move_ack_packet (no_ack\<lparr>ma_session := mr_session r, ma_command := mr_command r,
      ma_epoch := sv_epoch sv, ma_generation := es_generation (endpoint_snapshot now (sv_mixer sv)),
      ma_status := st\<rparr>)) sv"

text \<open>The lambda \<open>segments\<close>: how many reports a distance takes, or a number no budget has.\<close>

definition segments :: "int \<Rightarrow> int \<Rightarrow> int \<Rightarrow> nat" where
  "segments n minimum maximum =
    (if n = 0 then 0
     else let span = (if n > 0 then maximum else - minimum)
          in if span > 0 then nat ((\<bar>n\<bar> + span - 1) div span) else 1000000)"

definition out_segments :: "move_request \<Rightarrow> snapshot \<Rightarrow> nat" where
  "out_segments r e = max (segments (mr_dx r) (es_xmin e) (es_xmax e)) (segments (mr_dy r) (es_ymin e) (es_ymax e))"

definition back_segments :: "move_request \<Rightarrow> snapshot \<Rightarrow> nat" where
  "back_segments r e = max (segments (- mr_dx r) (es_xmin e) (es_xmax e)) (segments (- mr_dy r) (es_ymin e) (es_ymax e))"

definition minimum_us :: "move_request \<Rightarrow> snapshot \<Rightarrow> nat" where
  "minimum_us r e =
    (out_segments r e + back_segments r e + (if mr_button r \<noteq> 0 then 2 else 0)) * unat (es_poll_us e)
     + unat (mr_settle_us r) + unat (mr_return_us r) + (if mr_button r \<noteq> 0 then unat (mr_press_us r) else 0)"

text \<open>The checks of a new transaction, in their order; \<open>None\<close> where it is admitted.\<close>

definition move_refusal :: "move_request \<Rightarrow> snapshot \<Rightarrow> server \<Rightarrow> move_status option" where
  "move_refusal r e sv =
    (if \<not> es_ready e then Some MS_NotReady
     else if es_generation e \<noteq> mr_generation r then Some MS_EndpointChanged
     else if mover_active (sv_mover sv) \<or> sv_work sv \<noteq> [] \<or> sv_release_pending sv
        \<or> es_synthetic_pending e \<noteq> 0 \<or> es_output_queue e \<noteq> 0 then Some MS_Busy
     else if (if mr_button r \<noteq> 0 then (es_physical e AND button_bit (mr_button r)) \<noteq> 0 else es_physical e \<noteq> 0)
        \<or> sv_persistent sv \<noteq> 0 \<or> sv_scheduled sv \<noteq> 0 \<or> es_persistent e \<noteq> 0 \<or> es_scheduled e \<noteq> 0
       then Some MS_ButtonActive
     else if mr_button r \<noteq> 0 \<and> ((es_supported e AND button_bit (mr_button r)) = 0 \<or> mr_press_us r < es_poll_us e)
       then Some MS_Invalid
     else if out_segments r e > 32 \<or> back_segments r e > 32 \<or> minimum_us r e \<ge> unat (mr_budget_us r)
       then Some MS_Range
     else None)"

definition admit_move :: "u64 \<Rightarrow> peer \<Rightarrow> move_request \<Rightarrow> snapshot \<Rightarrow> server \<Rightarrow> server" where
  "admit_move now from r e sv =
    (let sv = remove_old_cache sv in
     if cache_full sv then reject_move now from r MS_QueueFull sv
     else let (ok, ss) = session_admit (sv_sessions sv) (mr_session r) now False (session_protected sv);
              sv = sv\<lparr>sv_sessions := ss\<rparr>
     in if \<not> ok then reject_move now from r MS_QueueFull sv
     else let m = mover_start r e now;
              c = \<lparr>cc_key = (mr_session r, mr_command r), cc_request = no_click_request, cc_button = 0,
                 cc_accepted = 0, cc_completed = 0, cc_status = CS_Accepted, cc_terminal = False,
                 cc_peer = from, cc_movement = True, cc_move_request = r, cc_move_ack = mv_ack m\<rparr>;
              sv = sv\<lparr>sv_mover := m, sv_cache := sv_cache sv @ [c],
                 sv_sessions := session_accept ss (mr_session r) (mr_command r) now\<rparr>
     in send_cached c (cc_status c) ((set_owner from now sv)\<lparr>sv_tracked := es_generation e\<rparr>))"

definition steer_mover :: "move_request \<Rightarrow> server \<Rightarrow> server" where
  "steer_mover r sv =
    (let m = sv_mover sv; m = (if mr_operation r = MO_Continue then mover_proceed m else m);
         m = (if mr_operation r = MO_Cancel then mover_cancel m else m)
     in sv\<lparr>sv_mover := m\<rparr>)"

definition handle_move :: "u64 \<Rightarrow> peer \<Rightarrow> bytes \<Rightarrow> server \<Rightarrow> server" where
  "handle_move now from data sv =
    (case move_parse data of
       None \<Rightarrow> sv
     | Some r \<Rightarrow>
         (let k = (mr_session r, mr_command r) in
          if sv_owned sv \<and> sv_owner sv \<noteq> from then reject_move now from r MS_Busy sv
          else if mr_epoch r \<noteq> sv_epoch sv then reject_move now from r MS_EndpointChanged sv
          else case find_cache k sv of
            Some prior \<Rightarrow>
              if \<not> cc_movement prior \<or> \<not> same_move (cc_move_request prior) r
              then reject_move now from r MS_Invalid sv
              else let sv = update_cache k (\<lambda>c. c\<lparr>cc_peer := from\<rparr>) sv;
                       sv = (if \<not> cc_terminal prior then steer_mover r sv else sv)
              in send_cached (prior\<lparr>cc_peer := from\<rparr>) (cc_status prior) (set_owner from now sv)
          | None \<Rightarrow>
              if mr_operation r \<noteq> MO_Execute then reject_move now from r MS_Stale sv
              else let (old, ss) = session_stale (sv_sessions sv) (mr_session r) (mr_command r) now;
                       sv = sv\<lparr>sv_sessions := ss\<rparr>; e = endpoint_snapshot now (sv_mixer sv)
              in if old then reject_move now from r MS_Stale sv
              else case move_refusal r e sv of
                Some st \<Rightarrow> reject_move now from r st sv
              | None \<Rightarrow> admit_move now from r e sv))"

subsection \<open>Click commands\<close>

definition refuse_click :: "peer \<Rightarrow> click_request \<Rightarrow> click_status \<Rightarrow> server \<Rightarrow> server" where
  "refuse_click from r st = send_ack from (cr_session r, cr_command r) (cr_button r) st 0 0 (cr_version r)"

definition invalid_click :: "peer \<Rightarrow> bytes \<Rightarrow> server \<Rightarrow> server" where
  "invalid_click from data sv =
    (let n = length data; k = (if n \<ge> 24 then (get64 data 8, get64 data 16) else (0, 0));
         version = (if n > 4 \<and> data ! 4 = VERSION2 then VERSION2 else VERSION1)
     in send_ack from k (if n > 6 then data ! 6 else 0) CS_Invalid 0 0 version sv)"

definition click_refusal :: "click_request \<Rightarrow> snapshot \<Rightarrow> server \<Rightarrow> click_status option" where
  "click_refusal r e sv =
    (if mover_active (sv_mover sv) then Some CS_Busy
     else if \<not> es_ready e then Some CS_NotReady
     else if cr_button r < 1 \<or> cr_button r > 8 \<or> (es_supported e AND button_bit (cr_button r)) = 0
       then Some CS_UnsupportedButton
     else if cr_count r = 0 \<or> cr_count r > 10000 \<or> cr_press_us r < es_poll_us e
        \<or> cr_press_us r > 5000000 \<or> cr_interval_us r > 60000000
        \<or> cr_version r = VERSION1 \<and> unat (cr_interval_us r) < unat (cr_press_us r) + unat (es_poll_us e)
       then Some CS_Invalid
     else if ((es_physical e OR sv_persistent sv) AND button_bit (cr_button r)) \<noteq> 0 then Some CS_ButtonActive
     else if length (sv_work sv) \<ge> MAX_CLICK_COMMANDS then Some CS_QueueFull
     else None)"

definition click_of_request :: "click_request \<Rightarrow> u64 \<Rightarrow> click_work" where
  "click_of_request r now = no_work\<lparr>ck_key := (cr_session r, cr_command r), ck_button := cr_button r,
     ck_count := cr_count r, ck_press_us := cr_press_us r, ck_interval_us := cr_interval_us r,
     ck_due := now, ck_version := cr_version r, ck_binary := True\<rparr>"

definition schedule_click :: "u64 \<Rightarrow> peer \<Rightarrow> click_request \<Rightarrow> snapshot \<Rightarrow> server \<Rightarrow> server" where
  "schedule_click now from r e sv =
    (let sv = remove_old_cache sv in
     if cache_full sv then refuse_click from r CS_QueueFull sv
     else let (ok, ss) = session_admit (sv_sessions sv) (cr_session r) now False (session_protected sv);
              sv = sv\<lparr>sv_sessions := ss\<rparr>
     in if \<not> ok then refuse_click from r CS_QueueFull sv
     else case accept_record r from (cr_count r) sv of
       (None, sv) \<Rightarrow> refuse_click from r CS_QueueFull sv
     | (Some c, sv) \<Rightarrow>
         (let sv = sv\<lparr>sv_sessions := session_accept (sv_sessions sv) (cr_session r) (cr_command r) now,
                sv_work := sv_work sv @ [click_of_request r now],
                sv_accepted := sv_accepted sv + ucast (cr_count r)\<rparr>
          in send_cached c CS_Accepted ((set_owner from now sv)\<lparr>sv_tracked := es_generation e\<rparr>)))"

definition release_all :: "u64 \<Rightarrow> peer \<Rightarrow> click_request \<Rightarrow> server \<Rightarrow> server" where
  "release_all now from r sv =
    (let sv = remove_old_cache sv; k = (cr_session r, cr_command r) in
     if cache_full sv then send_ack from k 0 CS_QueueFull 0 0 (cr_version r) sv
     else let (ok, ss) = session_admit (sv_sessions sv) (cr_session r) now True (session_protected sv);
              sv = sv\<lparr>sv_sessions := ss\<rparr>
     in if \<not> ok then send_ack from k 0 CS_QueueFull 0 0 (cr_version r) sv
     else case accept_record r from 0 sv of
       (None, sv) \<Rightarrow> send_ack from k 0 CS_QueueFull 0 0 (cr_version r) sv
     | (Some c, sv) \<Rightarrow>
         (let sv = sv\<lparr>sv_sessions := session_accept (sv_sessions sv) (cr_session r) (cr_command r) now\<rparr>
          in begin_reset True k now (send_cached c CS_Accepted (set_owner from now sv))))"

definition handle_click :: "u64 \<Rightarrow> peer \<Rightarrow> bytes \<Rightarrow> server \<Rightarrow> server" where
  "handle_click now from data sv =
    (case click_parse data of
       None \<Rightarrow> invalid_click from data sv
     | Some r \<Rightarrow>
         (let k = (cr_session r, cr_command r) in
          if sv_owned sv \<and> sv_owner sv \<noteq> from then refuse_click from r CS_Busy sv
          else case find_cache k sv of
            Some prior \<Rightarrow>
              if cc_movement prior \<or> \<not> same_request (cc_request prior) r then refuse_click from r CS_Invalid sv
              else send_ack from (cc_key prior) (cc_button prior)
                     (if cc_terminal prior then cc_status prior else CS_Duplicate)
                     (cc_accepted prior) (cc_completed prior) (cr_version (cc_request prior))
                     (update_cache k (\<lambda>c. c\<lparr>cc_peer := from\<rparr>) (set_owner from now sv))
          | None \<Rightarrow>
              (let (old, ss) = session_stale (sv_sessions sv) (cr_session r) (cr_command r) now;
                   sv = sv\<lparr>sv_sessions := ss\<rparr>; e = endpoint_snapshot now (sv_mixer sv)
               in if old then refuse_click from r CS_StaleCommand sv
                  else if cr_operation r = CO_Schedule
                  then (case click_refusal r e sv of
                          Some st \<Rightarrow> refuse_click from r st sv
                        | None \<Rightarrow> schedule_click now from r e sv)
                  else release_all now from r sv)))"

subsection \<open>Binary movement\<close>

text \<open>A UPX1 datagram: the motion, the wanted buttons, the sequence number and the reserved byte.\<close>

definition i8_at :: "bytes \<Rightarrow> nat \<Rightarrow> int" where
  "i8_at p k = (if p ! k < 128 then uint (p ! k) else uint (p ! k) - 256)"

definition upx_command :: "bytes \<Rightarrow> mouse_command" where
  "upx_command p = no_command\<lparr>cmd_x := read_i16 p 8, cmd_y := read_i16 p 10, cmd_wheel := i8_at p 12,
     cmd_pan := i8_at p 13\<rparr>"

definition handle_movement :: "u64 \<Rightarrow> peer \<Rightarrow> bytes \<Rightarrow> server \<Rightarrow> server" where
  "handle_movement now from data sv =
    (let q = read_be32 data 4 in
     if data ! 15 \<noteq> 0 then sv
     else let (old, es) = upx_stale (sv_replay sv) from q now; sv = sv\<lparr>sv_replay := es\<rparr>
     in if old then sv
     else let c = upx_command data; next = data ! 14; e = endpoint_snapshot now (sv_mixer sv)
     in if \<not> es_ready e \<or> (next AND NOT (es_supported e)) \<noteq> 0 then sv
     else if mover_active (sv_mover sv)
       then (if no_motion c \<and> next = 0 then set_owner from now sv else sv)
     else let transition = (next \<noteq> sv_persistent sv); movement = (cmd_x c \<noteq> 0 \<or> cmd_y c \<noteq> 0);
              (r, sv) =
                (if transition \<or> movement \<or> cmd_wheel c \<noteq> 0 \<or> cmd_pan c \<noteq> 0
                 then server_enqueue c next (sv_scheduled sv)
                        (if transition then RK_Persistent else RK_Movement)
                        (\<not> transition \<and> movement \<and> cmd_wheel c = 0 \<and> cmd_pan c = 0) (0, 0) 0 0 now sv
                 else (ER_Ok, sv))
     in if r = ER_Ok
        then (set_owner from now (sv\<lparr>sv_persistent := next, sv_replay := upx_accept (sv_replay sv) from q now\<rparr>))
               \<lparr>sv_tracked := es_generation e\<rparr>
        else sv)"

subsection \<open>Text commands\<close>

definition text_of :: "bytes \<Rightarrow> string" where
  "text_of bs = map (\<lambda>b. char_of (unat b)) bs"

definition newline :: "char \<Rightarrow> bool" where
  "newline c \<longleftrightarrow> c = CHR 0x0A \<or> c = CHR 0x0D"

definition strip_newlines :: "string \<Rightarrow> string" where
  "strip_newlines s = rev (dropWhile newline (rev s))"

text \<open>\<open>istream >>\<close> on words and integers; \<open>None\<close> where the stream fails.\<close>

definition is_space :: "char \<Rightarrow> bool" where
  "is_space c \<longleftrightarrow> c = CHR '' '' \<or> (0x09 \<le> (of_char c :: nat) \<and> (of_char c :: nat) \<le> 0x0D)"

definition is_digit :: "char \<Rightarrow> bool" where
  "is_digit c \<longleftrightarrow> 48 \<le> (of_char c :: nat) \<and> (of_char c :: nat) \<le> 57"

definition read_word :: "string \<Rightarrow> (string \<times> string) option" where
  "read_word s = (let s = dropWhile is_space s
     in if s = [] then None
        else Some (takeWhile (\<lambda>c. \<not> is_space c) s, dropWhile (\<lambda>c. \<not> is_space c) s))"

definition digits_value :: "string \<Rightarrow> int" where
  "digits_value s = fold (\<lambda>c v. 10 * v + (of_char c - 48)) s 0"

definition read_int :: "string \<Rightarrow> (int \<times> string) option" where
  "read_int s =
    (let s = dropWhile is_space s; negative = (s \<noteq> [] \<and> hd s = CHR ''-'');
         s = (if negative \<or> (s \<noteq> [] \<and> hd s = CHR ''+'') then tl s else s);
         ds = takeWhile is_digit s; v = (if negative then - digits_value ds else digits_value ds)
     in if ds = [] \<or> v < -2147483648 \<or> v > 2147483647 then None
        else Some (v, dropWhile is_digit s))"

text \<open>\<open>km.name(a,b)\<close> and \<open>.name(a,b)\<close> become \<open>+name a b\<close>; \<open>None\<close> is a syntax error.\<close>

definition normalize_text :: "string \<Rightarrow> string option" where
  "normalize_text s =
    (let s = (if take 3 s = ''km.'' then drop 2 s else s) in
     if s \<noteq> [] \<and> hd s = CHR ''.''
     then (let name = takeWhile (\<lambda>c. c \<noteq> CHR ''('') s; at = length name in
           if at = length s \<or> last s \<noteq> CHR '')'' then None
           else Some (map (\<lambda>c. if c = CHR '','' then CHR '' '' else c)
                  (''+'' @ tl name @ '' '' @ butlast (drop (at + 1) s))))
     else Some s)"

record text_request =
  tq_command :: mouse_command
  tq_button :: int
  tq_click :: bool
  tq_next :: u8

definition plain_request :: "u8 \<Rightarrow> mouse_command \<Rightarrow> text_request" where
  "plain_request next c = \<lparr>tq_command = c, tq_button = 1, tq_click = False, tq_next = next\<rparr>"

definition bit_of :: "int \<Rightarrow> u8" where
  "bit_of button = push_bit (nat (button - 1)) 1"

text \<open>
  The arguments of a command: \<open>Inl\<close> an error reply, \<open>Inr None\<close> where \<open>valid\<close> is false, else
  the request and the rest of the stream.
\<close>

definition button_argument :: "string \<Rightarrow> (int \<times> string) option" where
  "button_argument s = (if dropWhile is_space s = [] then Some (1, []) else read_int s)"

definition switch_names :: "string list" where
  "switch_names = [''+left'', ''+right'', ''+middle'', ''+side1'', ''+side2'']"

definition switch_argument :: "nat \<Rightarrow> string \<Rightarrow> u8 \<Rightarrow> (text_request \<times> string) option" where
  "switch_argument i s next =
    (case read_int s of
       None \<Rightarrow> None
     | Some (v, s) \<Rightarrow>
         if v = 0 \<or> v = 1
         then Some (\<lparr>tq_command = no_command, tq_button = int i + 1, tq_click = False,
                tq_next = (next AND NOT (push_bit i 1)) OR push_bit i (word_of_int v)\<rparr>, s)
         else None)"

definition index_of :: "string \<Rightarrow> string list \<Rightarrow> nat" where
  "index_of x xs = length (takeWhile (\<lambda>y. y \<noteq> x) xs)"

definition text_arguments ::
    "string \<Rightarrow> string \<Rightarrow> u8 \<Rightarrow> string + (text_request \<times> string) option" where
  "text_arguments name s next =
    (if name = ''+move'' then
       Inr (case read_int s of None \<Rightarrow> None
            | Some (x, s) \<Rightarrow> (case read_int s of None \<Rightarrow> None
              | Some (y, s) \<Rightarrow> Some (plain_request next (no_command\<lparr>cmd_x := x, cmd_y := y\<rparr>), s)))
     else if name = ''+wheel'' then
       Inr (map_option (\<lambda>(v, s). (plain_request next (no_command\<lparr>cmd_wheel := v\<rparr>), s)) (read_int s))
     else if name = ''+pan'' then
       Inr (map_option (\<lambda>(v, s). (plain_request next (no_command\<lparr>cmd_pan := v\<rparr>), s)) (read_int s))
     else if name = ''+mousedown'' \<or> name = ''+mouseup'' \<or> name = ''+click'' then
       (case button_argument s of
          None \<Rightarrow> Inl ''error button''
        | Some (b, s) \<Rightarrow>
            Inr (if b < 1 \<or> b > 8 then None
                 else Some (\<lparr>tq_command = no_command, tq_button = b, tq_click = (name = ''+click''),
                   tq_next = (if name = ''+click'' then next
                              else if name = ''+mousedown'' then next OR bit_of b
                              else next AND NOT (bit_of b))\<rparr>, s)))
     else if name \<in> set switch_names then Inr (switch_argument (index_of name switch_names) s next)
     else Inr None)"

definition text_click :: "u64 \<Rightarrow> peer \<Rightarrow> text_request \<Rightarrow> snapshot \<Rightarrow> server \<Rightarrow> server" where
  "text_click now from q e sv =
    (if ((es_physical e OR sv_persistent sv) AND bit_of (tq_button q)) \<noteq> 0
       then reply from ''error button_active'' sv
     else if length (sv_work sv) \<ge> MAX_CLICK_COMMANDS then reply from ''error queue_full'' sv
     else let press = max 10000 (es_poll_us e);
              w = no_work\<lparr>ck_button := word_of_int (tq_button q), ck_count := 1, ck_press_us := press,
                    ck_interval_us := press + es_poll_us e, ck_due := now\<rparr>
     in reply from ''ok'' ((set_owner from now (sv\<lparr>sv_work := sv_work sv @ [w]\<rparr>))
          \<lparr>sv_tracked := es_generation e\<rparr>))"

definition text_report :: "u64 \<Rightarrow> peer \<Rightarrow> text_request \<Rightarrow> snapshot \<Rightarrow> server \<Rightarrow> server" where
  "text_report now from q e sv =
    (let (r, sv) = server_enqueue (tq_command q) (tq_next q) (sv_scheduled sv)
           (if tq_next q \<noteq> sv_persistent sv then RK_Persistent else RK_Movement) False (0, 0) 0 0 now sv
     in if r \<noteq> ER_Ok then reply from ''error not_ready_range_or_queue_full'' sv
        else reply from ''ok'' ((set_owner from now (sv\<lparr>sv_persistent := tq_next q\<rparr>))
               \<lparr>sv_tracked := es_generation e\<rparr>))"

definition perform_text :: "u64 \<Rightarrow> peer \<Rightarrow> text_request \<Rightarrow> server \<Rightarrow> server" where
  "perform_text now from q sv =
    (let e = endpoint_snapshot now (sv_mixer sv) in
     if \<not> es_ready e then reply from ''error not_ready_range_or_queue_full'' sv
     else if tq_button q < 1 \<or> tq_button q > 8 \<or> (tq_next q AND NOT (es_supported e)) \<noteq> 0
        \<or> tq_click q \<and> (es_supported e AND bit_of (tq_button q)) = 0 then reply from ''error button'' sv
     else if tq_click q then text_click now from q e sv
     else text_report now from q e sv)"

definition handle_command :: "u64 \<Rightarrow> peer \<Rightarrow> string \<Rightarrow> server \<Rightarrow> server" where
  "handle_command now from text sv =
    (case normalize_text text of
       None \<Rightarrow> reply from ''error syntax'' sv
     | Some text \<Rightarrow>
         (let (name, s) = (case read_word text of None \<Rightarrow> ([], []) | Some r \<Rightarrow> r) in
          if name = ''+release'' then
            (if read_word s \<noteq> None then reply from ''error command'' sv
             else reply from ''ok'' (set_owner from now (reset_all now sv)))
          else if mover_active (sv_mover sv) then reply from ''busy'' sv
          else case text_arguments name s (sv_persistent sv) of
            Inl err \<Rightarrow> reply from err sv
          | Inr None \<Rightarrow> reply from ''error command'' sv
          | Inr (Some (q, s)) \<Rightarrow>
              if read_word s \<noteq> None then reply from ''error command'' sv else perform_text now from q sv))"

definition handle_text :: "u64 \<Rightarrow> peer \<Rightarrow> bytes \<Rightarrow> server \<Rightarrow> server" where
  "handle_text now from data sv =
    (let text = strip_newlines (text_of data) in
     if text = ''+state'' then reply from (mouse_state_text now (sv_mixer sv)) sv
     else if sv_owned sv \<and> sv_owner sv \<noteq> from then reply from ''busy'' sv
     else if length data = 16 \<and> has_magic data ''UPX1'' then handle_movement now from data sv
     else handle_command now from text sv)"

subsection \<open>The loop\<close>

definition DATAGRAM_MAX :: nat where
  "DATAGRAM_MAX = 1024"

definition magic :: "bytes \<Rightarrow> string \<Rightarrow> bool" where
  "magic data s \<longleftrightarrow> length data \<ge> 4 \<and> has_magic data s"

definition handle_datagram :: "u32 option \<Rightarrow> u64 \<Rightarrow> peer \<Rightarrow> bytes \<Rightarrow> server \<Rightarrow> server" where
  "handle_datagram allowed now from data sv =
    (if data = [] \<or> length data > DATAGRAM_MAX then sv
     else if (case allowed of None \<Rightarrow> False | Some a \<Rightarrow> pe_address from \<noteq> a) then sv
     else if magic data ''UPS1'' \<or> magic data ''UPS2'' \<or> magic data ''UPS3''
       then handle_subscribe now from data sv
     else if magic data ''UPQ1'' then handle_query now from data sv
     else if magic data ''UPM1'' then handle_move now from data sv
     else if magic data ''UPC1'' then handle_click now from data sv
     else handle_text now from data sv)"

definition server_iteration :: "u32 option \<Rightarrow> u64 \<Rightarrow> (peer \<times> bytes) option \<Rightarrow> server \<Rightarrow> server" where
  "server_iteration allowed now input sv =
    (let sv = loop_head now sv
     in case input of None \<Rightarrow> sv | Some (from, data) \<Rightarrow> handle_datagram allowed now from data sv)"

text \<open>After the loop: everything stops and a last release is queued.\<close>

definition server_exit :: "u64 \<Rightarrow> server \<Rightarrow> server" where
  "server_exit now sv =
    (let sv = (cancel_work (stop_mover now sv))\<lparr>sv_persistent := 0, sv_scheduled := 0\<rparr>;
         sv = sv\<lparr>sv_mixer := snd (clear_synthetic_state now (sv_mixer sv))\<rparr>
     in snd (server_enqueue no_command 0 0 RK_ReleaseAll False (0, 0) 0 0 now sv))"

subsection \<open>Starting and stopping\<close>

text \<open>
  The object \<open>UdpServer\<close>: the socket and the thread, with the answers of the operating system as
  arguments: whether the environment's peer is an address, the descriptor of the new socket and whether
  it was bound; and the two numbers drawn for the epoch.
\<close>

record udp_object =
  us_sockfd :: int
  us_running :: bool
  us_thread :: bool

definition random_epoch :: "u32 \<Rightarrow> u32 \<Rightarrow> u64 \<Rightarrow> u32 \<Rightarrow> u64" where
  "random_epoch a b now pid =
    (let v = push_bit 32 (ucast a) XOR ucast b XOR now XOR push_bit 17 (ucast pid)
     in if v \<noteq> 0 then v else 1)"

definition udp_start :: "bool \<Rightarrow> int \<Rightarrow> bool \<Rightarrow> udp_object \<Rightarrow> bool \<times> udp_object" where
  "udp_start peer_ok fd bound u =
    (if us_running u then (True, u)
     else if \<not> peer_ok then (False, u)
     else if fd < 0 then (False, u\<lparr>us_sockfd := fd\<rparr>)
     else if \<not> bound then (False, u\<lparr>us_sockfd := -1\<rparr>)
     else (True, u\<lparr>us_sockfd := fd, us_running := True, us_thread := True\<rparr>))"

definition udp_join :: "udp_object \<Rightarrow> udp_object" where
  "udp_join u = u\<lparr>us_thread := False\<rparr>"

definition udp_stop :: "udp_object \<Rightarrow> udp_object" where
  "udp_stop u = (let u = udp_join (u\<lparr>us_running := False\<rparr>)
     in if us_sockfd u \<ge> 0 then u\<lparr>us_sockfd := -1\<rparr> else u)"

text \<open>The socket is open exactly while the thread runs.\<close>

definition udp_object_ok :: "udp_object \<Rightarrow> bool" where
  "udp_object_ok u \<longleftrightarrow> (us_running u \<longleftrightarrow> us_sockfd u \<ge> 0) \<and> us_thread u = us_running u"

lemma udp_start_ok:
  assumes "udp_object_ok u"
  shows "udp_object_ok (snd (udp_start peer_ok fd bound u))"
    "fst (udp_start peer_ok fd bound u) = us_running (snd (udp_start peer_ok fd bound u))"
  using assms by (auto simp: udp_object_ok_def udp_start_def)

lemma udp_stop_ok: "udp_object_ok (udp_stop u) \<and> \<not> us_running (udp_stop u)"
  by (simp add: udp_object_ok_def udp_stop_def udp_join_def Let_def)

end
