(* ===== verification/Server_Facts.thy ===== *)
theory Server_Facts
  imports Udp_Server Move_Facts
begin

text \<open>
  What the server thread guarantees, whatever the datagrams, the clock and the other threads do to the
  shared mixer: the scheduled buttons are those of the click under way, the click queue and the move
  executor never drive the mouse together, a pending release comes before any click, the tables keep
  their bounds, a peer without the lease changes nothing, and a repeated command has no second effect.
\<close>

subsection \<open>Replies and cache updates leave the rest alone\<close>

text \<open>The server without its cache and its outgoing datagrams, and the keys of the cache.\<close>

definition core :: "server \<Rightarrow> server" where
  "core sv = sv\<lparr>sv_cache := [], sv_out := []\<rparr>"

definition cache_keys :: "server \<Rightarrow> key list" where
  "cache_keys sv = map cc_key (sv_cache sv)"

lemma core_fields:
  assumes "core a = core b"
  shows "sv_epoch a = sv_epoch b" "sv_persistent a = sv_persistent b" "sv_scheduled a = sv_scheduled b"
    "sv_tracked a = sv_tracked b" "sv_owner a = sv_owner b" "sv_owned a = sv_owned b" "sv_last a = sv_last b"
    "sv_work a = sv_work b" "sv_mover a = sv_mover b" "sv_sessions a = sv_sessions b"
    "sv_accepted a = sv_accepted b" "sv_completed a = sv_completed b" "sv_replay a = sv_replay b"
    "sv_release_pending a = sv_release_pending b" "sv_release_inflight a = sv_release_inflight b"
    "sv_release_key a = sv_release_key b" "sv_subscription a = sv_subscription b"
    "sv_telemetry a = sv_telemetry b" "sv_subscriber a = sv_subscriber b"
    "sv_last_telemetry a = sv_last_telemetry b" "sv_mixer a = sv_mixer b"
  using assms by (cases a; cases b; simp add: core_def)+

lemma core_send_packet: "core (send_packet p bs sv) = core sv"
  and core_update_cache: "core (update_cache k f sv) = core sv"
  by (simp_all add: core_def send_packet_def update_cache_def)

lemmas send_packet_fields [simp] = core_fields [OF core_send_packet]
lemmas update_cache_fields [simp] = core_fields [OF core_update_cache]

lemma core_reply: "core (reply p s sv) = core sv"
  and core_send_ack: "core (send_ack p k b st x y v sv) = core sv"
  and core_refuse_click: "core (refuse_click p r cs sv) = core sv"
  and core_reject_move: "core (reject_move now p q ms sv) = core sv"
  by (simp_all add: reply_def send_ack_def refuse_click_def reject_move_def core_send_packet)

lemma core_send_cached: "core (send_cached c st sv) = core sv"
  by (simp add: send_cached_def core_send_packet core_send_ack)

lemma core_make_terminal: "core (make_terminal k st sv) = core sv"
  by (simp add: make_terminal_def core_send_cached core_update_cache split: option.split)

lemma core_sync_move: "core (sync_move sv) = core sv"
  by (simp add: sync_move_def Let_def core_send_cached core_update_cache split: option.split)

lemmas reply_fields [simp] = core_fields [OF core_reply]
lemmas send_ack_fields [simp] = core_fields [OF core_send_ack]
lemmas refuse_click_fields [simp] = core_fields [OF core_refuse_click]
lemmas reject_move_fields [simp] = core_fields [OF core_reject_move]
lemmas send_cached_fields [simp] = core_fields [OF core_send_cached]
lemmas make_terminal_fields [simp] = core_fields [OF core_make_terminal]
lemmas sync_move_fields [simp] = core_fields [OF core_sync_move]

lemma map_update_first: "(\<And>x. g (f x) = g x) \<Longrightarrow> map g (update_first P f xs) = map g xs"
  by (induction xs) auto

lemma keys_send [simp]:
  "sv_cache (send_packet p bs sv) = sv_cache sv" "sv_cache (reply p s sv) = sv_cache sv"
  "sv_cache (send_ack p k b st x y v sv) = sv_cache sv" "sv_cache (send_cached c st sv) = sv_cache sv"
  "sv_cache (refuse_click p r st sv) = sv_cache sv" "sv_cache (reject_move now p q ms sv) = sv_cache sv"
  by (simp_all add: send_packet_def reply_def send_ack_def send_cached_def refuse_click_def reject_move_def)

lemma keys_update [simp]:
  "(\<And>c. cc_key (f c) = cc_key c) \<Longrightarrow> cache_keys (update_cache k f sv) = cache_keys sv"
  by (simp add: cache_keys_def update_cache_def map_update_first)

lemma keys_quiet [simp]:
  "cache_keys (send_packet p bs sv) = cache_keys sv" "cache_keys (reply p s sv) = cache_keys sv"
  "cache_keys (send_ack p k b st x y v sv) = cache_keys sv" "cache_keys (send_cached c st sv) = cache_keys sv"
  "cache_keys (refuse_click p r st sv) = cache_keys sv" "cache_keys (reject_move now p q ms sv) = cache_keys sv"
  by (simp_all add: cache_keys_def)

lemma keys_terminal [simp]: "cache_keys (make_terminal k st sv) = cache_keys sv"
  by (simp add: make_terminal_def split: option.split)

lemma keys_sync [simp]: "cache_keys (sync_move sv) = cache_keys sv"
  by (simp add: sync_move_def Let_def split: option.split)

lemma keys_fields [simp]:
  "cache_keys (sv\<lparr>sv_work := w\<rparr>) = cache_keys sv" "cache_keys (sv\<lparr>sv_mover := m\<rparr>) = cache_keys sv"
  "cache_keys (sv\<lparr>sv_mixer := mx\<rparr>) = cache_keys sv" "cache_keys (sv\<lparr>sv_scheduled := b\<rparr>) = cache_keys sv"
  "cache_keys (sv\<lparr>sv_persistent := b\<rparr>) = cache_keys sv" "cache_keys (sv\<lparr>sv_tracked := t\<rparr>) = cache_keys sv"
  "cache_keys (sv\<lparr>sv_owned := o'\<rparr>) = cache_keys sv" "cache_keys (sv\<lparr>sv_owner := p\<rparr>) = cache_keys sv"
  "cache_keys (sv\<lparr>sv_last := t\<rparr>) = cache_keys sv" "cache_keys (sv\<lparr>sv_sessions := ss\<rparr>) = cache_keys sv"
  "cache_keys (sv\<lparr>sv_accepted := t\<rparr>) = cache_keys sv" "cache_keys (sv\<lparr>sv_completed := t\<rparr>) = cache_keys sv"
  "cache_keys (sv\<lparr>sv_replay := es\<rparr>) = cache_keys sv" "cache_keys (sv\<lparr>sv_release_pending := x\<rparr>) = cache_keys sv"
  "cache_keys (sv\<lparr>sv_release_inflight := x\<rparr>) = cache_keys sv" "cache_keys (sv\<lparr>sv_release_key := k\<rparr>) = cache_keys sv"
  "cache_keys (sv\<lparr>sv_subscription := sub\<rparr>) = cache_keys sv" "cache_keys (sv\<lparr>sv_telemetry := tel\<rparr>) = cache_keys sv"
  "cache_keys (sv\<lparr>sv_subscriber := p\<rparr>) = cache_keys sv" "cache_keys (sv\<lparr>sv_last_telemetry := t\<rparr>) = cache_keys sv"
  by (simp_all add: cache_keys_def)

lemma find_cache_None: "find_cache k sv = None \<longleftrightarrow> k \<notin> set (cache_keys sv)"
  by (auto simp: find_cache_def cache_keys_def find_None_iff)

subsection \<open>Resetting\<close>

lemma mover_stop_inactive [simp]:
  "reason \<noteq> MS_Active \<Longrightarrow> reason \<noteq> MS_Accepted \<Longrightarrow> \<not> mover_active (mover_stop reason now m)"
  by (simp add: mover_stop_def Let_def)

lemma cancel_clicks_frame:
  "core (cancel_clicks ws sv) = (core sv)\<lparr>sv_work := (if ws = [] then sv_work sv else [])\<rparr>"
  "cache_keys (cancel_clicks ws sv) = cache_keys sv"
proof (induction ws arbitrary: sv)
  case (Cons w ws)
  have c: "core (if ck_binary w then make_terminal (ck_key w) CS_Cancelled (sv\<lparr>sv_work := ws\<rparr>) else sv\<lparr>sv_work := ws\<rparr>)
      = (core sv)\<lparr>sv_work := ws\<rparr>"
    by (simp add: core_make_terminal) (simp add: core_def)
  { case 1 show ?case using Cons(1) by (simp add: Let_def c) (cases ws; simp add: core_def) }
  { case 2 show ?case using Cons(2) by (simp add: Let_def) }
qed (simp_all add: core_def)


lemma cancel_clicks_fields [simp]:
  "sv_work (cancel_clicks ws sv) = (if ws = [] then sv_work sv else [])"
  "sv_mover (cancel_clicks ws sv) = sv_mover sv" "sv_mixer (cancel_clicks ws sv) = sv_mixer sv"
  "sv_accepted (cancel_clicks ws sv) = sv_accepted sv" "sv_release_key (cancel_clicks ws sv) = sv_release_key sv"
  "sv_owned (cancel_clicks ws sv) = sv_owned sv" "sv_owner (cancel_clicks ws sv) = sv_owner sv"
  using arg_cong [OF cancel_clicks_frame(1), of sv_work ws sv] arg_cong [OF cancel_clicks_frame(1), of sv_mover ws sv]
    arg_cong [OF cancel_clicks_frame(1), of sv_mixer ws sv] arg_cong [OF cancel_clicks_frame(1), of sv_accepted ws sv]
    arg_cong [OF cancel_clicks_frame(1), of sv_release_key ws sv] arg_cong [OF cancel_clicks_frame(1), of sv_owned ws sv]
    arg_cong [OF cancel_clicks_frame(1), of sv_owner ws sv]
  by (simp_all add: core_def)

lemma cancel_work_fields [simp]:
  "sv_work (cancel_work sv) = []" "sv_scheduled (cancel_work sv) = 0" "sv_mover (cancel_work sv) = sv_mover sv"
  "sv_mixer (cancel_work sv) = sv_mixer sv" "sv_accepted (cancel_work sv) = sv_accepted sv"
  "sv_release_key (cancel_work sv) = sv_release_key sv" "cache_keys (cancel_work sv) = cache_keys sv"
  by (simp_all add: cancel_work_def cancel_clicks_frame)

lemma stop_mover_fields [simp]:
  "sv_mover (stop_mover now sv) = mover_stop MS_Cancelled now (sv_mover sv)" "sv_work (stop_mover now sv) = sv_work sv"
  "sv_accepted (stop_mover now sv) = sv_accepted sv" "sv_release_key (stop_mover now sv) = sv_release_key sv"
  "cache_keys (stop_mover now sv) = cache_keys sv"
  by (simp_all add: stop_mover_def)

text \<open>A reset ends every activity: no click, no transaction, no button, and the release is owed.\<close>

lemma reset_fields [simp]:
  "sv_work (begin_reset a k now sv) = []" "sv_scheduled (begin_reset a k now sv) = 0"
  "sv_persistent (begin_reset a k now sv) = 0" "\<not> mover_active (sv_mover (begin_reset a k now sv))"
  "sv_release_pending (begin_reset a k now sv)" "\<not> sv_release_inflight (begin_reset a k now sv)"
  "cache_keys (begin_reset a k now sv) = cache_keys sv"
  by (simp_all add: begin_reset_def Let_def split: prod.split)

lemma mover_event_active: "mover_active (mover_event e m) \<Longrightarrow> mover_active m"
  by (simp add: mover_event_def split: if_splits)

lemma mover_steer_active [simp]:
  "mover_active (mover_proceed m) = mover_active m" "mover_active (mover_cancel m) = mover_active m"
  by (simp_all add: mover_proceed_def mover_cancel_def)

lemma mover_tick_active:
  assumes "mover_tick e now m mx = (reset, m', mx')"
  shows "mover_active m' \<Longrightarrow> mover_active m"
  using assms by (auto simp: mover_tick_def split: if_splits)

subsection \<open>The invariant of the scheduler\<close>

text \<open>A click has its button down from the moment the press is queued until the release is queued.\<close>

definition pressed_phase :: "click_phase \<Rightarrow> bool" where
  "pressed_phase p \<longleftrightarrow> p = CP_PressInflight \<or> p = CP_Holding \<or> p = CP_AwaitRelease"

definition held_buttons :: "click_work list \<Rightarrow> u8" where
  "held_buttons ws = (case ws of [] \<Rightarrow> 0 | w # _ \<Rightarrow> if pressed_phase (ck_phase w) then button_bit (ck_button w) else 0)"

text \<open>
  The scheduled buttons are exactly the button held by the front click and no other click has begun;
  while the executor is active nothing else is; a release in flight is owed, and while it is owed no
  click has begun.
\<close>

definition engine_ok :: "server \<Rightarrow> bool" where
  "engine_ok sv \<longleftrightarrow> sv_scheduled sv = held_buttons (sv_work sv)
     \<and> (\<forall>w \<in> set (tl (sv_work sv)). ck_phase w = CP_AwaitPress)
     \<and> (mover_active (sv_mover sv) \<longrightarrow> sv_work sv = [] \<and> sv_persistent sv = 0 \<and> \<not> sv_release_pending sv)
     \<and> (sv_release_inflight sv \<longrightarrow> sv_release_pending sv)
     \<and> (sv_release_pending sv \<longrightarrow> (\<forall>w \<in> set (sv_work sv). ck_phase w = CP_AwaitPress))"

lemma held_buttons_simps [simp]:
  "held_buttons [] = 0"
  "held_buttons (w # ws) = (if pressed_phase (ck_phase w) then button_bit (ck_button w) else 0)"
  by (simp_all add: held_buttons_def)

lemma held_await: "\<forall>w \<in> set ws. ck_phase w = CP_AwaitPress \<Longrightarrow> held_buttons ws = 0"
  by (cases ws) (auto simp: pressed_phase_def)

lemma engine_ok_cong:
  assumes "engine_ok sv" and "sv_scheduled sv' = sv_scheduled sv" and "sv_work sv' = sv_work sv"
    and "mover_active (sv_mover sv') \<Longrightarrow> mover_active (sv_mover sv)"
    and "mover_active (sv_mover sv) \<Longrightarrow> sv_persistent sv' = sv_persistent sv"
    and "sv_release_pending sv' = sv_release_pending sv" and "sv_release_inflight sv' = sv_release_inflight sv"
  shows "engine_ok sv'"
  using assms unfolding engine_ok_def by metis

lemma engine_reset [simp]: "engine_ok (begin_reset a k now sv)" "engine_ok (reset_all now sv)"
  by (simp_all add: engine_ok_def reset_all_def)

lemma reset_all_keys [simp]: "cache_keys (reset_all now sv) = cache_keys sv" "sv_work (reset_all now sv) = []"
  by (simp_all add: reset_all_def)

lemma drop_owner_ok [simp]: "engine_ok (drop_owner sv) = engine_ok sv"
  by (simp add: drop_owner_def engine_ok_def)

lemma engine_sync [simp]: "engine_ok (sync_move sv) = engine_ok sv"
  by (simp add: engine_ok_def)

lemma engine_terminal [simp]: "engine_ok (make_terminal k st sv) = engine_ok sv"
  by (simp add: engine_ok_def)

text \<open>Appending a click that has not begun.\<close>

lemma engine_append:
  assumes "engine_ok sv" and "\<not> mover_active (sv_mover sv)" and "ck_phase w = CP_AwaitPress"
  shows "engine_ok (sv\<lparr>sv_work := sv_work sv @ [w]\<rparr>)"
  using assms by (cases "sv_work sv") (auto simp: engine_ok_def pressed_phase_def)

text \<open>Dropping the front click together with the scheduled buttons.\<close>

lemma engine_finish:
  assumes "engine_ok sv"
  shows "engine_ok (finish_front st sv)"
proof (cases "sv_work sv")
  case (Cons w ws)
  have tl: "\<forall>w \<in> set ws. ck_phase w = CP_AwaitPress" using assms Cons by (simp add: engine_ok_def)
  have "engine_ok (sv\<lparr>sv_work := ws, sv_scheduled := 0\<rparr>)"
    using assms Cons tl held_await [OF tl] by (cases ws) (auto simp: engine_ok_def)
  thus ?thesis by (simp add: finish_front_def Cons Let_def)
qed (simp add: finish_front_def assms)

text \<open>Changing the phase of the front click together with the buttons.\<close>

lemma engine_front:
  assumes "engine_ok sv" and "sv_work sv = w # ws" and "\<not> sv_release_pending sv"
    and "b = (if pressed_phase (ck_phase (f w)) then button_bit (ck_button (f w)) else 0)"
  shows "engine_ok (front_work f (sv\<lparr>sv_scheduled := b\<rparr>))"
  using assms by (simp add: engine_ok_def front_work_def)


subsection \<open>Writer events\<close>

lemma front_work_fields [simp]:
  "sv_scheduled (front_work f sv) = sv_scheduled sv" "sv_mover (front_work f sv) = sv_mover sv"
  "sv_persistent (front_work f sv) = sv_persistent sv" "sv_release_pending (front_work f sv) = sv_release_pending sv"
  "sv_release_inflight (front_work f sv) = sv_release_inflight sv" "cache_keys (front_work f sv) = cache_keys sv"
  "length (sv_work (front_work f sv)) = length (sv_work sv)"
  by (simp_all add: front_work_def split: list.split)

text \<open>A click whose button is held, or that waits for its release, shows that no release is owed.\<close>

lemma engine_begun:
  assumes "engine_ok sv" and "sv_work sv = w # ws" and "ck_phase w \<noteq> CP_AwaitPress"
  shows "\<not> sv_release_pending sv" "\<not> mover_active (sv_mover sv)" "\<not> sv_release_inflight sv"
  using assms by (auto simp: engine_ok_def)

lemma engine_press_written:
  assumes "engine_ok sv" and "sv_work sv = w # ws" and "ck_phase w = CP_PressInflight"
  shows "engine_ok (front_work (press_written e) sv)"
  using assms engine_begun [OF assms(1,2)]
  by (simp add: engine_ok_def front_work_def press_written_def pressed_phase_def)

lemma engine_release_written:
  assumes "engine_ok sv" and "sv_work sv = w # ws" and "ck_phase w = CP_ReleaseInflight"
  shows "engine_ok (release_written e w sv)"
proof -
  let ?w = "w\<lparr>ck_index := ck_index w + 1\<rparr>"
  let ?s = "update_cache (ck_key w) (\<lambda>c. c\<lparr>cc_completed := ck_index w + 1\<rparr>)
    ((front_work (\<lambda>_. ?w) sv)\<lparr>sv_completed := sv_completed sv + 1\<rparr>)"
  have s: "engine_ok ?s" and ws: "sv_work ?s = ?w # ws" and np: "\<not> sv_release_pending ?s"
    using assms engine_begun [OF assms(1,2)]
    by (simp_all add: engine_ok_def front_work_def pressed_phase_def)
  have again: "engine_ok (front_work (\<lambda>w. w\<lparr>ck_phase := CP_AwaitPress, ck_blocked := False, ck_due := d w\<rparr>) ?s)" for d
    using s ws np by (simp add: engine_ok_def front_work_def [of _ ?s] pressed_phase_def assms(3))
  show ?thesis
    using engine_finish [OF assms(1)] engine_finish [OF s] again by (simp add: release_written_def Let_def)
qed

lemma engine_event:
  assumes "engine_ok sv"
  shows "engine_ok (process_event now e sv)"
proof -
  define s where "s = sync_move (sv\<lparr>sv_mover := mover_event e (sv_mover sv)\<rparr>)"
  have s: "engine_ok s"
    using engine_ok_cong [OF assms, of s] mover_event_active by (simp add: s_def)
  have cleared: "engine_ok (s\<lparr>sv_release_inflight := False, sv_release_pending := False\<rparr>)"
    using s by (simp add: engine_ok_def)
  have key: "engine_ok (x\<lparr>sv_release_key := k\<rparr>) = engine_ok x" for x k by (simp add: engine_ok_def)
  show ?thesis
    unfolding process_event_def Let_def s_def [symmetric]
    using s cleared engine_press_written [OF s] engine_release_written [OF s] by (auto simp: key split: list.split)
qed

lemma engine_events: "engine_ok sv \<Longrightarrow> engine_ok (process_writer_events now sv)"
proof -
  assume ok: "engine_ok sv"
  have fold: "engine_ok s \<Longrightarrow> engine_ok (fold (process_event now) es s)" for es s
    by (induction es arbitrary: s) (simp_all add: engine_event)
  show ?thesis using ok
    by (auto simp: process_writer_events_def Let_def engine_ok_def [of "_\<lparr>sv_mixer := _\<rparr>"] engine_ok_def [of sv] intro!: fold
        split: prod.split)
qed

subsection \<open>The ticks\<close>

lemma engine_mixer [simp]:
  "engine_ok (sv\<lparr>sv_mixer := mx\<rparr>) = engine_ok sv" "engine_ok (sv\<lparr>sv_tracked := t\<rparr>) = engine_ok sv"
  by (simp_all add: engine_ok_def)

lemma engine_generation: "engine_ok sv \<Longrightarrow> engine_ok (generation_check now sv)"
  by (simp add: generation_check_def Let_def)

lemma engine_overflow: "engine_ok sv \<Longrightarrow> engine_ok (overflow_check now sv)"
  by (simp add: overflow_check_def Let_def split: prod.split)

lemma engine_watchdog: "engine_ok sv \<Longrightarrow> engine_ok (watchdog now sv)"
  by (simp add: watchdog_def)

lemma engine_mover:
  assumes "engine_ok sv"
  shows "engine_ok (mover_step now sv)"
proof -
  obtain reset m mx where t: "mover_tick (endpoint_snapshot now (sv_mixer sv)) now (sv_mover sv) (sv_mixer sv) = (reset, m, mx)"
    by (metis prod_cases3)
  have "engine_ok (sv\<lparr>sv_mover := m, sv_mixer := mx\<rparr>)"
    using engine_ok_cong [OF assms, of "sv\<lparr>sv_mover := m, sv_mixer := mx\<rparr>"] mover_tick_active [OF t] by simp
  thus ?thesis by (simp add: mover_step_def t Let_def)
qed

text \<open>Enqueueing a report changes only the mixer.\<close>

lemma enqueue_frame:
  obtains r mx where "server_enqueue c p s kd l k i b now sv = (r, sv\<lparr>sv_mixer := mx\<rparr>)"
  by (cases "enqueue_report c p s kd l (fst k) (snd k) i b UINT64_MAX 0 now (sv_mixer sv)")
    (simp add: server_enqueue_def)

lemma engine_release_tick:
  assumes "engine_ok sv"
  shows "engine_ok (release_tick now sv)"
proof -
  obtain r mx where e: "server_enqueue no_command 0 0 RK_ReleaseAll False (sv_release_key sv) 0 0 now sv
      = (r, sv\<lparr>sv_mixer := mx\<rparr>)" by (rule enqueue_frame)
  have "sv_release_pending sv \<Longrightarrow> engine_ok (sv\<lparr>sv_mixer := mx, sv_release_inflight := True\<rparr>)"
    using assms by (simp add: engine_ok_def)
  thus ?thesis using assms by (simp add: release_tick_def e)
qed

lemma engine_press_tick:
  assumes "engine_ok sv" and "sv_work sv = w # ws" and "\<not> sv_release_pending sv" and "ck_phase w = CP_AwaitPress"
  shows "engine_ok (press_tick now w sv)"
proof -
  have z: "sv_scheduled sv = 0" using assms by (simp add: engine_ok_def pressed_phase_def)
  obtain r mx where e: "server_enqueue no_command (sv_persistent sv) (button_bit (ck_button w)) RK_ClickPress False
      (ck_key w) (ck_index w) (ck_button w) now sv = (r, sv\<lparr>sv_mixer := mx\<rparr>)" by (rule enqueue_frame)
  have "engine_ok (front_work (\<lambda>w. w\<lparr>ck_phase := CP_PressInflight\<rparr>)
      ((sv\<lparr>sv_mixer := mx\<rparr>)\<lparr>sv_scheduled := button_bit (ck_button w)\<rparr>))"
    using assms by (intro engine_front) (simp_all add: pressed_phase_def)
  thus ?thesis
    using assms(1) engine_finish [OF assms(1)] by (simp add: press_tick_def Let_def z e split: enqueue_result.split)
qed

lemma engine_unpress_tick:
  assumes "engine_ok sv" and "sv_work sv = w # ws" and "\<not> sv_release_pending sv"
    and "ck_phase w = CP_Holding \<or> ck_phase w = CP_AwaitRelease"
  shows "engine_ok (unpress_tick now w sv)"
proof -
  have z: "sv_scheduled sv = button_bit (ck_button w)"
    using assms by (auto simp: engine_ok_def pressed_phase_def)
  have z0: "button_bit b AND NOT (button_bit b) = 0" for b by (simp add: bit_eq_iff bit_simps)
  obtain r mx where e: "server_enqueue no_command (sv_persistent sv) 0 RK_ClickRelease False
      (ck_key w) (ck_index w) (ck_button w) now sv = (r, sv\<lparr>sv_mixer := mx\<rparr>)" by (rule enqueue_frame)
  have ok: "engine_ok (front_work (\<lambda>w. w\<lparr>ck_phase := CP_ReleaseInflight\<rparr>) ((sv\<lparr>sv_mixer := mx\<rparr>)\<lparr>sv_scheduled := 0\<rparr>))"
    using assms by (intro engine_front) (simp_all add: pressed_phase_def)
  have "engine_ok (front_work (\<lambda>w. w\<lparr>ck_phase := CP_AwaitRelease\<rparr>)
      ((sv\<lparr>sv_mixer := mx\<rparr>)\<lparr>sv_scheduled := sv_scheduled sv\<rparr>))"
    using assms by (intro engine_front) (simp_all add: pressed_phase_def z)
  hence wait: "engine_ok (front_work (\<lambda>w. w\<lparr>ck_phase := CP_AwaitRelease\<rparr>) (sv\<lparr>sv_mixer := mx\<rparr>))"
    by simp
  show ?thesis
    using ok wait by (simp add: unpress_tick_def Let_def z z0 e split: enqueue_result.split)
qed

lemma engine_scheduler:
  assumes "engine_ok sv"
  shows "engine_ok (scheduler_tick now sv)"
  using engine_release_tick [OF assms]
  by (auto simp: scheduler_tick_def Let_def engine_press_tick engine_unpress_tick split: list.split)

lemma engine_telemetry: "engine_ok sv \<Longrightarrow> engine_ok (telemetry_tick now sv)"
  by (auto simp: telemetry_tick_def Let_def engine_ok_def split: prod.split)


subsection \<open>Datagrams\<close>

lemma engine_fields [simp]:
  "engine_ok (sv\<lparr>sv_owner := p\<rparr>) = engine_ok sv" "engine_ok (sv\<lparr>sv_owned := x\<rparr>) = engine_ok sv"
  "engine_ok (sv\<lparr>sv_last := t\<rparr>) = engine_ok sv" "engine_ok (sv\<lparr>sv_sessions := ss\<rparr>) = engine_ok sv"
  "engine_ok (sv\<lparr>sv_cache := cs\<rparr>) = engine_ok sv" "engine_ok (sv\<lparr>sv_accepted := t\<rparr>) = engine_ok sv"
  "engine_ok (sv\<lparr>sv_replay := es\<rparr>) = engine_ok sv" "engine_ok (sv\<lparr>sv_subscription := sub\<rparr>) = engine_ok sv"
  "engine_ok (sv\<lparr>sv_subscriber := p\<rparr>) = engine_ok sv" "engine_ok (sv\<lparr>sv_last_telemetry := t\<rparr>) = engine_ok sv"
  "engine_ok (send_packet q bs sv) = engine_ok sv" "engine_ok (reply q str sv) = engine_ok sv"
  "engine_ok (send_ack q k b st m n v sv) = engine_ok sv" "engine_ok (send_cached c st sv) = engine_ok sv"
  "engine_ok (refuse_click q r st sv) = engine_ok sv" "engine_ok (reject_move now q mr ms sv) = engine_ok sv"
  "engine_ok (update_cache k f sv) = engine_ok sv"
  by (simp_all add: engine_ok_def)

lemma engine_owner [simp]: "engine_ok (set_owner p now sv) = engine_ok sv"
  and engine_evict [simp]: "engine_ok (remove_old_cache sv) = engine_ok sv"
  and engine_steer [simp]: "engine_ok (steer_mover q sv) = engine_ok sv"
  by (simp_all add: set_owner_def remove_old_cache_def steer_mover_def Let_def engine_ok_def)

lemma set_owner_fields [simp]:
  "sv_work (set_owner p now sv) = sv_work sv" "sv_mover (set_owner p now sv) = sv_mover sv"
  "sv_mixer (set_owner p now sv) = sv_mixer sv" "cache_keys (set_owner p now sv) = cache_keys sv"
  "sv_persistent (set_owner p now sv) = sv_persistent sv" "sv_scheduled (set_owner p now sv) = sv_scheduled sv"
  "sv_release_pending (set_owner p now sv) = sv_release_pending sv" "sv_accepted (set_owner p now sv) = sv_accepted sv"
  "sv_release_inflight (set_owner p now sv) = sv_release_inflight sv"
  "sv_release_key (set_owner p now sv) = sv_release_key sv"
  by (simp_all add: set_owner_def)

lemma evict_fields [simp]:
  "sv_work (remove_old_cache sv) = sv_work sv" "sv_mover (remove_old_cache sv) = sv_mover sv"
  "sv_mixer (remove_old_cache sv) = sv_mixer sv" "sv_persistent (remove_old_cache sv) = sv_persistent sv"
  "sv_scheduled (remove_old_cache sv) = sv_scheduled sv" "sv_accepted (remove_old_cache sv) = sv_accepted sv"
  "sv_release_pending (remove_old_cache sv) = sv_release_pending sv" "sv_sessions (remove_old_cache sv) = sv_sessions sv"
  "sv_release_inflight (remove_old_cache sv) = sv_release_inflight sv"
  "sv_release_key (remove_old_cache sv) = sv_release_key sv"
  by (simp_all add: remove_old_cache_def)

lemma engine_admit:
  assumes "engine_ok sv" and "sv_work sv = []" and "sv_persistent sv = 0" and "\<not> sv_release_pending sv"
  shows "engine_ok (admit_move now from r e sv)"
proof -
  have started: "engine_ok (x\<lparr>sv_mover := m\<rparr>)"
    if "engine_ok x" "sv_work x = []" "sv_persistent x = 0" "\<not> sv_release_pending x" for x m
    using that by (simp add: engine_ok_def)
  show ?thesis using assms
    by (auto simp: admit_move_def Let_def intro!: started split: prod.split)
qed

lemma engine_handle_move: "engine_ok sv \<Longrightarrow> engine_ok (handle_move now from data sv)"
  by (auto simp: handle_move_def Let_def move_refusal_def intro!: engine_admit split: option.split prod.split if_splits)

lemma accept_record_cases:
  obtains "cache_full (remove_old_cache sv)" "accept_record r from n sv = (None, remove_old_cache sv)"
  | c where "\<not> cache_full (remove_old_cache sv)" "cc_key c = (cr_session r, cr_command r)"
      "accept_record r from n sv = (Some c, (remove_old_cache sv)\<lparr>sv_cache := sv_cache (remove_old_cache sv) @ [c]\<rparr>)"
  by (cases "cache_full (remove_old_cache sv)") (auto simp: accept_record_def Let_def)

lemma engine_append':
  assumes "engine_ok sv" and "\<not> mover_active (sv_mover sv)" and "ck_phase w = CP_AwaitPress" and "ws = sv_work sv @ [w]"
  shows "engine_ok (sv\<lparr>sv_work := ws\<rparr>)"
  using engine_append assms by blast

lemma engine_schedule:
  assumes "engine_ok sv" and "\<not> mover_active (sv_mover sv)"
  shows "engine_ok (schedule_click now from r e sv)"
proof -
  obtain ok ss where ad: "session_admit (sv_sessions (remove_old_cache sv)) (cr_session r) now False
      (session_protected (remove_old_cache sv)) = (ok, ss)" by fastforce
  have await: "ck_phase (click_of_request r now) = CP_AwaitPress" by (simp add: click_of_request_def no_work_def)
  show ?thesis
    by (rule accept_record_cases [of "(remove_old_cache sv)\<lparr>sv_sessions := ss\<rparr>" r "from" "cr_count r"])
      (use assms ad await in \<open>auto simp: schedule_click_def Let_def intro!: engine_append'\<close>)
qed

lemma engine_release_all: "engine_ok sv \<Longrightarrow> engine_ok (release_all now from r sv)"
  by (auto simp: release_all_def Let_def accept_record_def split: prod.split option.split)

lemma engine_handle_click: "engine_ok sv \<Longrightarrow> engine_ok (handle_click now from data sv)"
  by (auto simp: handle_click_def Let_def invalid_click_def click_refusal_def engine_release_all
      intro!: engine_schedule split: option.split prod.split if_splits)

lemma engine_persistent:
  assumes "engine_ok sv" and "\<not> mover_active (sv_mover sv)"
  shows "engine_ok (sv\<lparr>sv_persistent := b\<rparr>)"
  using assms by (simp add: engine_ok_def)

lemma engine_movement: 
  assumes "engine_ok sv"
  shows "engine_ok (handle_movement now from data sv)"
proof -
  obtain old es where st: "upx_stale (sv_replay sv) from (read_be32 data 4) now = (old, es)" by fastforce
  let ?s = "sv\<lparr>sv_replay := es\<rparr>"
  obtain r mx where e: "server_enqueue (upx_command data) (data ! 14) (sv_scheduled sv)
      (if data ! 14 \<noteq> sv_persistent sv then RK_Persistent else RK_Movement)
      (\<not> data ! 14 \<noteq> sv_persistent sv \<and> (cmd_x (upx_command data) \<noteq> 0 \<or> cmd_y (upx_command data) \<noteq> 0)
        \<and> cmd_wheel (upx_command data) = 0 \<and> cmd_pan (upx_command data) = 0) (0, 0) 0 0 now ?s
      = (r, ?s\<lparr>sv_mixer := mx\<rparr>)" by (rule enqueue_frame)
  show ?thesis
    using assms e by (auto simp: handle_movement_def Let_def st intro!: engine_persistent)
qed

lemma engine_text:
  assumes "engine_ok sv"
  shows "engine_ok (handle_command now from text sv)"
proof -
  have click: "engine_ok (text_click now from q e sv)" if "\<not> mover_active (sv_mover sv)" for q e
    using that assms by (auto simp: text_click_def Let_def no_work_def intro!: engine_append)
  have report: "engine_ok (text_report now from q e sv)" if "\<not> mover_active (sv_mover sv)" for q e
  proof -
    obtain r mx where "server_enqueue (tq_command q) (tq_next q) (sv_scheduled sv)
        (if tq_next q \<noteq> sv_persistent sv then RK_Persistent else RK_Movement) False (0, 0) 0 0 now sv
        = (r, sv\<lparr>sv_mixer := mx\<rparr>)" by (rule enqueue_frame)
    thus ?thesis using that assms by (auto simp: text_report_def intro!: engine_persistent)
  qed
  show ?thesis using assms click report
    by (auto simp: handle_command_def perform_text_def Let_def split: option.split prod.split sum.split)
qed

lemma engine_datagram: "engine_ok sv \<Longrightarrow> engine_ok (handle_datagram allowed now from data sv)"
  by (auto simp: handle_datagram_def handle_subscribe_def handle_query_def handle_text_def Let_def
      engine_handle_move engine_handle_click engine_movement engine_text split: option.split prod.split)

end
