(* ===== verification/Server_Run.thy ===== *)
theory Server_Run
  imports Server_Facts
begin

text \<open>
  The bounds of the tables, the runs of the server thread beside the other users of the mixer, the peer
  without the lease, and repeated commands.
\<close>

subsection \<open>The bounds of the tables\<close>

definition tables_ok :: "server \<Rightarrow> bool" where
  "tables_ok sv \<longleftrightarrow> length (sv_cache sv) \<le> MAX_CACHE_RECORDS \<and> distinct (cache_keys sv)
     \<and> length (sv_work sv) \<le> MAX_CLICK_COMMANDS"

text \<open>Most steps keep the keys of the cache and never lengthen the queue.\<close>

definition calm :: "server \<Rightarrow> server \<Rightarrow> bool" where
  "calm sv sv' \<longleftrightarrow> cache_keys sv' = cache_keys sv \<and> length (sv_work sv') \<le> length (sv_work sv)"

lemma length_keys: "length (cache_keys sv) = length (sv_cache sv)"
  by (simp add: cache_keys_def)

lemma tables_calm: "calm sv sv' \<Longrightarrow> tables_ok sv \<Longrightarrow> tables_ok sv'"
  by (simp add: calm_def tables_ok_def length_keys [symmetric])

lemma calm_refl [simp]: "calm sv sv"
  by (simp add: calm_def)

lemma calm_trans [trans]: "calm a b \<Longrightarrow> calm b c \<Longrightarrow> calm a c"
  by (simp add: calm_def)

lemma calmI: "cache_keys sv' = cache_keys sv \<Longrightarrow> sv_work sv' = sv_work sv \<Longrightarrow> calm sv sv'"
  by (simp add: calm_def)

lemma drop_owner_fields [simp]: "cache_keys (drop_owner sv) = cache_keys sv" "sv_work (drop_owner sv) = sv_work sv"
  by (simp_all add: drop_owner_def)

lemma calm_finish: "calm sv (finish_front st sv)"
  by (simp add: calm_def finish_front_def Let_def split: list.split)

lemma calm_release_written: "calm sv (release_written e w sv)"
proof -
  let ?w = "w\<lparr>ck_index := ck_index w + 1\<rparr>"
  let ?s = "update_cache (ck_key w) (\<lambda>c. c\<lparr>cc_completed := ck_index w + 1\<rparr>)
    ((front_work (\<lambda>_. ?w) sv)\<lparr>sv_completed := sv_completed sv + 1\<rparr>)"
  have s: "calm sv ?s" by (simp add: calm_def)
  show ?thesis
    using calm_finish [of sv] calm_trans [OF s calm_finish] s by (simp add: release_written_def Let_def calm_def)
qed

lemma calm_event: "calm sv (process_event now e sv)"
proof -
  define s where "s = sync_move (sv\<lparr>sv_mover := mover_event e (sv_mover sv)\<rparr>)"
  have s: "cache_keys s = cache_keys sv" "sv_work s = sv_work sv" by (simp_all add: s_def)
  have "calm s (process_event now e sv)"
    unfolding process_event_def Let_def s_def [symmetric]
    using calm_release_written [of s] by (auto simp: calm_def split: list.split)
  thus ?thesis using s by (simp add: calm_def)
qed

lemma calm_events: "calm sv (process_writer_events now sv)"
proof -
  have fold: "calm s (fold (process_event now) es s)" for es s
    by (induction es arbitrary: s) (auto intro: calm_trans calm_event)
  show ?thesis
    using fold [of "sv\<lparr>sv_mixer := _\<rparr>"] by (simp add: process_writer_events_def calm_def split: prod.split)
qed

lemma calm_generation: "calm sv (generation_check now sv)"
  and calm_overflow: "calm sv (overflow_check now sv)"
  and calm_watchdog: "calm sv (watchdog now sv)"
  and calm_mover: "calm sv (mover_step now sv)"
  by (simp_all add: calm_def generation_check_def overflow_check_def watchdog_def mover_step_def Let_def split: prod.split)

lemma calm_press_tick: "calm sv (press_tick now w sv)"
proof -
  obtain r mx where e: "server_enqueue no_command (sv_persistent sv) (sv_scheduled sv OR button_bit (ck_button w))
      RK_ClickPress False (ck_key w) (ck_index w) (ck_button w) now sv = (r, sv\<lparr>sv_mixer := mx\<rparr>)" by (rule enqueue_frame)
  show ?thesis
    using calm_finish [of sv] by (simp add: press_tick_def Let_def e calm_def split: enqueue_result.split)
qed

lemma calm_unpress_tick: "calm sv (unpress_tick now w sv)"
proof -
  obtain r mx where e: "server_enqueue no_command (sv_persistent sv) (sv_scheduled sv AND NOT (button_bit (ck_button w)))
      RK_ClickRelease False (ck_key w) (ck_index w) (ck_button w) now sv = (r, sv\<lparr>sv_mixer := mx\<rparr>)" by (rule enqueue_frame)
  show ?thesis by (simp add: unpress_tick_def Let_def e calm_def split: enqueue_result.split)
qed

lemma calm_release_tick: "calm sv (release_tick now sv)"
proof -
  obtain r mx where e: "server_enqueue no_command 0 0 RK_ReleaseAll False (sv_release_key sv) 0 0 now sv
      = (r, sv\<lparr>sv_mixer := mx\<rparr>)" by (rule enqueue_frame)
  show ?thesis by (simp add: release_tick_def e calm_def)
qed

lemma calm_scheduler: "calm sv (scheduler_tick now sv)"
  using calm_trans [OF calm_release_tick calm_press_tick] calm_trans [OF calm_release_tick calm_unpress_tick]
    calm_release_tick
  by (simp add: scheduler_tick_def Let_def split: list.split)

lemma calm_telemetry: "calm sv (telemetry_tick now sv)"
  by (simp add: calm_def telemetry_tick_def Let_def split: prod.split)

lemmas calm_head = calm_generation calm_events calm_overflow calm_watchdog calm_mover calm_scheduler calm_telemetry

subsection \<open>The cache\<close>

lemma extract_parts: "List.extract P xs = Some (a, x, b) \<Longrightarrow> xs = a @ x # b"
  by (simp add: extract_Some_iff)

lemma evict_preserves:
  assumes "P cs" and "\<And>a x b. P (a @ x # b) \<Longrightarrow> P (a @ b)"
  shows "P (evict_terminal n cs)"
  using assms(1)
proof (induction n arbitrary: cs)
  case (Suc n)
  show ?case
  proof (cases "List.extract cc_terminal cs")
    case (Some t)
    obtain a x b where t: "t = (a, x, b)" by (metis prod_cases3)
    hence "cs = a @ x # b" using Some extract_parts by simp
    hence "P (a @ b)" using Suc.prems assms(2) [of a x b] by simp
    thus ?thesis using Suc Some t by simp
  qed (simp add: Suc.prems)
qed simp

lemma evict_length: "length (evict_terminal n cs) \<le> length cs"
  by (rule evict_preserves) auto

lemma evict_set: "set (evict_terminal n cs) \<subseteq> set cs"
  by (rule evict_preserves) auto

lemma evict_distinct: "distinct (map f cs) \<Longrightarrow> distinct (map f (evict_terminal n cs))"
  by (rule evict_preserves) auto

lemma tables_evict:
  assumes "tables_ok sv"
  shows "tables_ok (remove_old_cache sv)" "set (cache_keys (remove_old_cache sv)) \<subseteq> set (cache_keys sv)"
  using assms evict_length [of "length (sv_cache sv)" "sv_cache sv"] evict_set [of "length (sv_cache sv)" "sv_cache sv"]
    evict_distinct [of cc_key "sv_cache sv" "length (sv_cache sv)"]
  by (auto simp: tables_ok_def cache_keys_def remove_old_cache_def)

text \<open>A record is added below the bound and under a new key.\<close>

lemma tables_record:
  assumes "tables_ok sv" and "\<not> cache_full sv" and "cs = sv_cache sv @ [c]" and "cc_key c \<notin> set (cache_keys sv)"
  shows "tables_ok (sv\<lparr>sv_cache := cs\<rparr>)"
  using assms by (auto simp: tables_ok_def cache_full_def cache_keys_def)

lemma cache_full_fields [simp]: "cache_full (sv\<lparr>sv_mover := m\<rparr>) = cache_full sv"
  by (simp add: cache_full_def)

lemma tables_fields [simp]:
  "tables_ok (sv\<lparr>sv_owner := p\<rparr>) = tables_ok sv" "tables_ok (sv\<lparr>sv_owned := x\<rparr>) = tables_ok sv"
  "tables_ok (sv\<lparr>sv_last := t\<rparr>) = tables_ok sv" "tables_ok (sv\<lparr>sv_sessions := ss\<rparr>) = tables_ok sv"
  "tables_ok (sv\<lparr>sv_tracked := t\<rparr>) = tables_ok sv" "tables_ok (sv\<lparr>sv_accepted := t\<rparr>) = tables_ok sv"
  "tables_ok (sv\<lparr>sv_replay := es\<rparr>) = tables_ok sv" "tables_ok (sv\<lparr>sv_subscription := sub\<rparr>) = tables_ok sv"
  "tables_ok (sv\<lparr>sv_subscriber := p\<rparr>) = tables_ok sv" "tables_ok (sv\<lparr>sv_last_telemetry := t\<rparr>) = tables_ok sv"
  "tables_ok (sv\<lparr>sv_mover := m\<rparr>) = tables_ok sv" "tables_ok (sv\<lparr>sv_mixer := mx\<rparr>) = tables_ok sv"
  "tables_ok (sv\<lparr>sv_persistent := bt\<rparr>) = tables_ok sv"
  "tables_ok (send_packet q bs sv) = tables_ok sv" "tables_ok (reply q str sv) = tables_ok sv"
  "tables_ok (send_ack q k b st x1 x2 v sv) = tables_ok sv" "tables_ok (send_cached c st sv) = tables_ok sv"
  "tables_ok (refuse_click q r st sv) = tables_ok sv" "tables_ok (reject_move now q mr ms sv) = tables_ok sv"
  "tables_ok (set_owner p now sv) = tables_ok sv"
  by (simp_all add: tables_ok_def length_keys [symmetric])

lemma tables_update [simp]:
  "(\<And>c. cc_key (f c) = cc_key c) \<Longrightarrow> tables_ok (update_cache k f sv) = tables_ok sv"
  by (simp add: tables_ok_def length_keys [symmetric])

lemma tables_steer [simp]: "tables_ok (steer_mover q sv) = tables_ok sv"
  by (simp add: steer_mover_def Let_def)

lemma tables_reset: "tables_ok sv \<Longrightarrow> tables_ok (begin_reset a k now sv)"
  by (simp add: tables_ok_def length_keys [symmetric])

lemma tables_reset_all: "tables_ok sv \<Longrightarrow> tables_ok (reset_all now sv)"
  by (simp add: reset_all_def tables_reset)

lemma tables_admit:
  assumes "tables_ok sv" and "(mr_session r, mr_command r) \<notin> set (cache_keys sv)"
  shows "tables_ok (admit_move now from r e sv)"
  using tables_evict [OF assms(1)] assms(2)
  by (auto simp: admit_move_def Let_def intro!: tables_record split: prod.split)

lemma tables_accept:
  assumes "tables_ok sv" and "(cr_session r, cr_command r) \<notin> set (cache_keys sv)"
    and "accept_record r from n sv = (c, sv')"
  shows "tables_ok sv'"
  using tables_evict [OF assms(1)] assms(2,3)
  by (auto simp: accept_record_def Let_def intro!: tables_record split: if_splits)

lemma accept_work: "accept_record r from n sv = (c, sv') \<Longrightarrow> sv_work sv' = sv_work sv"
  by (auto simp: accept_record_def Let_def split: if_splits)

lemma tables_push:
  "tables_ok sv \<Longrightarrow> length (sv_work sv) < MAX_CLICK_COMMANDS \<Longrightarrow> ws = sv_work sv @ [w] \<Longrightarrow> tables_ok (sv\<lparr>sv_work := ws\<rparr>)"
  by (simp add: tables_ok_def)


lemma tables_schedule:
  assumes "tables_ok sv" and "(cr_session r, cr_command r) \<notin> set (cache_keys sv)"
    and "length (sv_work sv) < MAX_CLICK_COMMANDS"
  shows "tables_ok (schedule_click now from r e sv)"
proof -
  obtain ok ss where ad: "session_admit (sv_sessions (remove_old_cache sv)) (cr_session r) now False
      (session_protected (remove_old_cache sv)) = (ok, ss)" by fastforce
  let ?s = "(remove_old_cache sv)\<lparr>sv_sessions := ss\<rparr>"
  obtain c s where ac: "accept_record r from (cr_count r) ?s = (c, s)" by fastforce
  have s: "tables_ok ?s" "(cr_session r, cr_command r) \<notin> set (cache_keys ?s)"
    using tables_evict [OF assms(1)] assms(2) by auto
  have "tables_ok s" "length (sv_work s) < MAX_CLICK_COMMANDS"
    using tables_accept [OF s ac] accept_work [OF ac] assms(3) by simp_all
  thus ?thesis using tables_evict [OF assms(1)] ac ad
    by (auto simp: schedule_click_def Let_def intro!: tables_push split: option.split)
qed

lemma tables_release_all:
  assumes "tables_ok sv" and "(cr_session r, cr_command r) \<notin> set (cache_keys sv)"
  shows "tables_ok (release_all now from r sv)"
proof -
  obtain ok ss where ad: "session_admit (sv_sessions (remove_old_cache sv)) (cr_session r) now True
      (session_protected (remove_old_cache sv)) = (ok, ss)" by fastforce
  let ?s = "(remove_old_cache sv)\<lparr>sv_sessions := ss\<rparr>"
  obtain c s where ac: "accept_record r from 0 ?s = (c, s)" by fastforce
  have s: "tables_ok ?s" "(cr_session r, cr_command r) \<notin> set (cache_keys ?s)"
    using tables_evict [OF assms(1)] assms(2) by auto
  show ?thesis using tables_evict [OF assms(1)] tables_accept [OF s ac] ac ad
    by (auto simp: release_all_def Let_def intro!: tables_reset split: option.split)
qed

lemma new_key: "find_cache k sv = None \<Longrightarrow> k \<notin> set (cache_keys sv)"
  by (simp add: find_cache_None)

lemma tables_move: "tables_ok sv \<Longrightarrow> tables_ok (handle_move now from data sv)"
  by (auto simp: handle_move_def Let_def intro!: tables_admit dest: new_key split: option.split prod.split)

lemma tables_new_click:
  assumes "tables_ok sv" and "(cr_session r, cr_command r) \<notin> set (cache_keys sv)"
  shows "tables_ok (case click_refusal r e sv of Some st \<Rightarrow> refuse_click from r st sv | None \<Rightarrow> schedule_click now from r e' sv)"
  using assms tables_schedule [OF assms] by (auto simp: click_refusal_def split: option.split if_splits)

lemma tables_click: "tables_ok sv \<Longrightarrow> tables_ok (handle_click now from data sv)"
proof (cases "click_parse data")
  case (Some r)
  assume ok: "tables_ok sv"
  show ?thesis
  proof (cases "find_cache (cr_session r, cr_command r) sv")
    case None
    thus ?thesis using ok Some
      by (auto simp: handle_click_def Let_def intro!: tables_new_click tables_release_all dest: new_key split: prod.split)
  qed (simp add: handle_click_def Some ok Let_def)
qed (simp add: handle_click_def invalid_click_def Let_def)

lemma tables_movement: "tables_ok sv \<Longrightarrow> tables_ok (handle_movement now from data sv)"
  by (auto simp: handle_movement_def server_enqueue_def Let_def split: prod.split)

lemma tables_text_click: "tables_ok sv \<Longrightarrow> tables_ok (text_click now from q e sv)"
  by (auto simp: text_click_def Let_def intro!: tables_push)

lemma tables_text_report: "tables_ok sv \<Longrightarrow> tables_ok (text_report now from q e sv)"
  by (auto simp: text_report_def server_enqueue_def split: prod.split)

lemma tables_text: "tables_ok sv \<Longrightarrow> tables_ok (handle_command now from text sv)"
  by (simp add: handle_command_def perform_text_def tables_text_click tables_text_report tables_reset_all Let_def
      split: option.split prod.split sum.split)

lemma tables_datagram: "tables_ok sv \<Longrightarrow> tables_ok (handle_datagram allowed now from data sv)"
  by (auto simp: handle_datagram_def handle_subscribe_def handle_query_def handle_text_def Let_def
      tables_move tables_click tables_movement tables_text split: option.split prod.split)

subsection \<open>Runs\<close>

text \<open>
  The thread runs its loop stage by stage; between two stages the other users of the mixer may change it
  in any way, time may be anything and any datagram may come. So every interleaving of the real loop is a run.
\<close>

inductive server_step :: "server \<Rightarrow> server \<Rightarrow> bool" where
  shared: "server_step sv (sv\<lparr>sv_mixer := mx\<rparr>)"
| generation: "server_step sv (generation_check now sv)"
| events: "server_step sv (process_writer_events now sv)"
| overflow: "server_step sv (overflow_check now sv)"
| lease: "server_step sv (watchdog now sv)"
| move: "server_step sv (mover_step now sv)"
| schedule: "server_step sv (scheduler_tick now sv)"
| telemetry: "server_step sv (telemetry_tick now sv)"
| datagram: "server_step sv (handle_datagram allowed now from data sv)"

inductive server_runs :: "server \<Rightarrow> bool" where
  start: "server_runs (server_init epoch now mx)"
| step: "server_runs sv \<Longrightarrow> server_step sv sv' \<Longrightarrow> server_runs sv'"

lemmas engine_stages = engine_generation engine_events engine_overflow engine_watchdog engine_mover engine_scheduler
  engine_telemetry engine_datagram

lemma server_step_ok:
  assumes "server_step sv sv'"
  shows "engine_ok sv \<Longrightarrow> engine_ok sv'" "tables_ok sv \<Longrightarrow> tables_ok sv'"
  using assms by (auto elim!: server_step.cases simp: engine_stages tables_datagram intro: tables_calm [OF calm_head(1)]
      tables_calm [OF calm_head(2)] tables_calm [OF calm_head(3)] tables_calm [OF calm_head(4)] tables_calm [OF calm_head(5)]
      tables_calm [OF calm_head(6)] tables_calm [OF calm_head(7)])

lemma server_runs_ok:
  assumes "server_runs sv"
  shows "engine_ok sv" "tables_ok sv"
  using assms
proof (induction)
  case (start epoch now mx)
  { case 1 show ?case by (simp add: engine_ok_def server_init_def no_mover_def no_ack_def mover_active_def) }
  { case 2 show ?case by (simp add: tables_ok_def server_init_def cache_keys_def) }
qed (blast dest: server_step_ok)+

text \<open>One turn of the loop is such a sequence.\<close>

lemma server_runs_iteration:
  assumes "server_runs sv"
  shows "server_runs (server_iteration allowed now input sv)"
proof -
  have "server_runs (loop_head now sv)"
    unfolding loop_head_def
    by (intro step [OF _ telemetry] step [OF _ schedule] step [OF _ move] step [OF _ lease] step [OF _ overflow]
        step [OF _ events] step [OF _ generation] assms)
  thus ?thesis by (auto simp: server_iteration_def Let_def split: option.split intro: step [OF _ datagram])
qed


subsection \<open>A peer without the lease\<close>

text \<open>An answer: at most one datagram to the asking peer, and possibly its telemetry subscription.\<close>

definition answered :: "peer \<Rightarrow> server \<Rightarrow> server \<Rightarrow> bool" where
  "answered from sv sv' \<longleftrightarrow> (\<exists>out sub who t.
     sv' = sv\<lparr>sv_out := sv_out sv @ out, sv_subscription := sub, sv_subscriber := who, sv_last_telemetry := t\<rparr>
     \<and> length out \<le> 1 \<and> fst ` set out \<subseteq> {from})"

lemma answered_nothing [simp]: "answered from sv sv"
  unfolding answered_def by (rule exI [of _ "[]"], cases sv) simp

lemma answered_send [simp]: "answered from sv (send_packet from bs sv)"
  unfolding answered_def send_packet_def by (rule exI [of _ "[(from, bs)]"], cases sv) simp

lemma answered_subscribe [simp]:
  "answered from sv (sv\<lparr>sv_subscription := sub\<rparr>)"
  "answered from sv (sv\<lparr>sv_subscription := sub, sv_subscriber := who, sv_last_telemetry := t\<rparr>)"
  unfolding answered_def by (rule exI [of _ "[]"], cases sv, simp)+

lemma answered_replies [simp]:
  "answered from sv (reply from s sv)" "answered from sv (send_ack from k b st x y v sv)"
  "answered from sv (refuse_click from r cs sv)" "answered from sv (reject_move now from q ms sv)"
  by (simp_all add: reply_def send_ack_def refuse_click_def reject_move_def)

lemma answered_datagram:
  assumes "sv_owned sv" and "sv_owner sv \<noteq> from"
  shows "answered from sv (handle_datagram allowed now from data sv)"
proof -
  have "answered from sv (handle_subscribe now from data sv)"
    by (simp add: handle_subscribe_def Let_def split: prod.split)
  moreover have "answered from sv (handle_query now from data sv)"
    by (simp add: handle_query_def Let_def split: option.split prod.split)
  moreover have "answered from sv (handle_move now from data sv)"
    using assms by (simp add: handle_move_def Let_def split: option.split)
  moreover have "answered from sv (handle_click now from data sv)"
    using assms by (simp add: handle_click_def invalid_click_def Let_def split: option.split)
  moreover have "answered from sv (handle_text now from data sv)"
    using assms by (simp add: handle_text_def Let_def)
  ultimately show ?thesis by (simp add: handle_datagram_def)
qed

subsection \<open>Repeated commands\<close>

text \<open>What drives the mouse: the mixer, the executor, the clicks, the buttons and the owed release.\<close>

definition drive :: "server \<Rightarrow> mixer \<times> mover \<times> click_work list \<times> u8 \<times> u8 \<times> bool \<times> bool \<times> key \<times> u64" where
  "drive sv = (sv_mixer sv, sv_mover sv, sv_work sv, sv_persistent sv, sv_scheduled sv, sv_release_pending sv,
     sv_release_inflight sv, sv_release_key sv, sv_accepted sv)"

lemma drive_quiet [simp]:
  "drive (sv\<lparr>sv_owner := p\<rparr>) = drive sv" "drive (sv\<lparr>sv_sessions := ss\<rparr>) = drive sv"
  "drive (sv\<lparr>sv_tracked := t\<rparr>) = drive sv" "drive (sv\<lparr>sv_subscription := sub\<rparr>) = drive sv"
  "drive (sv\<lparr>sv_subscriber := p\<rparr>) = drive sv" "drive (sv\<lparr>sv_last_telemetry := t\<rparr>) = drive sv"
  "drive (sv\<lparr>sv_cache := cs\<rparr>) = drive sv"
  "drive (send_packet q bs sv) = drive sv" "drive (reply q str sv) = drive sv"
  "drive (send_ack q k b st x y v sv) = drive sv" "drive (send_cached c st sv) = drive sv"
  "drive (refuse_click q r st sv) = drive sv" "drive (reject_move now q mr ms sv) = drive sv"
  "drive (set_owner p now sv) = drive sv" "drive (update_cache k f sv) = drive sv" "drive (remove_old_cache sv) = drive sv"
  by (simp_all add: drive_def)

lemma drive_steer: "drive a = drive b \<Longrightarrow> drive (steer_mover r a) = drive (steer_mover r b)"
  by (simp add: steer_mover_def drive_def Let_def)

lemma steer_twice: "drive (steer_mover r (steer_mover r sv)) = drive (steer_mover r sv)"
  by (auto simp: steer_mover_def drive_def Let_def mover_proceed_def mover_cancel_def)

lemma steer_execute: "mr_operation r = MO_Execute \<Longrightarrow> drive (steer_mover r sv) = drive sv"
  by (simp add: steer_mover_def)

text \<open>A known move command, or one that starts nothing, can only steer the transaction; an effective one is known after.\<close>

lemma move_known:
  assumes "move_parse data = Some r"
    and "(mr_session r, mr_command r) \<in> set (cache_keys sv) \<or> mr_operation r \<noteq> MO_Execute"
  shows "drive (handle_move now from data sv) \<in> {drive sv, drive (steer_mover r sv)}"
proof -
  have "drive (steer_mover r (update_cache k f sv)) = drive (steer_mover r sv)" for k f by (rule drive_steer) simp
  thus ?thesis
    using assms by (auto simp: handle_move_def Let_def find_cache_None split: option.split prod.split)
qed

lemma key_recorded: "k \<in> set (cache_keys (sv\<lparr>sv_cache := cs @ [c]\<rparr>))" if "cc_key c = k"
  using that by (simp add: cache_keys_def)

lemma admit_effective:
  assumes "drive (admit_move now from r e sv) \<noteq> drive sv"
  shows "(mr_session r, mr_command r) \<in> set (cache_keys (admit_move now from r e sv))"
  using assms by (auto simp: admit_move_def Let_def cache_keys_def set_owner_def split: prod.splits if_splits)

lemma move_effective:
  assumes "drive (handle_move now from data sv) \<noteq> drive sv" and "move_parse data = Some r"
    and "mr_operation r = MO_Execute"
  shows "(mr_session r, mr_command r) \<in> set (cache_keys (handle_move now from data sv))"
proof (cases "find_cache (mr_session r, mr_command r) sv")
  case (Some c)
  hence "drive (handle_move now from data sv) \<in> {drive sv, drive (steer_mover r sv)}"
    using move_known [OF assms(2)] by (metis find_cache_None option.distinct(1))
  thus ?thesis using assms steer_execute [of r sv] by simp
next
  case None
  thus ?thesis
    using assms admit_effective [of now "from" r "endpoint_snapshot now (sv_mixer sv)" "sv\<lparr>sv_sessions := _\<rparr>"]
    by (auto simp: handle_move_def Let_def split: prod.splits option.splits if_splits)
qed

lemma move_once:
  assumes "drive (handle_move now from data sv) \<noteq> drive sv"
  shows "drive (handle_move now' from' data (handle_move now from data sv)) = drive (handle_move now from data sv)"
proof (cases "move_parse data")
  case (Some r)
  let ?s = "handle_move now from data sv"
  show ?thesis
  proof (cases "mr_operation r = MO_Execute")
    case True
    show ?thesis
      using move_known [OF Some, of ?s now' from'] move_effective [OF assms Some True] steer_execute [OF True] by auto
  next
    case False
    have "drive ?s = drive (steer_mover r sv)" using move_known [OF Some, of sv now "from"] False assms by auto
    moreover have "drive (steer_mover r ?s) = drive (steer_mover r (steer_mover r sv))"
      using calculation by (rule drive_steer)
    ultimately show ?thesis
      using move_known [OF Some, of ?s now' from'] False steer_twice [of r sv] by auto
  qed
qed (use assms in \<open>simp add: handle_move_def\<close>)

lemma click_known:
  assumes "click_parse data = Some r" and "(cr_session r, cr_command r) \<in> set (cache_keys sv)"
  shows "drive (handle_click now from data sv) = drive sv"
  using assms by (auto simp: handle_click_def Let_def find_cache_None split: option.split)

lemma schedule_effective:
  assumes "drive (schedule_click now from r e sv) \<noteq> drive sv"
  shows "(cr_session r, cr_command r) \<in> set (cache_keys (schedule_click now from r e sv))"
  using assms
  by (auto simp: schedule_click_def accept_record_def Let_def cache_keys_def set_owner_def split: prod.splits if_splits option.splits)

lemma release_effective:
  assumes "drive (release_all now from r sv) \<noteq> drive sv"
  shows "(cr_session r, cr_command r) \<in> set (cache_keys (release_all now from r sv))"
  using assms
  by (auto simp: release_all_def accept_record_def Let_def key_recorded split: prod.splits if_splits option.splits)

lemma click_once:
  assumes "drive (handle_click now from data sv) \<noteq> drive sv"
  shows "drive (handle_click now' from' data (handle_click now from data sv)) = drive (handle_click now from data sv)"
proof (cases "click_parse data")
  case (Some r)
  have "(cr_session r, cr_command r) \<in> set (cache_keys (handle_click now from data sv))"
    using assms Some click_known [OF Some, of sv] schedule_effective [of now "from" r _ "sv\<lparr>sv_sessions := _\<rparr>"]
      release_effective [of now "from" r "sv\<lparr>sv_sessions := _\<rparr>"]
    by (auto simp: handle_click_def Let_def split: prod.splits option.splits if_splits)
  thus ?thesis by (rule click_known [OF Some])
qed (use assms in \<open>simp add: handle_click_def invalid_click_def Let_def\<close>)

lemma subscribe_query_drive: "drive (handle_subscribe now from data sv) = drive sv" "drive (handle_query now from data sv) = drive sv"
  by (auto simp: handle_subscribe_def handle_query_def Let_def split: prod.split option.split)

lemma datagram_once:
  assumes "magic data ''UPC1'' \<or> magic data ''UPM1''" and "drive (handle_datagram allowed now from data sv) \<noteq> drive sv"
  shows "drive (handle_datagram allowed' now' from' data (handle_datagram allowed now from data sv))
    = drive (handle_datagram allowed now from data sv)"
  using assms by (auto simp: handle_datagram_def subscribe_query_drive move_once click_once)

end
