(* ===== verification/Server_Clicks.thy ===== *)
theory Server_Clicks
  imports Server_Run
begin

text \<open>
  The clicks the server schedules: their bounds, how often they press and how long they hold, in every run.
\<close>

subsection \<open>The invariant of a queued click\<close>

definition work_ok :: "click_work \<Rightarrow> bool" where
  "work_ok w \<longleftrightarrow> ck_index w < ck_count w \<and> ck_count w \<le> 10000 \<and> 1 \<le> ck_button w \<and> ck_button w \<le> 8
     \<and> (ck_phase w = CP_Holding \<longrightarrow> \<not> ck_blocked w \<and> ck_due w = after (ck_press_written w) (ck_press_us w))"

definition clicks_ok :: "server \<Rightarrow> bool" where
  "clicks_ok sv \<longleftrightarrow> (\<forall>w \<in> set (sv_work sv). work_ok w)"

lemma clicks_ok_work: "sv_work sv' = sv_work sv \<Longrightarrow> clicks_ok sv' = clicks_ok sv"
  by (simp add: clicks_ok_def)

lemma clicks_ok_empty: "sv_work sv = [] \<Longrightarrow> clicks_ok sv"
  by (simp add: clicks_ok_def)

lemma clicks_fields [simp]:
  "clicks_ok (sv\<lparr>sv_mover := m\<rparr>) = clicks_ok sv" "clicks_ok (sv\<lparr>sv_mixer := mx\<rparr>) = clicks_ok sv"
  "clicks_ok (sv\<lparr>sv_scheduled := b\<rparr>) = clicks_ok sv" "clicks_ok (sv\<lparr>sv_tracked := t\<rparr>) = clicks_ok sv"
  "clicks_ok (sv\<lparr>sv_persistent := b\<rparr>) = clicks_ok sv" "clicks_ok (sv\<lparr>sv_sessions := ss\<rparr>) = clicks_ok sv"
  "clicks_ok (sv\<lparr>sv_cache := cs\<rparr>) = clicks_ok sv" "clicks_ok (sv\<lparr>sv_accepted := t\<rparr>) = clicks_ok sv"
  "clicks_ok (sv\<lparr>sv_completed := t\<rparr>) = clicks_ok sv" "clicks_ok (sv\<lparr>sv_replay := es\<rparr>) = clicks_ok sv"
  "clicks_ok (sv\<lparr>sv_release_pending := x\<rparr>) = clicks_ok sv" "clicks_ok (sv\<lparr>sv_release_inflight := x\<rparr>) = clicks_ok sv"
  "clicks_ok (sv\<lparr>sv_release_key := k\<rparr>) = clicks_ok sv" "clicks_ok (sv\<lparr>sv_subscription := sub\<rparr>) = clicks_ok sv"
  "clicks_ok (sv\<lparr>sv_subscriber := p\<rparr>) = clicks_ok sv" "clicks_ok (sv\<lparr>sv_last_telemetry := t\<rparr>) = clicks_ok sv"
  "clicks_ok (sync_move sv) = clicks_ok sv" "clicks_ok (make_terminal k st sv) = clicks_ok sv"
  "clicks_ok (drop_owner sv) = clicks_ok sv" "clicks_ok (update_cache k f sv) = clicks_ok sv"
  "clicks_ok (send_packet q bs sv) = clicks_ok sv" "clicks_ok (reply q str sv) = clicks_ok sv"
  "clicks_ok (send_ack q k bt st n1 n2 v sv) = clicks_ok sv" "clicks_ok (send_cached c st sv) = clicks_ok sv"
  "clicks_ok (refuse_click q r st sv) = clicks_ok sv" "clicks_ok (reject_move now q mr ms sv) = clicks_ok sv"
  "clicks_ok (set_owner q now sv) = clicks_ok sv" "clicks_ok (remove_old_cache sv) = clicks_ok sv"
  "clicks_ok (reset_all now sv)" "clicks_ok (begin_reset a k now sv)"
  by (simp_all add: clicks_ok_def)

lemma clicks_finish: "clicks_ok sv \<Longrightarrow> clicks_ok (finish_front st sv)"
  by (auto simp: clicks_ok_def finish_front_def Let_def split: list.split)

lemma clicks_front:
  assumes "clicks_ok sv" and "sv_work sv = w # ws" and "work_ok w \<Longrightarrow> work_ok (f w)"
  shows "clicks_ok (front_work f sv)"
  using assms by (simp add: clicks_ok_def front_work_def)

lemma clicks_append: "clicks_ok sv \<Longrightarrow> work_ok w \<Longrightarrow> ws = sv_work sv @ [w] \<Longrightarrow> clicks_ok (sv\<lparr>sv_work := ws\<rparr>)"
  by (auto simp: clicks_ok_def)

text \<open>The changes the scheduler makes to the front click.\<close>

lemma work_phase: "work_ok w \<Longrightarrow> p \<noteq> CP_Holding \<Longrightarrow> work_ok (w\<lparr>ck_phase := p\<rparr>)"
  by (simp add: work_ok_def)

lemma work_pressed: "work_ok w \<Longrightarrow> work_ok (press_written e w)"
  by (simp add: work_ok_def press_written_def)

lemma work_again:
  assumes "work_ok w" and "\<not> ck_index w + 1 \<ge> ck_count w"
  shows "work_ok (w\<lparr>ck_index := ck_index w + 1, ck_phase := CP_AwaitPress, ck_blocked := False, ck_due := d\<rparr>)"
  using assms by (simp add: work_ok_def)

lemma clicks_release_written:
  assumes "clicks_ok sv" and "sv_work sv = w # ws"
  shows "clicks_ok (release_written e w sv)"
proof -
  let ?w = "w\<lparr>ck_index := ck_index w + 1\<rparr>"
  let ?s = "update_cache (ck_key w) (\<lambda>c. c\<lparr>cc_completed := ck_index w + 1\<rparr>)
    ((front_work (\<lambda>_. ?w) sv)\<lparr>sv_completed := sv_completed sv + 1\<rparr>)"
  have s: "sv_work ?s = ?w # ws" and tl: "\<forall>w \<in> set ws. work_ok w" and w: "work_ok w"
    using assms by (simp_all add: front_work_def clicks_ok_def)
  have last: "clicks_ok (finish_front CS_Completed ?s)"
    using s tl by (simp add: finish_front_def clicks_ok_def Let_def)
  have again: "clicks_ok (front_work (\<lambda>w. w\<lparr>ck_phase := CP_AwaitPress, ck_blocked := False, ck_due := d w\<rparr>) ?s)"
    if "\<not> ck_index w + 1 \<ge> ck_count w" for d
    using work_again [OF w that] s tl by (simp add: front_work_def [of _ ?s] clicks_ok_def)
  show ?thesis
    using clicks_finish [OF assms(1)] last again by (simp add: release_written_def Let_def)
qed

lemma clicks_event:
  assumes "clicks_ok sv"
  shows "clicks_ok (process_event now e sv)"
proof -
  define s where "s = sync_move (sv\<lparr>sv_mover := mover_event e (sv_mover sv)\<rparr>)"
  have s: "clicks_ok s" using assms by (simp add: s_def)
  show ?thesis
    unfolding process_event_def Let_def s_def [symmetric]
    using s clicks_front [OF s] work_pressed clicks_release_written [OF s] by (auto split: list.split)
qed

lemma clicks_events: "clicks_ok sv \<Longrightarrow> clicks_ok (process_writer_events now sv)"
proof -
  assume "clicks_ok sv"
  moreover have "clicks_ok s \<Longrightarrow> clicks_ok (fold (process_event now) es s)" for es s
    by (induction es arbitrary: s) (simp_all add: clicks_event)
  ultimately show ?thesis by (simp add: process_writer_events_def split: prod.split)
qed

subsection \<open>The stages of the loop\<close>

lemma clicks_generation: "clicks_ok sv \<Longrightarrow> clicks_ok (generation_check now sv)"
  and clicks_overflow: "clicks_ok sv \<Longrightarrow> clicks_ok (overflow_check now sv)"
  and clicks_watchdog: "clicks_ok sv \<Longrightarrow> clicks_ok (watchdog now sv)"
  and clicks_mover: "clicks_ok sv \<Longrightarrow> clicks_ok (mover_step now sv)"
  by (simp_all add: generation_check_def overflow_check_def watchdog_def mover_step_def Let_def split: prod.split)

lemma clicks_telemetry: "clicks_ok sv \<Longrightarrow> clicks_ok (telemetry_tick now sv)"
  by (simp add: clicks_ok_def telemetry_tick_def Let_def split: prod.split)

lemma clicks_release_tick: "clicks_ok (release_tick now sv) = clicks_ok sv" "sv_work (release_tick now sv) = sv_work sv"
proof -
  obtain r mx where e: "server_enqueue no_command 0 0 RK_ReleaseAll False (sv_release_key sv) 0 0 now sv
      = (r, sv\<lparr>sv_mixer := mx\<rparr>)" by (rule enqueue_frame)
  show "clicks_ok (release_tick now sv) = clicks_ok sv" "sv_work (release_tick now sv) = sv_work sv"
    by (simp_all add: release_tick_def e)
qed

lemma clicks_press_tick:
  assumes "clicks_ok sv" and "sv_work sv = w # ws"
  shows "clicks_ok (press_tick now w sv)"
proof -
  obtain r mx where e: "server_enqueue no_command (sv_persistent sv) (sv_scheduled sv OR button_bit (ck_button w))
      RK_ClickPress False (ck_key w) (ck_index w) (ck_button w) now sv = (r, sv\<lparr>sv_mixer := mx\<rparr>)" by (rule enqueue_frame)
  show ?thesis
    using assms clicks_finish [OF assms(1)]
    by (auto simp: press_tick_def Let_def e intro!: clicks_front work_phase split: enqueue_result.split)
qed

lemma clicks_unpress_tick:
  assumes "clicks_ok sv" and "sv_work sv = w # ws"
  shows "clicks_ok (unpress_tick now w sv)"
proof -
  obtain r mx where e: "server_enqueue no_command (sv_persistent sv) (sv_scheduled sv AND NOT (button_bit (ck_button w)))
      RK_ClickRelease False (ck_key w) (ck_index w) (ck_button w) now sv = (r, sv\<lparr>sv_mixer := mx\<rparr>)" by (rule enqueue_frame)
  show ?thesis
    using assms
    by (auto simp: unpress_tick_def Let_def e intro!: clicks_front work_phase split: enqueue_result.split)
qed

lemma clicks_scheduler: "clicks_ok sv \<Longrightarrow> clicks_ok (scheduler_tick now sv)"
  using clicks_press_tick [of "release_tick now sv"] clicks_unpress_tick [of "release_tick now sv"]
  by (auto simp: scheduler_tick_def Let_def clicks_release_tick split: list.split)

subsection \<open>Datagrams\<close>

lemma clicks_admit: "clicks_ok sv \<Longrightarrow> clicks_ok (admit_move now from r e sv)"
  by (auto simp: admit_move_def Let_def split: prod.split)

lemma clicks_move: "clicks_ok sv \<Longrightarrow> clicks_ok (handle_move now from data sv)"
  by (auto simp: handle_move_def Let_def steer_mover_def intro!: clicks_admit split: option.split prod.split)

lemma button_positive: "1 \<le> (b :: u8) \<longleftrightarrow> b \<noteq> 0"
  by (auto simp: word_le_nat_alt Suc_le_eq unat_gt_0)

lemma work_of_request:
  assumes "click_refusal r e sv = None"
  shows "work_ok (click_of_request r now)"
  using assms by (auto simp: click_refusal_def work_ok_def click_of_request_def no_work_def button_positive word_gt_0 not_less split: if_splits)

lemma clicks_accept: "accept_record r from n sv = (c, sv') \<Longrightarrow> clicks_ok sv \<Longrightarrow> clicks_ok sv'"
  using clicks_ok_work accept_work by blast

lemma clicks_schedule:
  assumes "clicks_ok sv" and "click_refusal r e' sv' = None"
  shows "clicks_ok (schedule_click now from r e sv)"
proof -
  have ad: "clicks_ok s" if "accept_record r from (cr_count r) ((remove_old_cache sv)\<lparr>sv_sessions := ss\<rparr>) = (c, s)" for ss c s
    using clicks_accept [OF that] assms(1) by simp
  show ?thesis
    using assms(1) work_of_request [OF assms(2)]
    by (auto simp: schedule_click_def Let_def dest: ad intro!: clicks_append split: prod.split option.split)
qed

lemma clicks_release_all: "clicks_ok sv \<Longrightarrow> clicks_ok (release_all now from r sv)"
  by (auto simp: release_all_def Let_def accept_record_def split: prod.split option.split)

lemma clicks_click: "clicks_ok sv \<Longrightarrow> clicks_ok (handle_click now from data sv)"
  by (auto simp: handle_click_def Let_def invalid_click_def intro!: clicks_schedule clicks_release_all
      split: option.split prod.split)

lemma clicks_movement: "clicks_ok sv \<Longrightarrow> clicks_ok (handle_movement now from data sv)"
  by (auto simp: handle_movement_def server_enqueue_def Let_def split: prod.split)

lemma text_button:
  assumes "1 \<le> b" and "b \<le> (8 :: int)"
  shows "1 \<le> (word_of_int b :: u8)" "(word_of_int b :: u8) \<le> 8"
  using assms by (simp_all add: word_le_def uint_word_of_int_eq take_bit_int_eq_self)

lemma clicks_perform: "clicks_ok sv \<Longrightarrow> clicks_ok (perform_text now from q sv)"
  by (auto simp: perform_text_def text_click_def text_report_def server_enqueue_def Let_def work_ok_def no_work_def
      text_button intro!: clicks_append split: prod.split)

lemma clicks_text: "clicks_ok sv \<Longrightarrow> clicks_ok (handle_command now from text sv)"
  by (simp add: handle_command_def clicks_perform Let_def split: option.split prod.split sum.split)

lemma clicks_datagram: "clicks_ok sv \<Longrightarrow> clicks_ok (handle_datagram allowed now from data sv)"
  by (auto simp: handle_datagram_def handle_subscribe_def handle_query_def handle_text_def Let_def
      clicks_move clicks_click clicks_movement clicks_text split: option.split prod.split)

lemmas clicks_stages = clicks_generation clicks_events clicks_overflow clicks_watchdog clicks_mover clicks_scheduler
  clicks_telemetry clicks_datagram

lemma server_runs_clicks: "server_runs sv \<Longrightarrow> clicks_ok sv"
proof (induction rule: server_runs.induct)
  case (start epoch now mx)
  show ?case by (simp add: clicks_ok_def server_init_def)
next
  case (step sv sv')
  from step(2,3) show ?case by cases (simp_all add: clicks_stages)
qed

subsection \<open>Holding\<close>

text \<open>While a click holds its button, the scheduler does nothing until the press time is over, and then it releases.\<close>

lemma scheduler_holding:
  assumes "server_runs sv" and "sv_work sv = w # ws" and "ck_phase w = CP_Holding"
  shows "scheduler_tick now sv = (if now < after (ck_press_written w) (ck_press_us w) then sv else unpress_tick now w sv)"
proof -
  have "ck_due w = after (ck_press_written w) (ck_press_us w)"
    using server_runs_clicks [OF assms(1)] assms(2,3) by (simp add: clicks_ok_def work_ok_def)
  moreover have "\<not> sv_release_pending sv"
    using engine_begun [OF server_runs_ok(1) [OF assms(1)] assms(2)] assms(3) by simp
  ultimately show ?thesis
    using assms(2,3) by (auto simp: scheduler_tick_def release_tick_def Let_def not_le not_less)
qed

text \<open>What the release comes to.\<close>

lemma unpress_outcome:
  assumes "server_runs sv" and "sv_work sv = w # ws" and "ck_phase w = CP_Holding"
  shows "sv_scheduled (unpress_tick now w sv) = 0 \<and> sv_work (unpress_tick now w sv) \<in> {[], w\<lparr>ck_phase := CP_ReleaseInflight\<rparr> # ws}
    \<or> sv_scheduled (unpress_tick now w sv) = sv_scheduled sv \<and> sv_work (unpress_tick now w sv) = w\<lparr>ck_phase := CP_AwaitRelease\<rparr> # ws"
proof -
  have "sv_scheduled sv = button_bit (ck_button w)"
    using server_runs_ok(1) [OF assms(1)] assms(2,3) by (simp add: engine_ok_def pressed_phase_def)
  moreover have "button_bit b AND NOT (button_bit b) = 0" for b by (simp add: bit_eq_iff bit_simps)
  moreover obtain r mx where "server_enqueue no_command (sv_persistent sv) 0 RK_ClickRelease False
      (ck_key w) (ck_index w) (ck_button w) now sv = (r, sv\<lparr>sv_mixer := mx\<rparr>)" by (rule enqueue_frame)
  ultimately show ?thesis
    using assms(2) by (simp add: unpress_tick_def Let_def front_work_def reset_all_def split: enqueue_result.split)
qed

end
