(* ===== verification/Server_Once.thy ===== *)
theory Server_Once
  imports Server_Run
begin

text \<open>
  Commands arrive over UDP and are repeated by the client until they are answered. The contract
  that makes this safe is a locale: an input that had an effect settles, and a settled input has no effect and
  stays settled. The click commands, the move commands and the datagram loop meet it.
\<close>

locale once_handler =
  fixes effect :: "'s \<Rightarrow> 'd"
    and handle :: "'i \<Rightarrow> 's \<Rightarrow> 's"
    and settled :: "'s \<Rightarrow> bool"
  assumes settled_idle: "settled s \<Longrightarrow> effect (handle i s) = effect s"
    and settled_stays: "settled s \<Longrightarrow> settled (handle i s)"
    and effect_settles: "effect (handle i s) \<noteq> effect s \<Longrightarrow> settled (handle i s)"
begin

lemma settled_run: "settled s \<Longrightarrow> effect (fold handle is s) = effect s"
  by (induction "is" arbitrary: s) (simp_all add: settled_idle settled_stays)

lemma after_effect: "effect (handle i s) \<noteq> effect s \<Longrightarrow> effect (fold handle is (handle i s)) = effect (handle i s)"
  by (rule settled_run [OF effect_settles])

text \<open>However often the input is handled, its effect changes at one of the times at most.\<close>

lemma one_effect:
  "\<exists>n. (\<forall>m \<le> n. effect (fold handle (take m is) s) = effect s)
     \<and> (\<forall>m > n. effect (fold handle (take m is) s) = effect (fold handle is s))"
proof (induction "is" arbitrary: s)
  case (Cons i "is")
  show ?case
  proof (cases "effect (handle i s) = effect s")
    case True
    obtain n where n: "\<forall>m \<le> n. effect (fold handle (take m is) (handle i s)) = effect (handle i s)"
      "\<forall>m > n. effect (fold handle (take m is) (handle i s)) = effect (fold handle is (handle i s))"
      using Cons by blast
    show ?thesis
    proof (intro exI [of _ "Suc n"] conjI allI impI)
      fix m assume "m \<le> Suc n"
      then show "effect (fold handle (take m (i # is)) s) = effect s" using n(1) True by (cases m) auto
    next
      fix m assume "m > Suc n"
      then show "effect (fold handle (take m (i # is)) s) = effect (fold handle (i # is) s)"
        using n(2) by (cases m) auto
    qed
  next
    case False
    show ?thesis
    proof (intro exI [of _ 0] conjI allI impI)
      fix m :: nat assume "m > 0"
      then show "effect (fold handle (take m (i # is)) s) = effect (fold handle (i # is) s)"
        using after_effect [OF False] by (cases m) simp_all
    qed simp
  qed
qed simp

end

subsection \<open>Click and move commands\<close>

definition click_settled :: "bytes \<Rightarrow> server \<Rightarrow> bool" where
  "click_settled data sv \<longleftrightarrow>
    (case click_parse data of None \<Rightarrow> True | Some r \<Rightarrow> (cr_session r, cr_command r) \<in> set (cache_keys sv))"

lemma click_effective:
  assumes "drive (handle_click now from data sv) \<noteq> drive sv"
  shows "click_settled data (handle_click now from data sv)"
proof (cases "click_parse data")
  case (Some r)
  show ?thesis
    using assms Some click_known [OF Some, of sv] schedule_effective [of now "from" r _ "sv\<lparr>sv_sessions := _\<rparr>"]
      release_effective [of now "from" r "sv\<lparr>sv_sessions := _\<rparr>"]
    by (auto simp: click_settled_def handle_click_def Let_def split: prod.splits option.splits if_splits)
qed (simp add: click_settled_def)

lemma click_keys: "click_settled data sv \<Longrightarrow> click_settled data (handle_click now from data sv)"
  by (auto simp: click_settled_def handle_click_def Let_def find_cache_None split: option.splits)

lemma click_idle: "click_settled data sv \<Longrightarrow> drive (handle_click now from data sv) = drive sv"
  by (cases "click_parse data") (simp_all add: click_settled_def click_known, simp add: handle_click_def invalid_click_def Let_def)

interpretation click_commands: once_handler drive "\<lambda>(now, from). handle_click now from data" "click_settled data" for data
  by unfold_locales (auto simp: click_idle click_keys click_effective)

definition move_settled :: "bytes \<Rightarrow> server \<Rightarrow> bool" where
  "move_settled data sv \<longleftrightarrow> (case move_parse data of None \<Rightarrow> True
     | Some r \<Rightarrow> if mr_operation r = MO_Execute then (mr_session r, mr_command r) \<in> set (cache_keys sv)
         else drive (steer_mover r sv) = drive sv)"

lemma move_idle: "move_settled data sv \<Longrightarrow> drive (handle_move now from data sv) = drive sv"
  using move_known [of data _ sv now "from"] steer_execute [of _ sv]
  by (cases "move_parse data") (auto simp: move_settled_def split: if_splits, simp add: handle_move_def)

lemma move_keys: "k \<in> set (cache_keys sv) \<Longrightarrow> move_parse data = Some r \<Longrightarrow> k = (mr_session r, mr_command r)
    \<Longrightarrow> k \<in> set (cache_keys (handle_move now from data sv))"
  by (auto simp: handle_move_def steer_mover_def Let_def find_cache_None split: option.splits)

lemma move_stays:
  assumes "move_settled data sv"
  shows "move_settled data (handle_move now from data sv)"
proof (cases "move_parse data")
  case (Some r)
  have "drive (steer_mover r (handle_move now from data sv)) = drive (steer_mover r sv)"
    using move_idle [OF assms, of now "from"] by (rule drive_steer)
  then show ?thesis
    using assms Some move_keys [OF _ Some] move_idle [OF assms, of now "from"] by (auto simp: move_settled_def split: if_splits)
qed (simp add: move_settled_def)

lemma move_settles:
  assumes "drive (handle_move now from data sv) \<noteq> drive sv"
  shows "move_settled data (handle_move now from data sv)"
proof (cases "move_parse data")
  case (Some r)
  let ?s = "handle_move now from data sv"
  show ?thesis
  proof (cases "mr_operation r = MO_Execute")
    case True
    then show ?thesis using move_effective [OF assms Some] by (simp add: move_settled_def Some)
  next
    case False
    have e: "drive ?s = drive (steer_mover r sv)" using move_known [OF Some, of sv now "from"] False assms by auto
    then have "drive (steer_mover r ?s) = drive (steer_mover r (steer_mover r sv))" by (rule drive_steer)
    then show ?thesis using e steer_twice [of r sv] False by (simp add: move_settled_def Some)
  qed
qed (simp add: move_settled_def)

interpretation move_commands: once_handler drive "\<lambda>(now, from). handle_move now from data" "move_settled data" for data
  by unfold_locales (auto simp: move_idle move_stays move_settles)

subsection \<open>The datagram loop\<close>

text \<open>The datagrams that carry commands; any other is left out of the contract.\<close>

definition is_command :: "bytes \<Rightarrow> bool" where
  "is_command data \<longleftrightarrow> magic data ''UPC1'' \<or> magic data ''UPM1''"

definition deliver :: "bytes \<Rightarrow> u32 option \<times> u64 \<times> peer \<Rightarrow> server \<Rightarrow> server" where
  "deliver data i sv = (if is_command data then case i of (allowed, now, from) \<Rightarrow> handle_datagram allowed now from data sv else sv)"

definition command_settled :: "bytes \<Rightarrow> server \<Rightarrow> bool" where
  "command_settled data sv \<longleftrightarrow> (if magic data ''UPS1'' \<or> magic data ''UPS2'' \<or> magic data ''UPS3'' \<or> magic data ''UPQ1'' then True
     else if magic data ''UPM1'' then move_settled data sv else click_settled data sv)"

interpretation commands: once_handler drive "deliver data" "command_settled data" for data
  by unfold_locales (auto simp: deliver_def command_settled_def is_command_def handle_datagram_def subscribe_query_drive
      move_idle move_stays move_settles click_idle click_keys click_effective)

lemma deliver_eq: "is_command data \<Longrightarrow> deliver data (allowed, now, from) sv = handle_datagram allowed now from data sv"
  by (simp add: deliver_def)

end
