(* ===== verification/Server_Example.thy ===== *)
theory Server_Example
  imports Server_Clicks Server_Once Mixer_Example
begin

text \<open>
  A concrete run of the server, used to instantiate its theorems: a mouse is ready, a peer schedules two
  clicks of the left button and the scheduler queues the first press.
\<close>

definition demo_click :: click_request where
  "demo_click = \<lparr>cr_operation = CO_Schedule, cr_button = 1, cr_session = 7, cr_command = 9, cr_count = 2,
     cr_press_us = 10000, cr_interval_us = 20000, cr_version = VERSION1\<rparr>"

definition demo_owner :: peer where
  "demo_owner = \<lparr>pe_address = 1, pe_port = 1000\<rparr>"

definition demo_server :: server where
  "demo_server = server_init 3 0 (ms_mixer demo_seeded)"

definition demo_clicked :: server where
  "demo_clicked = handle_datagram None 100 demo_owner (click_request_packet demo_click) demo_server"

definition demo_pressed :: server where
  "demo_pressed = scheduler_tick 101 demo_clicked"

lemma demo_click_parsed: "click_parse (click_request_packet demo_click) = Some demo_click"
  by (rule click_request_roundtrip) (simp add: click_request_wf_def demo_click_def)

lemma demo_click_magic:
  "magic (click_request_packet r) ''UPC1''" "\<not> magic (click_request_packet r) ''UPS1''"
  "\<not> magic (click_request_packet r) ''UPS2''" "\<not> magic (click_request_packet r) ''UPS3''"
  "\<not> magic (click_request_packet r) ''UPQ1''" "\<not> magic (click_request_packet r) ''UPM1''"
  "click_request_packet r \<noteq> []" "length (click_request_packet r) \<le> DATAGRAM_MAX"
proof -
  have l: "length (click_request_packet r) = 40" by (simp add: click_request_packet_def wire_simps click_sizes)
  show "click_request_packet r \<noteq> []" using l by (metis list.size(3) zero_neq_numeral)
  show "length (click_request_packet r) \<le> DATAGRAM_MAX" by (simp only: l DATAGRAM_MAX_def)
  have m: "has_magic (click_request_packet r) t = has_magic (blit (replicate 40 0) 0 (ascii ''UPC1'')) t"
    if "length t = 4" for t by (simp add: click_request_packet_def wire_simps click_sizes that)
  show "magic (click_request_packet r) ''UPC1''" "\<not> magic (click_request_packet r) ''UPS1''"
    "\<not> magic (click_request_packet r) ''UPS2''" "\<not> magic (click_request_packet r) ''UPS3''"
    "\<not> magic (click_request_packet r) ''UPQ1''" "\<not> magic (click_request_packet r) ''UPM1''"
    by (simp_all add: magic_def m click_sizes) (simp_all add: has_magic_def blit_def ascii_def)
qed

lemma demo_endpoint_fields:
  "en_latest demo_endpoint' \<noteq> []" "en_generation demo_endpoint' = 1" "en_physical demo_endpoint' = 0"
  "supported_mask (en_profile demo_endpoint') = 7" "en_profile demo_endpoint' = boot_profile" "en_info demo_endpoint' = 0"
  "en_synthetic demo_endpoint' = []"
  by (simp_all add: demo_endpoint'_def demo_endpoint_def no_endpoint_def supported_mask_def boot_defs)

lemma demo_snapshot_fields:
  "es_ready (endpoint_snapshot t (ms_mixer demo_seeded))" "es_generation (endpoint_snapshot t (ms_mixer demo_seeded)) = 1"
  "es_physical (endpoint_snapshot t (ms_mixer demo_seeded)) = 0"
  "es_supported (endpoint_snapshot t (ms_mixer demo_seeded)) = 7"
  by (simp_all add: endpoint_snapshot_def demo_seeded_mixer Let_def demo_endpoint_fields)

lemma demo_poll: "es_poll_us (endpoint_snapshot t (ms_mixer demo_seeded)) = 1000"
proof -
  have "th_poll_us (mx_threads (ms_mixer demo_seeded) 0) = 1000"
    by (simp add: demo_seeded_def seed_mouse_report_def demo_attached_mixer Let_def put_endpoint_def select_if_none_def
        demo_attached_def register_mouse_endpoint_def fresh_thread_def update_pending_def demo_matching split: option.split)
  thus ?thesis by (simp add: endpoint_snapshot_def demo_seeded_mixer Let_def demo_endpoint_fields)
qed

lemma demo_init:
  "sv_mixer demo_server = ms_mixer demo_seeded" "sv_work demo_server = []" "sv_cache demo_server = []"
  "sv_sessions demo_server = no_sessions" "sv_mover demo_server = no_mover" "\<not> sv_owned demo_server"
  "sv_persistent demo_server = 0" "sv_scheduled demo_server = 0" "\<not> sv_release_pending demo_server"
  by (simp_all add: demo_server_def server_init_def)

lemma demo_accepted: "click_refusal demo_click (endpoint_snapshot 100 (ms_mixer demo_seeded)) (demo_server\<lparr>sv_sessions := ss\<rparr>) = None"
  by (simp add: click_refusal_def demo_snapshot_fields demo_poll demo_init demo_click_def no_mover_def no_ack_def mover_active_def
      button_bit_def MAX_CLICK_COMMANDS_def)


text \<open>The server accepts the command: it owns the session, the click is queued and its record is kept.\<close>

lemma demo_clicked_state:
  "sv_work demo_clicked = [click_of_request demo_click 100]" "sv_mixer demo_clicked = ms_mixer demo_seeded"
  "sv_owned demo_clicked" "sv_owner demo_clicked = demo_owner" "sv_tracked demo_clicked = 1"
  "sv_persistent demo_clicked = 0" "sv_scheduled demo_clicked = 0" "\<not> sv_release_pending demo_clicked"
  "cache_keys demo_clicked = [(7, 9)]" "sv_mover demo_clicked = no_mover"
proof -
  have fresh: "session_stale no_sessions s c t = (False, no_sessions)"
    "session_admit no_sessions s t False pr = (True, \<lparr>st_active = [\<lparr>se_session = s, se_highest = 0, se_stamp = t\<rparr>], st_retired = []\<rparr>)"
    for s c t pr
    by (simp_all add: session_stale_def session_admit_def no_sessions_def session_prune_def session_find_def
        session_victim_def session_erase_def MAX_ACTIVE_def extract_Nil_code Let_def)
  have "demo_clicked = handle_click 100 demo_owner (click_request_packet demo_click) demo_server"
    by (simp add: demo_clicked_def handle_datagram_def demo_click_magic click_sizes DATAGRAM_MAX_def)
  also have "\<dots> = schedule_click 100 demo_owner demo_click (endpoint_snapshot 100 (ms_mixer demo_seeded))
      (demo_server\<lparr>sv_sessions := no_sessions\<rparr>)"
    using demo_accepted [of no_sessions]
    by (simp add: handle_click_def demo_click_parsed demo_init find_cache_def fresh Let_def) (simp add: demo_click_def)
  finally have c: "demo_clicked = schedule_click 100 demo_owner demo_click (endpoint_snapshot 100 (ms_mixer demo_seeded))
      (demo_server\<lparr>sv_sessions := no_sessions\<rparr>)" .
  show "sv_work demo_clicked = [click_of_request demo_click 100]" "sv_mixer demo_clicked = ms_mixer demo_seeded"
    "sv_owned demo_clicked" "sv_owner demo_clicked = demo_owner" "sv_tracked demo_clicked = 1"
    "sv_persistent demo_clicked = 0" "sv_scheduled demo_clicked = 0" "\<not> sv_release_pending demo_clicked"
    "cache_keys demo_clicked = [(7, 9)]" "sv_mover demo_clicked = no_mover"
    by (simp_all add: c schedule_click_def fresh demo_init remove_old_cache_def cache_full_def accept_record_def Let_def
        MAX_CACHE_RECORDS_def demo_snapshot_fields set_owner_def cache_keys_def) (simp_all add: demo_click_def)
qed

lemma demo_clicked_runs: "server_runs demo_clicked"
  unfolding demo_clicked_def demo_server_def by (rule server_runs.step [OF server_runs.start datagram])

lemma demo_pressed_runs: "server_runs demo_pressed"
  unfolding demo_pressed_def by (rule server_runs.step [OF demo_clicked_runs schedule])

text \<open>The scheduler queues the press.\<close>

lemma demo_pressed_state:
  "sv_scheduled demo_pressed = 1" "sv_mover demo_pressed = no_mover" "\<not> sv_release_pending demo_pressed"
  "sv_work demo_pressed = [(click_of_request demo_click 100)\<lparr>ck_phase := CP_PressInflight\<rparr>]"
proof -
  have loop: "split_loop boot_profile c 32 = split_loop boot_profile c (Suc 31)" for c by simp
  have sp: "split_mouse_command boot_profile (no_command\<lparr>cmd_buttons := 1\<rparr>) = [no_command\<lparr>cmd_buttons := 1\<rparr>]"
    by (simp only: split_mouse_command_def loop split_loop.simps)
      (simp add: no_command_def no_motion_def take_report_def take_axis_def)
  have w: "ck_phase (click_of_request demo_click 100) = CP_AwaitPress" "ck_due (click_of_request demo_click 100) = 100"
    "ck_button (click_of_request demo_click 100) = 1"
    by (simp_all add: click_of_request_def no_work_def demo_click_def)
  have q: "fst (enqueue_report no_command 0 1 RK_ClickPress False a b c 1 UINT64_MAX 0 101 (ms_mixer demo_seeded)) = ER_Ok" for a b c
    by (simp add: enqueue_report_def demo_seeded_mixer demo_endpoint_fields sp Let_def MAX_SYNTHETIC_ITEMS_def)
  obtain mx where e: "enqueue_report no_command 0 1 RK_ClickPress False (fst (ck_key (click_of_request demo_click 100)))
      (snd (ck_key (click_of_request demo_click 100))) (ck_index (click_of_request demo_click 100)) 1 UINT64_MAX 0 101
      (ms_mixer demo_seeded) = (ER_Ok, mx)" by (metis q prod.collapse)
  have "button_bit 1 = 1" by (simp add: button_bit_def)
  thus "sv_scheduled demo_pressed = 1" "sv_mover demo_pressed = no_mover" "\<not> sv_release_pending demo_pressed"
    "sv_work demo_pressed = [(click_of_request demo_click 100)\<lparr>ck_phase := CP_PressInflight\<rparr>]"
    by (simp_all add: demo_pressed_def scheduler_tick_def release_tick_def demo_clicked_state w press_tick_def Let_def
        demo_snapshot_fields server_enqueue_def e front_work_def)
qed

text \<open>The press has been written at the time 500, so the button is held for 10 ms from there.\<close>

definition demo_written :: writer_event where
  "demo_written = \<lparr>we_session = 7, we_command = 9, we_generation = 1, we_written_ns = 500, we_index = 0,
     we_kind = RK_ClickPress, we_button = 1, we_blocked = False, we_final_buttons = 1, we_success = True, we_dx = 0,
     we_dy = 0, we_finished = True\<rparr>"

definition demo_holding :: server where
  "demo_holding = process_writer_events 600
     (demo_pressed\<lparr>sv_mixer := (sv_mixer demo_pressed)\<lparr>mx_events := [demo_written]\<rparr>\<rparr>)"

lemma demo_holding_runs: "server_runs demo_holding"
  unfolding demo_holding_def by (rule server_runs.step [OF server_runs.step [OF demo_pressed_runs server_step.shared] server_step.events])

definition demo_held_click :: click_work where
  "demo_held_click = (click_of_request demo_click 100)\<lparr>ck_press_written := 500, ck_due := 10000500, ck_phase := CP_Holding\<rparr>"

lemma demo_holding_work: "sv_work demo_holding = [demo_held_click]"
proof -
  have id: "mover_event demo_written no_mover = no_mover" "sync_move (x\<lparr>sv_mover := no_mover\<rparr>) = x\<lparr>sv_mover := no_mover\<rparr>" for x
    by (simp_all add: mover_event_def sync_move_def no_mover_def no_ack_def mover_active_def Let_def)
  have a: "after 500 10000 = 10000500" by (simp add: after_def us_def UINT64_MAX_def Let_def)
  show ?thesis
    by (simp add: demo_holding_def process_writer_events_def take_writer_events_def process_event_def id demo_pressed_state Let_def
        release_completed_def front_work_def press_written_def a demo_held_click_def)
      (simp add: demo_written_def click_of_request_def demo_click_def no_work_def a)
qed

end
