(* ===== verification/Descriptor_File.thy ===== *)
theory Descriptor_File
  imports Usb_Descriptors Replay_Example
begin

text \<open>
  \<open>saveUsbDescriptors\<close> of \<open>misc.cpp\<close>: the JSON value of the parsed descriptors and the file it is
  written to. The arrays of the JSON library are the argument \<open>A\<close> beside \<open>L\<close>; the styled writer is
  the argument \<open>write\<close>.
\<close>

record 'j json_arrays =
  ja_empty :: 'j
  ja_append :: "'j \<Rightarrow> 'j \<Rightarrow> 'j"

definition json_array :: "'j json_arrays \<Rightarrow> 'j list \<Rightarrow> 'j" where
  "json_array A js = foldl (ja_append A) (ja_empty A) js"

text \<open>An object built by assigning its members one after the other.\<close>

definition json_members :: "'j json_library \<Rightarrow> (string \<times> 'j) list \<Rightarrow> 'j" where
  "json_members L ms = foldl (\<lambda>j (k, v). jl_set L j k v) (jl_null L) ms"

definition json_word :: "'j json_library \<Rightarrow> 'a::len word \<Rightarrow> 'j" where
  "json_word L w = jl_of_int L (uint w)"

subsection \<open>The saved value\<close>

definition endpoint_json :: "'j json_library \<Rightarrow> endpoint_descriptor \<Rightarrow> 'j" where
  "endpoint_json L e = json_members L
    [(''bLength'', json_word L (ed_length e)), (''bDescriptorType'', json_word L (ed_type e)),
     (''bEndpointAddress'', json_word L (ed_address e)), (''bmAttributes'', json_word L (ed_attributes e)),
     (''wMaxPacketSize'', json_word L (ed_max_packet e)), (''bInterval'', json_word L (ed_interval e)),
     (''bRefresh'', json_word L (ed_refresh e)), (''bSynchAddress'', json_word L (ed_synch e))]"

definition altsetting_json :: "'j json_library \<Rightarrow> 'j json_arrays \<Rightarrow> libusb_altsetting \<Rightarrow> 'j" where
  "altsetting_json L A a = (let f = la_interface a in json_members L
    [(''bLength'', json_word L (fd_length f)), (''bDescriptorType'', json_word L (fd_type f)),
     (''bInterfaceNumber'', json_word L (fd_number f)), (''bAlternateSetting'', json_word L (fd_alternate f)),
     (''bNumEndpoints'', json_word L (fd_endpoints f)), (''bInterfaceClass'', json_word L (fd_class f)),
     (''bInterfaceSubClass'', json_word L (fd_subclass f)), (''bInterfaceProtocol'', json_word L (fd_protocol f)),
     (''iInterface'', json_word L (fd_name f)),
     (''endpoints'', json_array A (map (\<lambda>l. endpoint_json L (la_endpoints a ! l)) [0..<unat (fd_endpoints f)]))])"

definition interface_json :: "'j json_library \<Rightarrow> 'j json_arrays \<Rightarrow> libusb_altsetting list \<Rightarrow> 'j" where
  "interface_json L A as = json_members L
    [(''num_altsetting'', jl_of_int L (int (length as))),
     (''altsettings'', json_array A (map (\<lambda>k. altsetting_json L A (as ! k)) [0..<length as]))]"

definition config_json :: "'j json_library \<Rightarrow> 'j json_arrays \<Rightarrow> libusb_config \<Rightarrow> 'j" where
  "config_json L A c = (let d = lc_config c in json_members L
    [(''bLength'', json_word L (cd_length d)), (''bDescriptorType'', json_word L (cd_type d)),
     (''wTotalLength'', json_word L (cd_total d)), (''bNumInterfaces'', json_word L (cd_interfaces d)),
     (''bConfigurationValue'', json_word L (cd_value d)), (''iConfiguration'', json_word L (cd_name d)),
     (''bmAttributes'', json_word L (cd_attributes d)), (''MaxPower'', json_word L (cd_max_power d)),
     (''interfaces'', json_array A (map (\<lambda>j. interface_json L A (lc_interfaces c ! j)) [0..<unat (cd_interfaces d)]))])"

definition device_json :: "'j json_library \<Rightarrow> device_descriptor \<Rightarrow> 'j" where
  "device_json L d = json_members L
    [(''bLength'', json_word L (dd_length d)), (''bDescriptorType'', json_word L (dd_type d)),
     (''bcdUSB'', json_word L (dd_usb d)), (''bDeviceClass'', json_word L (dd_class d)),
     (''bDeviceSubClass'', json_word L (dd_subclass d)), (''bDeviceProtocol'', json_word L (dd_protocol d)),
     (''bMaxPacketSize0'', json_word L (dd_max_packet d)), (''idVendor'', json_word L (dd_vendor d)),
     (''idProduct'', json_word L (dd_product d)), (''bcdDevice'', json_word L (dd_release d)),
     (''iManufacturer'', json_word L (dd_manufacturer d)), (''iProduct'', json_word L (dd_product_name d)),
     (''iSerialNumber'', json_word L (dd_serial d)), (''bNumConfigurations'', json_word L (dd_configurations d))]"

definition descriptors_json :: "'j json_library \<Rightarrow> 'j json_arrays \<Rightarrow> libusb_descriptors \<Rightarrow> 'j" where
  "descriptors_json L A d = json_members L
    [(''device'', device_json L (ld_device d)),
     (''configurations'', json_array A (map (\<lambda>i. config_json L A (ld_configs d ! i))
        [0..<unat (dd_configurations (ld_device d))]))]"

text \<open>The content of the file, where it could be opened.\<close>

definition saveUsbDescriptors ::
    "'j json_library \<Rightarrow> 'j json_arrays \<Rightarrow> ('j \<Rightarrow> string) \<Rightarrow> bool \<Rightarrow> libusb_descriptors \<Rightarrow> string option" where
  "saveUsbDescriptors L A write opened d = (if opened then Some (write (descriptors_json L A d)) else None)"

subsection \<open>The file determines the descriptors\<close>

text \<open>The documented behaviour of arrays: as many elements as were appended, in their order.\<close>

definition arrays_lawful :: "'j json_library \<Rightarrow> 'j json_arrays \<Rightarrow> bool" where
  "arrays_lawful L A \<longleftrightarrow> (\<forall>js. jl_size L (json_array A js) = length js
     \<and> (\<forall>i < length js. jl_at L (json_array A js) i = js ! i))"

locale json_values =
  fixes L :: "'j json_library" and A :: "'j json_arrays" and obj :: "'j \<Rightarrow> bool"
  assumes objects: "json_lawful L obj" and arrays: "arrays_lawful L A"
begin

lemma array_inject: "json_array A js = json_array A js' \<longleftrightarrow> js = js'"
  using arrays unfolding arrays_lawful_def by (metis nth_equalityI)

lemma int_inject: "jl_of_int L m = jl_of_int L n \<longleftrightarrow> m = n"
  using json_lawfulD(6) [OF objects] by (metis option.inject)

lemma word_inject: "json_word L v = json_word L w \<longleftrightarrow> v = w"
  by (simp add: json_word_def int_inject word_uint_eq_iff)

lemma members_get:
  "obj (json_members L ms) \<and> jl_get L (json_members L ms) k
    = Some (case map_of (rev ms) k of None \<Rightarrow> jl_null L | Some v \<Rightarrow> v)"
proof (induction ms rule: rev_induct)
  case (snoc m ms)
  then show ?case using json_lawfulD(3,5) [OF objects]
    by (cases m) (simp add: json_members_def)
qed (simp add: json_members_def json_lawfulD(1,2) [OF objects])

lemma members_inject:
  assumes "json_members L ms = json_members L ms'" and "map fst ms' = map fst ms" and "distinct (map fst ms)"
  shows "ms = ms'"
proof -
  have get: "map_of ns k = Some v \<Longrightarrow> jl_get L (json_members L ns) k = Some v" if "distinct (map fst ns)" for ns k v
  proof -
    assume "map_of ns k = Some v"
    then have "map_of (rev ns) k = Some v"
      using that by (intro map_of_is_SomeI) (auto simp: rev_map [symmetric] dest: map_of_SomeD)
    then show ?thesis using members_get [of ns k] by simp
  qed
  have len: "length ms' = length ms" using assms(2) map_eq_imp_length_eq by blast
  have "ms ! i = ms' ! i" if i: "i < length ms" for i
  proof -
    have key: "fst (ms' ! i) = fst (ms ! i)" using assms(2) i len by (metis nth_map)
    have "map_of ms (fst (ms ! i)) = Some (snd (ms ! i))"
      using assms(3) i by (intro map_of_is_SomeI) (auto simp: in_set_conv_nth)
    moreover have "map_of ms' (fst (ms ! i)) = Some (snd (ms' ! i))"
      using assms(2,3) i len key by (intro map_of_is_SomeI) (auto simp: in_set_conv_nth prod_eq_iff)
    ultimately have "snd (ms ! i) = snd (ms' ! i)" using get [of ms] get [of ms'] assms by (metis option.inject)
    then show ?thesis using key by (simp add: prod_eq_iff)
  qed
  then show ?thesis using len by (intro nth_equalityI) auto
qed

lemma endpoint_inject: "endpoint_json L e = endpoint_json L e' \<longleftrightarrow> e = e'"
  by (auto simp: endpoint_json_def word_inject intro!: endpoint_descriptor.equality dest!: members_inject)

lemma device_inject: "device_json L d = device_json L d' \<longleftrightarrow> d = d'"
  by (auto simp: device_json_def word_inject intro!: device_descriptor.equality dest!: members_inject)

text \<open>What an alternate setting, an interface and a configuration say of themselves, without the extra bytes.\<close>

definition alt_view :: "libusb_altsetting \<Rightarrow> interface_descriptor \<times> endpoint_descriptor list" where
  "alt_view a = (la_interface a, la_endpoints a)"

definition alt_counted :: "libusb_altsetting \<Rightarrow> bool" where
  "alt_counted a \<longleftrightarrow> unat (fd_endpoints (la_interface a)) = length (la_endpoints a)"

lemma altsetting_inject:
  assumes "altsetting_json L A a = altsetting_json L A b" and "alt_counted a" and "alt_counted b"
  shows "alt_view a = alt_view b"
  using assms
  by (auto simp: altsetting_json_def alt_counted_def alt_view_def Let_def word_inject array_inject endpoint_inject
      intro!: interface_descriptor.equality nth_equalityI dest!: members_inject)

lemma interface_inject:
  assumes "interface_json L A as = interface_json L A bs" and "\<forall>a \<in> set as \<union> set bs. alt_counted a"
  shows "map alt_view as = map alt_view bs"
proof -
  have "length as = length bs" "\<forall>k<length as. altsetting_json L A (as ! k) = altsetting_json L A (bs ! k)"
    using assms(1) by (auto simp: interface_json_def int_inject array_inject dest!: members_inject)
  then show ?thesis using assms(2) by (intro nth_equalityI) (auto intro!: altsetting_inject)
qed

definition config_view :: "libusb_config \<Rightarrow> config_descriptor \<times> (interface_descriptor \<times> endpoint_descriptor list) list list" where
  "config_view c = (lc_config c, map (map alt_view) (lc_interfaces c))"

definition config_counted :: "libusb_config \<Rightarrow> bool" where
  "config_counted c \<longleftrightarrow> unat (cd_interfaces (lc_config c)) = length (lc_interfaces c)
     \<and> (\<forall>as \<in> set (lc_interfaces c). \<forall>a \<in> set as. alt_counted a)"

lemma config_inject:
  assumes "config_json L A c = config_json L A d" and "config_counted c" and "config_counted d"
  shows "config_view c = config_view d"
proof -
  have e: "lc_config c = lc_config d" "\<forall>j<unat (cd_interfaces (lc_config c)).
      interface_json L A (lc_interfaces c ! j) = interface_json L A (lc_interfaces d ! j)"
    using assms(1)
    by (auto simp: config_json_def Let_def word_inject array_inject intro!: config_descriptor.equality dest!: members_inject)
  then have "map (map alt_view) (lc_interfaces c) = map (map alt_view) (lc_interfaces d)"
    using assms(2,3) unfolding config_counted_def by - (rule nth_equalityI, auto intro!: interface_inject)
  with e show ?thesis by (simp add: config_view_def)
qed

lemma descriptors_inject:
  assumes "descriptors_json L A c = descriptors_json L A d" and "parsed_ok c" and "parsed_ok d"
  shows "device_of_libusb c = device_of_libusb d"
proof -
  have e: "ld_device c = ld_device d" "\<forall>i<unat (dd_configurations (ld_device c)).
      config_json L A (ld_configs c ! i) = config_json L A (ld_configs d ! i)"
    using assms(1) by (auto simp: descriptors_json_def device_inject array_inject dest!: members_inject)
  have counted: "config_counted x" if "x \<in> set (ld_configs c) \<union> set (ld_configs d)" for x
    using that assms(2,3) by (auto simp: parsed_ok_def config_counted_def alt_counted_def)
  have "map config_view (ld_configs c) = map config_view (ld_configs d)"
    using e assms(2,3) by - (rule nth_equalityI, auto simp: parsed_ok_def intro!: config_inject counted)
  moreover have "device_of_libusb x = (ld_device x, map config_view (ld_configs x))" for x
    by (simp add: device_of_libusb_def config_view_def alt_view_def [abs_def])
  ultimately show ?thesis using e(1) by simp
qed

end

subsection \<open>The library of the example\<close>

definition json_list :: "json json_arrays" where
  "json_list = \<lparr>ja_empty = J_Array [], ja_append = (\<lambda>a j. case a of J_Array js \<Rightarrow> J_Array (js @ [j]) | _ \<Rightarrow> a)\<rparr>"

lemma json_list_array: "json_array json_list js = J_Array js"
  by (induction js rule: rev_induct) (simp_all add: json_array_def json_list_def)

lemma json_list_lawful: "arrays_lawful json_library json_list"
  by (simp add: arrays_lawful_def json_list_array json_library_def)

interpretation example_json: json_values json_library json_list json_object
  by unfold_locales (rule json_library_lawful, rule json_list_lawful)

text \<open>A text for every value: all that is asked of the writer is that it tells values apart.\<close>

instance json :: countable
  by countable_datatype

definition json_text :: "json \<Rightarrow> string" where
  "json_text j = replicate (to_nat j) CHR ''x''"

lemma json_text_inj: "inj json_text"
proof (rule injI)
  fix x y assume "json_text x = json_text y"
  then have "to_nat x = to_nat y" unfolding json_text_def by (metis length_replicate)
  then show "x = y" by simp
qed

end
